theory Spec2Isabelle
  imports Main "HOL-Library.Log_Nat" "HOL-Library.Multiset" "HOL-Library.AList"
    "HOL-Library.Sublist"
begin

section \<open>Python floats\<close>

text \<open>
  The split ratios of \<^verbatim>\<open>split_data\<close> are Python floats (IEEE 754 binary64). A float is
  modelled by the rational number it denotes; every arithmetic operation computes the
  exact rational result and rounds it to the nearest number with a 53-bit significand,
  ties to even (\<open>fl\<close>). The exponent range is not bounded: overflow, infinities and
  subnormal numbers are outside the model (they would need a directory with more than
  \<open>2 ^ 1023\<close> entries, or ratios below \<open>2 ^ (-1022)\<close>).
\<close>

definition pow2 :: "int \<Rightarrow> rat" where
  "pow2 e = (if 0 \<le> e then 2 ^ nat e else 1 / 2 ^ nat (- e))"

definition round_half_even :: "rat \<Rightarrow> int" where
  "round_half_even x =
     (let f = \<lfloor>x\<rfloor>; d = x - of_int f
      in if d < 1 / 2 then f else if 1 / 2 < d then f + 1
         else if even f then f else f + 1)"

text \<open>The binary exponent \<open>e\<close> of a non-zero number: \<open>2 ^ e \<le> \<bar>x\<bar> < 2 ^ (e + 1)\<close>.\<close>

definition binexp :: "rat \<Rightarrow> int" where
  "binexp x =
     (let (p, q) = quotient_of \<bar>x\<bar>; e = bitlen p - bitlen q
      in if pow2 e \<le> \<bar>x\<bar> then e else e - 1)"

definition fl :: "rat \<Rightarrow> rat" where
  "fl x = (if x = 0 then 0
           else let u = pow2 (binexp x - 52) in of_int (round_half_even (x / u)) * u)"

definition fadd :: "rat \<Rightarrow> rat \<Rightarrow> rat" where
  "fadd a b = fl (a + b)"

definition fsub :: "rat \<Rightarrow> rat \<Rightarrow> rat" where
  "fsub a b = fl (a - b)"

definition fmul :: "rat \<Rightarrow> rat \<Rightarrow> rat" where
  "fmul a b = fl (a * b)"

definition fdiv :: "rat \<Rightarrow> rat \<Rightarrow> rat" where
  "fdiv a b = fl (a / b)"

text \<open>A float literal such as \<^verbatim>\<open>0.7\<close>, and the conversion \<^verbatim>\<open>float(n)\<close> of an int.\<close>

definition float_lit :: "rat \<Rightarrow> rat" where
  "float_lit q = fl q"

definition float_of_nat :: "nat \<Rightarrow> rat" where
  "float_of_nat n = fl (of_nat n)"

section \<open>Exceptions and outcomes\<close>

datatype error =
    ValueError
  | IndexError
  | ZeroDivisionError
  | FileNotFoundError
  | NotADirectoryError
  | IsADirectoryError
  | FileExistsError
  | SameFileError

fun error_str :: "error \<Rightarrow> string" where
  "error_str ValueError = ''ValueError''"
| "error_str IndexError = ''IndexError''"
| "error_str ZeroDivisionError = ''ZeroDivisionError''"
| "error_str FileNotFoundError = ''FileNotFoundError''"
| "error_str NotADirectoryError = ''NotADirectoryError''"
| "error_str IsADirectoryError = ''IsADirectoryError''"
| "error_str FileExistsError = ''FileExistsError''"
| "error_str SameFileError = ''SameFileError''"

text \<open>
  A pass either runs to its end (\<open>Done\<close>) or is halted by an uncaught exception
  (\<open>Raised\<close>); in both cases the state of the world it leaves behind is kept.
\<close>

datatype 'w outcome = Done 'w | Raised error 'w

fun world_of :: "'w outcome \<Rightarrow> 'w" where
  "world_of (Done w) = w"
| "world_of (Raised e w) = w"

fun is_Done :: "'w outcome \<Rightarrow> bool" where
  "is_Done (Done w) = True"
| "is_Done (Raised e w) = False"

text \<open>Sequencing two statements, and \<^verbatim>\<open>for x in xs: body\<close>.\<close>

definition and_then :: "'w outcome \<Rightarrow> ('w \<Rightarrow> 'w outcome) \<Rightarrow> 'w outcome" where
  "and_then r f = (case r of Done w \<Rightarrow> f w | Raised e w \<Rightarrow> Raised e w)"

fun for_each :: "('a \<Rightarrow> 'w \<Rightarrow> 'w outcome) \<Rightarrow> 'a list \<Rightarrow> 'w \<Rightarrow> 'w outcome" where
  "for_each body [] w = Done w"
| "for_each body (x # xs) w =
     (case body x w of
        Done w' \<Rightarrow> for_each body xs w'
      | Raised e w' \<Rightarrow> Raised e w')"

section \<open>The filesystem\<close>

text \<open>
  A path is the list of its components; \<^verbatim>\<open>os.path.join(d, name)\<close> is \<open>d @ [name]\<close>.
  The filesystem is an association list from paths to nodes, whose order gives the
  order in which \<^verbatim>\<open>os.listdir\<close> lists a directory. The empty path is the working
  directory, which always exists. File contents are of an arbitrary type \<open>'c\<close>.
\<close>

type_synonym path = "string list"

datatype 'c node = Dir | File 'c

type_synonym 'c fs = "(path \<times> 'c node) list"

definition lookup :: "'c fs \<Rightarrow> path \<Rightarrow> 'c node option" where
  "lookup fs p = (if p = [] then Some Dir else map_of fs p)"

definition isdir :: "'c fs \<Rightarrow> path \<Rightarrow> bool" where
  "isdir fs p = (lookup fs p = Some Dir)"

definition child_of :: "path \<Rightarrow> path \<Rightarrow> bool" where
  "child_of p q = (q \<noteq> [] \<and> butlast q = p)"

definition listdir :: "'c fs \<Rightarrow> path \<Rightarrow> string list" where
  "listdir fs p = remdups (map last (filter (child_of p) (map fst fs)))"

definition os_listdir :: "'c fs \<Rightarrow> path \<Rightarrow> error + string list" where
  "os_listdir fs p =
     (case lookup fs p of
        None \<Rightarrow> Inl FileNotFoundError
      | Some (File c) \<Rightarrow> Inl NotADirectoryError
      | Some Dir \<Rightarrow> Inr (listdir fs p))"

definition os_remove :: "'c fs \<Rightarrow> path \<Rightarrow> error + 'c fs" where
  "os_remove fs p =
     (case lookup fs p of
        None \<Rightarrow> Inl FileNotFoundError
      | Some Dir \<Rightarrow> Inl IsADirectoryError
      | Some (File c) \<Rightarrow> Inr (AList.delete p fs))"

text \<open>
  \<^verbatim>\<open>os.makedirs(p, exist_ok=True)\<close>: \<open>makedirs_from fs pre rest\<close> walks down the
  components \<open>rest\<close> below the existing directory \<open>pre\<close> and creates what is missing.
\<close>

fun makedirs_from :: "'c fs \<Rightarrow> path \<Rightarrow> path \<Rightarrow> error + 'c fs" where
  "makedirs_from fs pre [] = Inr fs"
| "makedirs_from fs pre (x # xs) =
     (case lookup fs (pre @ [x]) of
        Some Dir \<Rightarrow> makedirs_from fs (pre @ [x]) xs
      | Some (File c) \<Rightarrow> Inl (if xs = [] then FileExistsError else NotADirectoryError)
      | None \<Rightarrow> makedirs_from (AList.update (pre @ [x]) Dir fs) (pre @ [x]) xs)"

definition os_makedirs :: "'c fs \<Rightarrow> path \<Rightarrow> error + 'c fs" where
  "os_makedirs fs p = makedirs_from fs [] p"

text \<open>Opening a path for writing and storing \<open>c\<close> there.\<close>

definition write_file :: "'c fs \<Rightarrow> path \<Rightarrow> 'c \<Rightarrow> error + 'c fs" where
  "write_file fs p c =
     (if p = [] then Inl IsADirectoryError
      else case lookup fs (butlast p) of
        None \<Rightarrow> Inl FileNotFoundError
      | Some (File d) \<Rightarrow> Inl NotADirectoryError
      | Some Dir \<Rightarrow>
          (case lookup fs p of
             Some Dir \<Rightarrow> Inl IsADirectoryError
           | _ \<Rightarrow> Inr (AList.update p (File c) fs)))"

text \<open>
  \<^verbatim>\<open>shutil.copy(src, dst)\<close>: a destination that is a directory receives the file under
  the source's name; copying a file onto itself, or copying a directory, raises.
\<close>

definition shutil_copy :: "'c fs \<Rightarrow> path \<Rightarrow> path \<Rightarrow> error + 'c fs" where
  "shutil_copy fs src dst =
     (let dst' = (if isdir fs dst \<and> src \<noteq> [] then dst @ [last src] else dst)
      in case lookup fs src of
           None \<Rightarrow> Inl FileNotFoundError
         | Some Dir \<Rightarrow> Inl IsADirectoryError
         | Some (File c) \<Rightarrow> if src = dst' then Inl SameFileError else write_file fs dst' c)"

fun path_str :: "path \<Rightarrow> string" where
  "path_str [] = []"
| "path_str [x] = x"
| "path_str (x # y # ys) = x @ ''/'' @ path_str (y # ys)"

text \<open>
  The text of an \<^verbatim>\<open>OSError\<close> raised for the path \<open>p\<close>, as \<^verbatim>\<open>str(e)\<close> gives it on a POSIX
  system: the error number and its description, then the path in quotes (\<open>quoted\<close> is
  Python's \<^verbatim>\<open>repr\<close> of a string that holds no quote and no backslash). The other
  exceptions of the model are no \<^verbatim>\<open>OSError\<close>s and are never raised by opening a file;
  the name of their class stands in for their text.
\<close>

definition quoted :: "string \<Rightarrow> string" where
  "quoted s = [CHR 0x27] @ s @ [CHR 0x27]"

fun strerror :: "error \<Rightarrow> string" where
  "strerror FileNotFoundError = ''[Errno 2] No such file or directory''"
| "strerror FileExistsError = ''[Errno 17] File exists''"
| "strerror NotADirectoryError = ''[Errno 20] Not a directory''"
| "strerror IsADirectoryError = ''[Errno 21] Is a directory''"
| "strerror e = error_str e"

definition os_error_str :: "error \<Rightarrow> path \<Rightarrow> string" where
  "os_error_str e p = strerror e @ '': '' @ quoted (path_str p)"

section \<open>The world\<close>

text \<open>
  The state the three passes work on: the filesystem, the lines printed so far, and the
  state \<open>'g\<close> of numpy's global random generator, which an unseeded
  \<^verbatim>\<open>train_test_split\<close> draws from.
\<close>

record ('c, 'g) world =
  files :: "'c fs"
  stdout :: "string list"
  global_rng :: 'g

definition print :: "string \<Rightarrow> ('c, 'g) world \<Rightarrow> ('c, 'g) world" where
  "print line w = w\<lparr>stdout := stdout w @ [line]\<rparr>"

section \<open>The image library\<close>

text \<open>
  Pillow is used as a black box and is a parameter of the model. \<open>pil_open\<close> decodes the
  header of a file's content (\<^verbatim>\<open>Image.open\<close>); when it fails, its message may name the
  path it was given. \<open>pil_verify\<close> is \<^verbatim>\<open>Image.verify\<close>, \<open>pil_resize\<close> is \<^verbatim>\<open>Image.resize\<close>
  (which decodes the pixel data first), and \<open>pil_size\<close> gives the dimensions of an
  image. A failing call returns the message of its exception.

  \<open>pil_save\<close> is the encoder behind \<^verbatim>\<open>Image.save\<close>, for an image and the path it is saved
  under. It can refuse before any file is opened (no format is known for the file name),
  it can raise while it encodes, after some content has been written, or it can write
  the whole content.
\<close>

datatype 'c saved = Refused string | Broke string 'c | Saved 'c

record ('c, 'i) pil =
  pil_open :: "'c \<Rightarrow> (path \<Rightarrow> string) + 'i"
  pil_verify :: "'i \<Rightarrow> string option"
  pil_resize :: "'i \<Rightarrow> nat \<times> nat \<Rightarrow> string + 'i"
  pil_save :: "'i \<Rightarrow> path \<Rightarrow> 'c saved"
  pil_size :: "'i \<Rightarrow> nat \<times> nat"

text \<open>\<^verbatim>\<open>Image.open(p)\<close> opens the file for reading and hands its content to the decoder.\<close>

definition Image_open :: "('c, 'i) pil \<Rightarrow> 'c fs \<Rightarrow> path \<Rightarrow> string + 'i" where
  "Image_open lib fs p =
     (case lookup fs p of
        None \<Rightarrow> Inl (os_error_str FileNotFoundError p)
      | Some Dir \<Rightarrow> Inl (os_error_str IsADirectoryError p)
      | Some (File c) \<Rightarrow>
          (case pil_open lib c of
             Inl msg \<Rightarrow> Inl (msg p)
           | Inr img \<Rightarrow> Inr img))"

text \<open>
  \<^verbatim>\<open>img.save(p)\<close>. Once the format is known, Pillow opens \<open>p\<close> for writing, which creates
  the file or empties the one that is there, and only then runs the encoder. When the
  encoder raises, Pillow removes the file if it did not exist before the call; a file
  that did exist stays as the encoder left it. A failing call returns its message and
  the filesystem it leaves.
\<close>

definition Image_save ::
  "('c, 'i) pil \<Rightarrow> 'c fs \<Rightarrow> 'i \<Rightarrow> path \<Rightarrow> (string \<times> 'c fs) + 'c fs" where
  "Image_save lib fs img p =
     (case pil_save lib img p of
        Refused m \<Rightarrow> Inl (m, fs)
      | Broke m c \<Rightarrow>
          (case write_file fs p c of
             Inl e \<Rightarrow> Inl (os_error_str e p, fs)
           | Inr fs' \<Rightarrow> Inl (m, if lookup fs p = None then AList.delete p fs' else fs'))
      | Saved c \<Rightarrow>
          (case write_file fs p c of
             Inl e \<Rightarrow> Inl (os_error_str e p, fs)
           | Inr fs' \<Rightarrow> Inr fs'))"

section \<open>Cleaning\<close>

text \<open>
  \<^verbatim>\<open>with Image.open(img_path) as img: img.verify()\<close>: the message of the exception
  raised, if any.
\<close>

definition verify_image :: "('c, 'i) pil \<Rightarrow> 'c fs \<Rightarrow> path \<Rightarrow> string option" where
  "verify_image lib fs p =
     (case Image_open lib fs p of
        Inl m \<Rightarrow> Some m
      | Inr img \<Rightarrow> pil_verify lib img)"

definition removing_line :: "path \<Rightarrow> string \<Rightarrow> string" where
  "removing_line img_path e =
     ''Removing corrupted or non-image file: '' @ path_str img_path @ '' ('' @ e @ '')''"

definition clean_image ::
  "('c, 'i) pil \<Rightarrow> path \<Rightarrow> string \<Rightarrow> ('c, 'g) world \<Rightarrow> ('c, 'g) world outcome" where
  "clean_image lib class_path img_name w =
     (let img_path = class_path @ [img_name]
      in case verify_image lib (files w) img_path of
           None \<Rightarrow> Done w
         | Some e \<Rightarrow>
             (let w1 = print (removing_line img_path e) w
              in case os_remove (files w1) img_path of
                   Inl err \<Rightarrow> Raised err w1
                 | Inr fs' \<Rightarrow> Done (w1\<lparr>files := fs'\<rparr>)))"

definition clean_class ::
  "('c, 'i) pil \<Rightarrow> path \<Rightarrow> string \<Rightarrow> ('c, 'g) world \<Rightarrow> ('c, 'g) world outcome" where
  "clean_class lib source_dir class_name w =
     (let class_path = source_dir @ [class_name]
      in if \<not> isdir (files w) class_path then Done w
         else case os_listdir (files w) class_path of
                Inl err \<Rightarrow> Raised err w
              | Inr imgs \<Rightarrow> for_each (clean_image lib class_path) imgs w)"

definition clean_data ::
  "('c, 'i) pil \<Rightarrow> path \<Rightarrow> ('c, 'g) world \<Rightarrow> ('c, 'g) world outcome" where
  "clean_data lib source_dir w =
     (case os_listdir (files w) source_dir of
        Inl err \<Rightarrow> Raised err w
      | Inr classes \<Rightarrow> for_each (clean_class lib source_dir) classes w)"

section \<open>Standardizing\<close>

definition error_line :: "path \<Rightarrow> string \<Rightarrow> string" where
  "error_line img_path e = ''Error processing '' @ path_str img_path @ '': '' @ e"

text \<open>
  The body of the \<^verbatim>\<open>try\<close> block: open, resize, save. A failure gives the message of the
  exception and the filesystem as the failing call left it.
\<close>

definition resize_and_save ::
  "('c, 'i) pil \<Rightarrow> nat \<times> nat \<Rightarrow> 'c fs \<Rightarrow> path \<Rightarrow> path \<Rightarrow> (string \<times> 'c fs) + 'c fs" where
  "resize_and_save lib image_size fs img_path out_path =
     (case Image_open lib fs img_path of
        Inl m \<Rightarrow> Inl (m, fs)
      | Inr img \<Rightarrow>
          (case pil_resize lib img image_size of
             Inl m \<Rightarrow> Inl (m, fs)
           | Inr img' \<Rightarrow> Image_save lib fs img' out_path))"

definition standardize_image ::
  "('c, 'i) pil \<Rightarrow> nat \<times> nat \<Rightarrow> path \<Rightarrow> path \<Rightarrow> string \<Rightarrow>
   ('c, 'g) world \<Rightarrow> ('c, 'g) world outcome" where
  "standardize_image lib image_size class_path target_class_dir img_name w =
     (let img_path = class_path @ [img_name]
      in case resize_and_save lib image_size (files w) img_path (target_class_dir @ [img_name]) of
           Inl (e, fs') \<Rightarrow> Done (print (error_line img_path e) (w\<lparr>files := fs'\<rparr>))
         | Inr fs' \<Rightarrow> Done (w\<lparr>files := fs'\<rparr>))"

definition standardize_class ::
  "('c, 'i) pil \<Rightarrow> path \<Rightarrow> path \<Rightarrow> nat \<times> nat \<Rightarrow> string \<Rightarrow>
   ('c, 'g) world \<Rightarrow> ('c, 'g) world outcome" where
  "standardize_class lib source_dir target_dir image_size class_name w =
     (let class_path = source_dir @ [class_name]
      in if \<not> isdir (files w) class_path then Done w
         else let target_class_dir = target_dir @ [class_name]
              in case os_makedirs (files w) target_class_dir of
                   Inl err \<Rightarrow> Raised err w
                 | Inr fs1 \<Rightarrow>
                     (let w1 = w\<lparr>files := fs1\<rparr>
                      in case os_listdir (files w1) class_path of
                           Inl err \<Rightarrow> Raised err w1
                         | Inr imgs \<Rightarrow>
                             for_each
                               (standardize_image lib image_size class_path target_class_dir)
                               imgs w1))"

definition standardize_images ::
  "('c, 'i) pil \<Rightarrow> path \<Rightarrow> path \<Rightarrow> nat \<times> nat \<Rightarrow>
   ('c, 'g) world \<Rightarrow> ('c, 'g) world outcome" where
  "standardize_images lib source_dir target_dir image_size w =
     (case os_listdir (files w) source_dir of
        Inl err \<Rightarrow> Raised err w
      | Inr classes \<Rightarrow>
          for_each (standardize_class lib source_dir target_dir image_size) classes w)"

definition default_image_size :: "nat \<times> nat" where
  "default_image_size = (224, 224)"

section \<open>The split function\<close>

text \<open>
  numpy's random generator is a parameter: \<open>rng_seeded s\<close> is the state of a fresh
  \<^verbatim>\<open>RandomState(s)\<close>, and \<open>rng_permutation g n\<close> is \<^verbatim>\<open>permutation(n)\<close> drawn in state
  \<open>g\<close>, with the state it leaves.
\<close>

record 'g numpy_random =
  rng_seeded :: "nat \<Rightarrow> 'g"
  rng_permutation :: "'g \<Rightarrow> nat \<Rightarrow> nat list \<times> 'g"

text \<open>
  scikit-learn's size computation for float arguments: the test size is rounded up, the
  train size is rounded down, a missing one is the complement of the other, and an
  empty train set is an error.
\<close>

definition validate_shuffle_split ::
  "nat \<Rightarrow> rat option \<Rightarrow> rat option \<Rightarrow> error + int \<times> int" where
  "validate_shuffle_split n_samples test_size0 train_size =
     (let test_size =
            (if test_size0 = None \<and> train_size = None then Some (float_lit (1 / 4))
             else test_size0)
      in if (case test_size of Some t \<Rightarrow> t \<le> 0 \<or> 1 \<le> t | None \<Rightarrow> False)
         then Inl ValueError
         else if (case train_size of Some t \<Rightarrow> t \<le> 0 \<or> 1 \<le> t | None \<Rightarrow> False)
         then Inl ValueError
         else if (case (train_size, test_size) of
                    (Some a, Some b) \<Rightarrow> 1 < fadd a b
                  | _ \<Rightarrow> False)
         then Inl ValueError
         else let n = float_of_nat n_samples;
                  (n_train, n_test) =
                    (case (train_size, test_size) of
                       (Some a, Some b) \<Rightarrow> (\<lfloor>fmul a n\<rfloor>, \<lceil>fmul b n\<rceil>)
                     | (Some a, None) \<Rightarrow>
                         (let k = \<lfloor>fmul a n\<rfloor> in (k, int n_samples - k))
                     | (None, Some b) \<Rightarrow>
                         (let k = \<lceil>fmul b n\<rceil> in (int n_samples - k, k))
                     | (None, None) \<Rightarrow> (0, 0))
              in if int n_samples < n_train + n_test then Inl ValueError
                 else if n_train = 0 then Inl ValueError
                 else Inr (n_train, n_test))"

text \<open>The same check on the integer sizes, as the shuffling iterator repeats it.\<close>

definition validate_int_sizes :: "nat \<Rightarrow> int \<Rightarrow> int \<Rightarrow> error + nat \<times> nat" where
  "validate_int_sizes n_samples n_train n_test =
     (if int n_samples \<le> n_test \<or> n_test \<le> 0 then Inl ValueError
      else if int n_samples \<le> n_train \<or> n_train \<le> 0 then Inl ValueError
      else if int n_samples < n_train + n_test then Inl ValueError
      else Inr (nat n_train, nat n_test))"

definition split_sizes :: "nat \<Rightarrow> rat option \<Rightarrow> rat option \<Rightarrow> error + nat \<times> nat" where
  "split_sizes n_samples test_size train_size =
     (case validate_shuffle_split n_samples test_size train_size of
        Inl err \<Rightarrow> Inl err
      | Inr (n_train, n_test) \<Rightarrow> validate_int_sizes n_samples n_train n_test)"

text \<open>
  \<^verbatim>\<open>train_test_split(arrays, test_size, train_size, random_state)\<close>: the first \<open>n_test\<close>
  indices of the permutation are the test part, the next \<open>n_train\<close> the train part. With
  a seed the permutation comes from a fresh generator and the global one is not touched.
\<close>

definition train_test_split ::
  "'g numpy_random \<Rightarrow> 'g \<Rightarrow> 'a list \<Rightarrow> rat option \<Rightarrow> rat option \<Rightarrow> nat option \<Rightarrow>
   (error + 'a list \<times> 'a list) \<times> 'g" where
  "train_test_split np g arrays test_size train_size random_state =
     (case split_sizes (length arrays) test_size train_size of
        Inl err \<Rightarrow> (Inl err, g)
      | Inr (n_train, n_test) \<Rightarrow>
          (let (perm, g') =
                 (case random_state of
                    None \<Rightarrow> rng_permutation np g (length arrays)
                  | Some s \<Rightarrow> (fst (rng_permutation np (rng_seeded np s) (length arrays)), g));
               ind_test = take n_test perm;
               ind_train = take n_train (drop n_test perm)
           in if \<exists>i \<in> set (ind_train @ ind_test). length arrays \<le> i
              then (Inl IndexError, g')
              else (Inr (map (nth arrays) ind_train, map (nth arrays) ind_test), g')))"

section \<open>Splitting\<close>

text \<open>The splitter that \<^verbatim>\<open>split_data\<close> calls, as a function of the global generator.\<close>

type_synonym 'g splitter =
  "'g \<Rightarrow> string list \<Rightarrow> rat option \<Rightarrow> rat option \<Rightarrow> nat option \<Rightarrow>
   (error + string list \<times> string list) \<times> 'g"

text \<open>
  \<^verbatim>\<open>(1 - train_ratio - val_ratio) / (val_ratio + (1 - train_ratio))\<close>, the test size of
  the second call.
\<close>

definition second_test_size :: "rat \<Rightarrow> rat \<Rightarrow> error + rat" where
  "second_test_size train_ratio val_ratio =
     (let num = fsub (fsub 1 train_ratio) val_ratio;
          den = fadd val_ratio (fsub 1 train_ratio)
      in if den = 0 then Inl ZeroDivisionError else Inr (fdiv num den))"

text \<open>The two calls of the split function for one class.\<close>

definition partition_images ::
  "'g splitter \<Rightarrow> rat \<Rightarrow> rat \<Rightarrow> string list \<Rightarrow> 'g \<Rightarrow>
   (error + string list \<times> string list \<times> string list) \<times> 'g" where
  "partition_images tts train_ratio val_ratio images g =
     (case tts g images None (Some train_ratio) (Some 42) of
        (Inl err, g1) \<Rightarrow> (Inl err, g1)
      | (Inr (train, temp), g1) \<Rightarrow>
          (case second_test_size train_ratio val_ratio of
             Inl err \<Rightarrow> (Inl err, g1)
           | Inr ts \<Rightarrow>
               (case tts g1 temp (Some ts) None None of
                  (Inl err, g2) \<Rightarrow> (Inl err, g2)
                | (Inr (val, test), g2) \<Rightarrow> (Inr (train, val, test), g2))))"

definition copy_image ::
  "path \<Rightarrow> path \<Rightarrow> string \<Rightarrow> string \<Rightarrow> ('c, 'g) world \<Rightarrow> ('c, 'g) world outcome" where
  "copy_image class_path dst_dir class_name img_name w =
     (case os_makedirs (files w) (dst_dir @ [class_name]) of
        Inl err \<Rightarrow> Raised err w
      | Inr fs1 \<Rightarrow>
          (case shutil_copy fs1 (class_path @ [img_name]) (dst_dir @ [class_name, img_name]) of
             Inl err \<Rightarrow> Raised err (w\<lparr>files := fs1\<rparr>)
           | Inr fs2 \<Rightarrow> Done (w\<lparr>files := fs2\<rparr>)))"

definition split_class ::
  "'g splitter \<Rightarrow> path \<Rightarrow> path \<Rightarrow> path \<Rightarrow> path \<Rightarrow> rat \<Rightarrow> rat \<Rightarrow> string \<Rightarrow>
   ('c, 'g) world \<Rightarrow> ('c, 'g) world outcome" where
  "split_class tts source_dir train_dir val_dir test_dir train_ratio val_ratio class_name w =
     (let class_path = source_dir @ [class_name]
      in if \<not> isdir (files w) class_path then Done w
         else case os_listdir (files w) class_path of
                Inl err \<Rightarrow> Raised err w
              | Inr images \<Rightarrow>
                  (case partition_images tts train_ratio val_ratio images (global_rng w) of
                     (Inl err, g) \<Rightarrow> Raised err (w\<lparr>global_rng := g\<rparr>)
                   | (Inr (train, val, test), g) \<Rightarrow>
                       and_then
                         (and_then
                            (for_each (copy_image class_path train_dir class_name) train
                               (w\<lparr>global_rng := g\<rparr>))
                            (for_each (copy_image class_path val_dir class_name) val))
                         (for_each (copy_image class_path test_dir class_name) test)))"

definition split_data ::
  "'g splitter \<Rightarrow> path \<Rightarrow> path \<Rightarrow> path \<Rightarrow> path \<Rightarrow> rat \<Rightarrow> rat \<Rightarrow>
   ('c, 'g) world \<Rightarrow> ('c, 'g) world outcome" where
  "split_data tts source_dir train_dir val_dir test_dir train_ratio val_ratio w =
     (case os_listdir (files w) source_dir of
        Inl err \<Rightarrow> Raised err w
      | Inr classes \<Rightarrow>
          for_each
            (split_class tts source_dir train_dir val_dir test_dir train_ratio val_ratio)
            classes w)"

text \<open>The default ratios \<^verbatim>\<open>train_ratio=0.7\<close> and \<^verbatim>\<open>val_ratio=0.2\<close>.\<close>

definition default_train_ratio :: rat where
  "default_train_ratio = float_lit (7 / 10)"

definition default_val_ratio :: rat where
  "default_val_ratio = float_lit (2 / 10)"

section \<open>Comparing filesystems\<close>

text \<open>
  Two filesystems are the same on the paths that satisfy \<open>P\<close> when these paths hold the
  same nodes and come in the same order in both.
\<close>

definition same_on :: "(path \<Rightarrow> bool) \<Rightarrow> 'c fs \<Rightarrow> 'c fs \<Rightarrow> bool" where
  "same_on P fs fs' \<longleftrightarrow>
     filter P (map fst fs') = filter P (map fst fs) \<and> (\<forall>q. P q \<longrightarrow> map_of fs' q = map_of fs q)"

text \<open>Neither of two directories lies in the tree below the other.\<close>

definition disjoint_trees :: "path \<Rightarrow> path \<Rightarrow> bool" where
  "disjoint_trees a b \<longleftrightarrow> \<not> prefix a b \<and> \<not> prefix b a"

text \<open>
  Creating the directory \<open>d\<close> and writing below it changes no path of \<open>P\<close>: the paths
  of \<open>P\<close> on the way down to \<open>d\<close> exist already, and none lies strictly below \<open>d\<close>.
\<close>

definition untouched_by :: "(path \<Rightarrow> bool) \<Rightarrow> 'c fs \<Rightarrow> path \<Rightarrow> bool" where
  "untouched_by P fs d \<longleftrightarrow>
     (\<forall>q. P q \<longrightarrow> (prefix q d \<longrightarrow> lookup fs q \<noteq> None) \<and> \<not> strict_prefix d q)"


text \<open>
  The standardizer writes only files directly in the directory \<open>d\<close>, and never onto a
  directory: making \<open>d\<close> and writing into it changes no path of \<open>P\<close> when the paths of
  \<open>P\<close> on the way down to \<open>d\<close> exist already and those directly in \<open>d\<close> are directories.
\<close>

definition unwritten_by :: "(path \<Rightarrow> bool) \<Rightarrow> 'c fs \<Rightarrow> path \<Rightarrow> bool" where
  "unwritten_by P fs d \<longleftrightarrow>
     (\<forall>q. P q \<longrightarrow> (prefix q d \<longrightarrow> lookup fs q \<noteq> None) \<and>
                  (child_of d q \<longrightarrow> lookup fs q = Some Dir))"


text \<open>
  What the standardizer relies on from the image library: \<^verbatim>\<open>resize\<close> returns an image of
  the size asked for, and what \<^verbatim>\<open>save\<close> writes decodes to an image of the size saved.
\<close>

definition pil_contract :: "('c, 'i) pil \<Rightarrow> nat \<times> nat \<Rightarrow> bool" where
  "pil_contract lib image_size \<longleftrightarrow>
     (\<forall>img img'. pil_resize lib img image_size = Inr img' \<longrightarrow> pil_size lib img' = image_size) \<and>
     (\<forall>img p out. pil_save lib img p = Saved out \<longrightarrow>
        (\<exists>k. pil_open lib out = Inr k \<and> pil_size lib k = pil_size lib img))"

text \<open>What is assumed of numpy's generator: \<^verbatim>\<open>permutation(n)\<close> permutes \<open>0, ..., n - 1\<close>.\<close>

definition rng_contract :: "'g numpy_random \<Rightarrow> bool" where
  "rng_contract np \<longleftrightarrow> (\<forall>g n. mset (fst (rng_permutation np g n)) = mset [0..<n])"

text \<open>
  The source root and the three target roots lie in four trees of which none contains
  another, as \<^verbatim>\<open>data/processed\<close>, \<^verbatim>\<open>data/train\<close>, \<^verbatim>\<open>data/val\<close> and \<^verbatim>\<open>data/test\<close> do.
\<close>

definition separate_roots :: "path \<Rightarrow> path \<Rightarrow> path \<Rightarrow> path \<Rightarrow> bool" where
  "separate_roots source_dir train_dir val_dir test_dir \<longleftrightarrow>
     disjoint_trees source_dir train_dir \<and> disjoint_trees source_dir val_dir \<and>
     disjoint_trees source_dir test_dir \<and> disjoint_trees train_dir val_dir \<and>
     disjoint_trees train_dir test_dir \<and> disjoint_trees val_dir test_dir"

text \<open>
  Between the filesystems \<open>fs\<close> and \<open>fs'\<close> the files \<open>names\<close> of the directory \<open>cp\<close> were
  copied into the directory \<open>d\<close>, and nothing else happened to \<open>d\<close> and its entries: \<open>d\<close>
  is a directory afterwards if it was one or a file was copied, an entry of \<open>d\<close> that was
  copied holds the content of the file of that name in \<open>cp\<close> (unless the entry was a
  directory), and every other entry is as it was.
\<close>

definition copied_into :: "'c fs \<Rightarrow> 'c fs \<Rightarrow> path \<Rightarrow> path \<Rightarrow> string list \<Rightarrow> bool" where
  "copied_into fs fs' cp d names \<longleftrightarrow>
     (isdir fs' d \<longleftrightarrow> isdir fs d \<or> names \<noteq> []) \<and>
     (\<forall>y. lookup fs' (d @ [y]) =
            (if y \<in> set names \<and> \<not> isdir fs (d @ [y]) then lookup fs (cp @ [y])
             else lookup fs (d @ [y])))"

text \<open>The filesystem that a call of \<open>resize_and_save\<close> leaves, whether it failed or not.\<close>

definition fs_after :: "(string \<times> 'c fs) + 'c fs \<Rightarrow> 'c fs" where
  "fs_after r = (case r of Inl (m, fs) \<Rightarrow> fs | Inr fs \<Rightarrow> fs)"

text \<open>
  Every one of the files \<open>names\<close> of the directory \<open>cp\<close> is a file that is still in
  \<open>cp\<close> with its content in \<open>fs'\<close>, and \<open>fs'\<close> holds a copy of it under the same name in
  the directory \<open>d\<close> (unless \<open>fs\<close> has a directory of that name there, which then
  receives the copy).
\<close>

definition each_copied :: "'c fs \<Rightarrow> 'c fs \<Rightarrow> path \<Rightarrow> path \<Rightarrow> string list \<Rightarrow> bool" where
  "each_copied fs fs' cp d names \<longleftrightarrow>
     (\<forall>y\<in>set names. \<exists>x. lookup fs (cp @ [y]) = Some (File x) \<and>
        lookup fs' (cp @ [y]) = Some (File x) \<and> isdir fs' d \<and>
        (\<not> isdir fs (d @ [y]) \<longrightarrow> lookup fs' (d @ [y]) = Some (File x)))"

section \<open>Example inputs\<close>

text \<open>A generator whose permutation is always the identity.\<close>

definition identity_rng :: "unit numpy_random" where
  "identity_rng = \<lparr>rng_seeded = (\<lambda>s. ()), rng_permutation = (\<lambda>g n. ([0..<n], g))\<rparr>"

definition two_class_world :: "(unit, unit) world" where
  "two_class_world =
     \<lparr>files =
        [([''in''], Dir),
         ([''in'', ''cat''], Dir),
         ([''in'', ''cat'', ''1.jpg''], File ()),
         ([''in'', ''cat'', ''2.jpg''], File ()),
         ([''in'', ''cat'', ''3.jpg''], File ()),
         ([''in'', ''cat'', ''4.jpg''], File ()),
         ([''in'', ''fox''], Dir),
         ([''in'', ''fox'', ''a.jpg''], File ()),
         ([''in'', ''owl''], Dir),
         ([''in'', ''owl'', ''5.jpg''], File ()),
         ([''in'', ''owl'', ''6.jpg''], File ()),
         ([''in'', ''owl'', ''7.jpg''], File ()),
         ([''in'', ''owl'', ''8.jpg''], File ())],
      stdout = [], global_rng = ()\<rparr>"

definition after_cat_world :: "(unit, unit) world" where
  "after_cat_world =
     \<lparr>files = files two_class_world @
        [([''tr''], Dir), ([''tr'', ''cat''], Dir),
         ([''tr'', ''cat'', ''3.jpg''], File ()),
         ([''tr'', ''cat'', ''4.jpg''], File ()),
         ([''va''], Dir), ([''va'', ''cat''], Dir),
         ([''va'', ''cat'', ''2.jpg''], File ()),
         ([''te''], Dir), ([''te'', ''cat''], Dir),
         ([''te'', ''cat'', ''1.jpg''], File ())],
      stdout = [], global_rng = ()\<rparr>"

text \<open>
  A toy image library. A file holding two numbers is an RGB image of that width and
  height; a third number 1 makes it an image with an alpha channel, and a third number
  2 an image whose header is whole and whose pixel data is cut short; any other content
  does not decode. An image is its width, height and kind. Resizing needs the pixel
  data. Nothing can be saved under the name \<^verbatim>\<open>bad.xyz\<close>, for which no format is known,
  and an image with an alpha channel cannot be encoded under a name ending in
  \<^verbatim>\<open>.jpg\<close>: the encoder raises before it has written anything.
\<close>

definition toy_pil :: "(nat list, nat \<times> nat \<times> nat) pil" where
  "toy_pil =
     \<lparr>pil_open = (\<lambda>c. case c of
                     [w, h] \<Rightarrow> Inr (w, h, 0)
                   | [w, h, k] \<Rightarrow> Inr (w, h, k)
                   | _ \<Rightarrow> Inl (\<lambda>p. ''cannot identify image file '' @ quoted (path_str p))),
      pil_verify = (\<lambda>img. None),
      pil_resize = (\<lambda>img sz. if snd (snd img) = 2 then Inl ''image file is truncated''
                              else Inr (fst sz, snd sz, snd (snd img))),
      pil_save = (\<lambda>img p.
                    if p \<noteq> [] \<and> last p = ''bad.xyz'' then Refused ''unknown file extension: .xyz''
                    else if snd (snd img) = 1 \<and> p \<noteq> [] \<and> drop (length (last p) - 4) (last p) = ''.jpg''
                    then Broke ''cannot write mode RGBA as JPEG'' []
                    else Saved (if snd (snd img) = 0 then [fst img, fst (snd img)]
                                else [fst img, fst (snd img), snd (snd img)])),
      pil_size = (\<lambda>img. (fst img, fst (snd img)))\<rparr>"

definition raw_world :: "(nat list, unit) world" where
  "raw_world =
     \<lparr>files =
        [([''data''], Dir),
         ([''data'', ''raw''], Dir),
         ([''data'', ''raw'', ''fox''], Dir),
         ([''data'', ''raw'', ''fox'', ''a.jpg''], File [10, 20]),
         ([''data'', ''raw'', ''fox'', ''b.jpg''], File []),
         ([''data'', ''raw'', ''fox'', ''c.png''], File [5, 5]),
         ([''data'', ''raw'', ''README''], File [])],
      stdout = [], global_rng = ()\<rparr>"

text \<open>The file names \<^verbatim>\<open>00.jpg\<close> to \<^verbatim>\<open>99.jpg\<close> of a class with a hundred images.\<close>

definition hundred_images :: "string list" where
  "hundred_images =
     map (\<lambda>i. [char_of (48 + i div 10), char_of (48 + i mod 10)] @ ''.jpg'') [0..<100]"

text \<open>The files of \<open>raw_world\<close> once the target directory of the class \<^verbatim>\<open>fox\<close> is made.\<close>

definition raw_with_target :: "nat list fs" where
  "raw_with_target =
     files raw_world @ [([''data'', ''processed''], Dir), ([''data'', ''processed'', ''fox''], Dir)]"

text \<open>
  A generator whose state is a number: the permutation is the identity in an even
  state and the reversal in an odd one, and drawing it moves to the next state.
\<close>

definition parity_rng :: "nat numpy_random" where
  "parity_rng =
     \<lparr>rng_seeded = (\<lambda>s. s),
      rng_permutation = (\<lambda>g n. (if even g then [0..<n] else rev [0..<n], Suc g))\<rparr>"

text \<open>
  A standardized tree with one class of four images, each with a content of its own, and
  the generator in state \<open>g\<close>.
\<close>

definition cat_world :: "nat \<Rightarrow> (nat, nat) world" where
  "cat_world g =
     \<lparr>files =
        [([''in''], Dir),
         ([''in'', ''cat''], Dir),
         ([''in'', ''cat'', ''1.jpg''], File 11),
         ([''in'', ''cat'', ''2.jpg''], File 12),
         ([''in'', ''cat'', ''3.jpg''], File 13),
         ([''in'', ''cat'', ''4.jpg''], File 14)],
      stdout = [], global_rng = g\<rparr>"

text \<open>A raw tree whose only class holds two files that do not decode.\<close>

definition owl_world :: "(nat list, unit) world" where
  "owl_world =
     \<lparr>files =
        [([''data''], Dir),
         ([''data'', ''raw''], Dir),
         ([''data'', ''raw'', ''owl''], Dir),
         ([''data'', ''raw'', ''owl'', ''x.jpg''], File []),
         ([''data'', ''raw'', ''owl'', ''y.jpg''], File [7])],
      stdout = [], global_rng = ()\<rparr>"

text \<open>
  A raw tree with one image that has an alpha channel, and a target tree that already
  holds an output under the image's name.
\<close>

definition stale_world :: "(nat list, unit) world" where
  "stale_world =
     \<lparr>files =
        [([''data''], Dir),
         ([''data'', ''raw''], Dir),
         ([''data'', ''raw'', ''fox''], Dir),
         ([''data'', ''raw'', ''fox'', ''p.jpg''], File [8, 6, 1]),
         ([''data'', ''processed''], Dir),
         ([''data'', ''processed'', ''fox''], Dir),
         ([''data'', ''processed'', ''fox'', ''p.jpg''], File [224, 224])],
      stdout = [], global_rng = ()\<rparr>"



text \<open>
  The standardized tree of a class with two images, \<^verbatim>\<open>data/processed/fox\<close> with
  \<^verbatim>\<open>a.jpg\<close> and \<^verbatim>\<open>c.png\<close>.
\<close>

definition two_image_world :: "(nat, nat) world" where
  "two_image_world =
     \<lparr>files =
        [([''data''], Dir),
         ([''data'', ''processed''], Dir),
         ([''data'', ''processed'', ''fox''], Dir),
         ([''data'', ''processed'', ''fox'', ''a.jpg''], File 21),
         ([''data'', ''processed'', ''fox'', ''c.png''], File 22)],
      stdout = [], global_rng = 0\<rparr>"

text \<open>The tree that the splitter leaves when it is run on \<open>cat_world 0\<close>.\<close>

definition cat_split_world :: "(nat, nat) world" where
  "cat_split_world =
     \<lparr>files = files (cat_world 0) @
        [([''tr''], Dir), ([''tr'', ''cat''], Dir),
         ([''tr'', ''cat'', ''3.jpg''], File 13),
         ([''tr'', ''cat'', ''4.jpg''], File 14),
         ([''va''], Dir), ([''va'', ''cat''], Dir),
         ([''va'', ''cat'', ''2.jpg''], File 12),
         ([''te''], Dir), ([''te'', ''cat''], Dir),
         ([''te'', ''cat'', ''1.jpg''], File 11)],
      stdout = [], global_rng = 1\<rparr>"

section \<open>Filesystem operations\<close>


lemma lookup_update:
  "lookup (AList.update p n fs) q =
     (if q = [] then Some Dir else if q = p then Some n else lookup fs q)"
  by (simp add: lookup_def update_conv')

lemma lookup_delete:
  "lookup (AList.delete p fs) q =
     (if q = [] then Some Dir else if q = p then None else lookup fs q)"
  by (simp add: lookup_def delete_conv')

lemma child_of_iff: "child_of p q \<longleftrightarrow> (\<exists>n. q = p @ [n])"
  by (cases q rule: rev_cases) (auto simp: child_of_def)

lemma in_listdir: "n \<in> set (listdir fs p) \<longleftrightarrow> lookup fs (p @ [n]) \<noteq> None"
proof -
  have "n \<in> set (listdir fs p) \<longleftrightarrow> p @ [n] \<in> fst ` set fs"
    by (force simp: listdir_def child_of_iff)
  then show ?thesis
    by (simp add: lookup_def map_of_eq_None_iff)
qed

lemma distinct_listdir: "distinct (listdir fs p)"
  by (simp add: listdir_def)

lemma isdir_in_listdir: "isdir fs (p @ [n]) \<Longrightarrow> n \<in> set (listdir fs p)"
  by (simp add: in_listdir isdir_def)

section \<open>Frames\<close>

lemma same_on_refl: "same_on P fs fs"
  by (simp add: same_on_def)

lemma same_on_trans: "same_on P fs fs1 \<Longrightarrow> same_on P fs1 fs2 \<Longrightarrow> same_on P fs fs2"
  by (simp add: same_on_def)

lemma filter_conj_imp: "(\<And>x. P x \<Longrightarrow> Q x) \<Longrightarrow> filter (\<lambda>x. Q x \<and> P x) xs = filter P xs"
  by (rule filter_cong) auto

lemma same_on_mono:
  assumes "same_on Q fs fs'" and "\<And>q. P q \<Longrightarrow> Q q"
  shows "same_on P fs fs'"
proof -
  have "filter P (filter Q (map fst fs')) = filter P (filter Q (map fst fs))"
    using assms(1) by (simp add: same_on_def)
  then have "filter P (map fst fs') = filter P (map fst fs)"
    using assms(2) by (simp add: filter_conj_imp)
  with assms show ?thesis
    by (simp add: same_on_def)
qed

lemma same_on_update: "\<not> P p \<Longrightarrow> same_on P fs (AList.update p n fs)"
  by (auto simp: same_on_def update_keys update_conv')

lemma filter_removeAll_other: "\<not> P x \<Longrightarrow> filter P (removeAll x xs) = filter P xs"
  by (induction xs) auto

lemma same_on_delete: "\<not> P p \<Longrightarrow> same_on P fs (AList.delete p fs)"
  by (auto simp: same_on_def delete_keys delete_conv' filter_removeAll_other)

lemma same_on_lookup: "same_on P fs fs' \<Longrightarrow> P q \<Longrightarrow> lookup fs' q = lookup fs q"
  by (simp add: same_on_def lookup_def)

lemma same_on_isdir: "same_on P fs fs' \<Longrightarrow> P q \<Longrightarrow> isdir fs' q = isdir fs q"
  by (simp add: isdir_def same_on_lookup)

lemma same_on_listdir:
  assumes "same_on P fs fs'" and "\<And>n. P (p @ [n])"
  shows "listdir fs' p = listdir fs p"
proof -
  have "filter (child_of p) (filter P (map fst fs')) = filter (child_of p) (filter P (map fst fs))"
    using assms(1) by (simp add: same_on_def)
  moreover have "\<And>q. child_of p q \<Longrightarrow> P q"
    using assms(2) by (auto simp: child_of_iff)
  ultimately have "filter (child_of p) (map fst fs') = filter (child_of p) (map fst fs)"
    by (simp add: filter_conj_imp [of "child_of p" P])
  then show ?thesis
    by (simp add: listdir_def)
qed

lemma same_on_os_listdir:
  "same_on P fs fs' \<Longrightarrow> P p \<Longrightarrow> (\<And>n. P (p @ [n])) \<Longrightarrow> os_listdir fs' p = os_listdir fs p"
  by (simp add: os_listdir_def same_on_lookup same_on_listdir split: option.splits node.splits)

lemma makedirs_from_same_on:
  assumes "makedirs_from fs pre xs = Inr fs'"
    and "\<And>q. P q \<Longrightarrow> strict_prefix pre q \<Longrightarrow> prefix q (pre @ xs) \<Longrightarrow> lookup fs q \<noteq> None"
  shows "same_on P fs fs'"
  using assms
proof (induction xs arbitrary: fs pre)
  case Nil
  then show ?case by (simp add: same_on_refl)
next
  case (Cons x xs)
  let ?p = "pre @ [x]"
  have range: "strict_prefix ?p q \<Longrightarrow> prefix q (?p @ xs) \<Longrightarrow>
     strict_prefix pre q \<and> prefix q (pre @ x # xs)" for q
    by (auto simp: strict_prefix_def prefix_def)
  show ?case
  proof (cases "lookup fs ?p")
    case None
    with Cons.prems(1) have run: "makedirs_from (AList.update ?p Dir fs) ?p xs = Inr fs'"
      by simp
    have "\<not> P ?p"
      using Cons.prems(2) [of ?p] None by (auto simp: strict_prefix_def)
    then have step: "same_on P fs (AList.update ?p Dir fs)"
      by (rule same_on_update)
    have "same_on P (AList.update ?p Dir fs) fs'"
    proof (rule Cons.IH [OF run])
      fix q assume "P q" "strict_prefix ?p q" "prefix q (?p @ xs)"
      with range [of q] Cons.prems(2) [of q] have "lookup fs q \<noteq> None" by simp
      then show "lookup (AList.update ?p Dir fs) q \<noteq> None"
        by (simp add: lookup_update)
    qed
    with step show ?thesis by (rule same_on_trans)
  next
    case (Some nd)
    show ?thesis
    proof (cases nd)
      case Dir
      with Some Cons.prems(1) have run: "makedirs_from fs ?p xs = Inr fs'" by simp
      show ?thesis
      proof (rule Cons.IH [OF run])
        fix q assume "P q" "strict_prefix ?p q" "prefix q (?p @ xs)"
        with range [of q] Cons.prems(2) [of q] show "lookup fs q \<noteq> None" by simp
      qed
    next
      case (File c)
      with Some Cons.prems(1) show ?thesis by simp
    qed
  qed
qed

lemma makedirs_from_lookup:
  assumes "makedirs_from fs pre xs = Inr fs'"
  shows "lookup fs' q =
     (if strict_prefix pre q \<and> prefix q (pre @ xs) then Some Dir else lookup fs q)"
  using assms
proof (induction xs arbitrary: fs pre)
  case Nil
  then show ?case by (auto simp: strict_prefix_def)
next
  case (Cons x xs)
  let ?p = "pre @ [x]"
  have range: "strict_prefix pre q \<and> prefix q (pre @ x # xs) \<longleftrightarrow>
     q = ?p \<or> (strict_prefix ?p q \<and> prefix q (?p @ xs))"
    by (auto simp: strict_prefix_def prefix_def Cons_eq_append_conv append_eq_append_conv2
        append_eq_Cons_conv)
  show ?case
  proof (cases "lookup fs ?p")
    case None
    with Cons.prems have run: "makedirs_from (AList.update ?p Dir fs) ?p xs = Inr fs'"
      by simp
    show ?thesis
      unfolding Cons.IH [OF run] range
      by (auto simp: lookup_def update_conv')
  next
    case (Some nd)
    show ?thesis
    proof (cases nd)
      case Dir
      with Some Cons.prems have run: "makedirs_from fs ?p xs = Inr fs'" by simp
      show ?thesis
        unfolding Cons.IH [OF run] range using Some Dir by auto
    next
      case (File c)
      with Some Cons.prems show ?thesis by simp
    qed
  qed
qed

lemma os_makedirs_lookup:
  "os_makedirs fs p = Inr fs' \<Longrightarrow>
   lookup fs' q = (if prefix q p then Some Dir else lookup fs q)"
  using makedirs_from_lookup [of fs "[]" p fs' q]
  by (auto simp: os_makedirs_def strict_prefix_def lookup_def)

lemma os_makedirs_isdir: "os_makedirs fs p = Inr fs' \<Longrightarrow> isdir fs' p"
  by (simp add: isdir_def os_makedirs_lookup)

lemma os_makedirs_same_on:
  assumes "os_makedirs fs p = Inr fs'"
    and "\<And>q. P q \<Longrightarrow> prefix q p \<Longrightarrow> lookup fs q \<noteq> None"
  shows "same_on P fs fs'"
  using assms makedirs_from_same_on [of fs "[]" p fs' P]
  by (simp add: os_makedirs_def)

lemma os_makedirs_keeps:
  assumes "os_makedirs fs p = Inr fs'" and "lookup fs q = Some nd"
  shows "lookup fs' q = Some nd"
proof -
  have "same_on (\<lambda>r. r = q) fs fs'"
    using assms by (intro os_makedirs_same_on) auto
  with assms(2) show ?thesis
    by (simp add: same_on_lookup)
qed

lemma write_file_result:
  "write_file fs p c = Inr fs' \<Longrightarrow> fs' = AList.update p (File c) fs \<and> p \<noteq> []"
  by (auto simp: write_file_def split: if_splits option.splits node.splits)

lemma write_file_lookup:
  "write_file fs p c = Inr fs' \<Longrightarrow>
   lookup fs' q = (if q = p then Some (File c) else lookup fs q)"
  by (auto dest!: write_file_result simp: lookup_def update_conv')

lemma write_file_same_on: "write_file fs p c = Inr fs' \<Longrightarrow> \<not> P p \<Longrightarrow> same_on P fs fs'"
  by (auto dest!: write_file_result simp: same_on_update)

lemma write_file_not_dir: "write_file fs p c = Inr fs' \<Longrightarrow> lookup fs p \<noteq> Some Dir"
  by (auto simp: write_file_def lookup_def split: if_splits option.splits node.splits)

lemma write_file_errors:
  "write_file fs p c = Inl e \<Longrightarrow>
     e = FileNotFoundError \<or> e = NotADirectoryError \<or> e = IsADirectoryError"
  by (auto simp: write_file_def split: if_splits option.splits node.splits)

section \<open>Loops\<close>

lemma for_each_append:
  "for_each body (xs @ ys) w = and_then (for_each body xs w) (for_each body ys)"
  by (induction xs arbitrary: w) (auto simp: and_then_def split: outcome.splits)

lemma for_each_inv:
  assumes "I w" and "\<And>x v. x \<in> set xs \<Longrightarrow> I v \<Longrightarrow> I (world_of (body x v))"
  shows "I (world_of (for_each body xs w))"
  using assms
proof (induction xs arbitrary: w)
  case Nil
  then show ?case by simp
next
  case (Cons x xs)
  from Cons.prems have step: "I (world_of (body x w))" by simp
  show ?case
  proof (cases "body x w")
    case (Done w')
    with step Cons.prems(2) show ?thesis
      by (simp add: Cons.IH)
  next
    case (Raised e w')
    with step show ?thesis by simp
  qed
qed

lemma and_then_inv:
  assumes "I (world_of r)" and "\<And>v. I v \<Longrightarrow> I (world_of (f v))"
  shows "I (world_of (and_then r f))"
  using assms by (cases r) (simp_all add: and_then_def)

lemma is_Done_world_of: "is_Done r \<Longrightarrow> r = Done (world_of r)"
  by (cases r) simp_all

lemma for_each_skip:
  assumes "I w" and "\<And>y v. I v \<Longrightarrow> I (world_of (body y v))" and "\<And>v. I v \<Longrightarrow> body x v = Done v"
  shows "for_each body xs w = for_each body (removeAll x xs) w"
  using assms(1)
proof (induction xs arbitrary: w)
  case Nil
  then show ?case by simp
next
  case (Cons y ys)
  show ?case
  proof (cases "y = x")
    case True
    with Cons assms(3) show ?thesis by simp
  next
    case False
    from Cons.prems assms(2) have "I (world_of (body y w))" by simp
    with Cons.IH False show ?thesis
      by (cases "body y w") simp_all
  qed
qed

lemma for_each_Done_inv:
  assumes "for_each body xs w = Done w'" and "I w"
    and "\<And>y v v'. y \<in> set xs \<Longrightarrow> I v \<Longrightarrow> body y v = Done v' \<Longrightarrow> I v'"
  shows "I w'"
  using assms
proof (induction xs arbitrary: w)
  case Nil
  then show ?case by simp
next
  case (Cons y ys)
  from Cons.prems(1) obtain v where y: "body y w = Done v" and rest: "for_each body ys v = Done w'"
    by (auto split: outcome.splits)
  from Cons.prems(2) y have "I v" by (intro Cons.prems(3) [of y w v]) simp_all
  with rest show ?case
  proof (rule Cons.IH)
    fix z u u' assume "z \<in> set ys" "I u" "body z u = Done u'"
    then show "I u'" by (intro Cons.prems(3) [of z u u']) simp_all
  qed
qed

lemma for_each_Done_split:
  assumes "for_each body (pre @ x # post) w = Done w'"
  shows "\<exists>v1 v2. for_each body pre w = Done v1 \<and> body x v1 = Done v2 \<and>
           for_each body post v2 = Done w'"
  using assms
  by (auto simp: for_each_append and_then_def split: outcome.splits)

lemma for_each_establish:
  assumes run: "for_each body xs w = Done w'" and x: "x \<in> set xs" and d: "distinct xs"
    and R0: "R w"
    and Rstep: "\<And>y v v'. y \<noteq> x \<Longrightarrow> R v \<Longrightarrow> body y v = Done v' \<Longrightarrow> R v'"
    and est: "\<And>v v'. R v \<Longrightarrow> body x v = Done v' \<Longrightarrow> Q v'"
    and keep: "\<And>y v v'. y \<noteq> x \<Longrightarrow> Q v \<Longrightarrow> body y v = Done v' \<Longrightarrow> Q v'"
  shows "Q w'"
proof -
  from x obtain pre post where xs: "xs = pre @ x # post"
    by (auto simp: in_set_conv_decomp)
  with d have npre: "x \<notin> set pre" and npost: "x \<notin> set post" by auto
  from run xs for_each_Done_split [of body pre x post w w'] obtain v1 v2 where
    a: "for_each body pre w = Done v1" and b: "body x v1 = Done v2"
    and c: "for_each body post v2 = Done w'" by auto
  have "R v1"
    using a R0
  proof (rule for_each_Done_inv)
    fix y v v' assume "y \<in> set pre" "R v" "body y v = Done v'"
    with npre show "R v'" by (intro Rstep [of y v v']) auto
  qed
  with b have "Q v2" by (intro est)
  with c show "Q w'"
  proof (rule for_each_Done_inv)
    fix y v v' assume "y \<in> set post" "Q v" "body y v = Done v'"
    with npost show "Q v'" by (intro keep [of y v v']) auto
  qed
qed

section \<open>What a pass leaves alone\<close>

lemma untouched_by_same_on:
  "same_on P fs fs' \<Longrightarrow> untouched_by P fs d \<Longrightarrow> untouched_by P fs' d"
  by (simp add: untouched_by_def same_on_lookup)

lemma os_makedirs_untouched:
  "os_makedirs fs d = Inr fs' \<Longrightarrow> untouched_by P fs d \<Longrightarrow> same_on P fs fs'"
  by (rule os_makedirs_same_on) (auto simp: untouched_by_def)

lemma write_file_untouched:
  "write_file fs p c = Inr fs' \<Longrightarrow> strict_prefix d p \<Longrightarrow> untouched_by P fs d \<Longrightarrow>
   same_on P fs fs'"
  by (rule write_file_same_on) (auto simp: untouched_by_def)

lemma disjoint_trees_under:
  "disjoint_trees a b \<Longrightarrow> prefix a q \<Longrightarrow> \<not> prefix b q \<and> \<not> prefix q b"
  unfolding disjoint_trees_def
  by (meson prefix_order.order_trans prefix_same_cases)

lemma disjoint_trees_untouched:
  assumes "disjoint_trees a b"
  shows "untouched_by (prefix a) fs (b @ [c])"
  unfolding untouched_by_def
proof (intro allI impI conjI)
  fix q assume q: "prefix a q"
  from disjoint_trees_under [OF assms q] show "\<not> strict_prefix (b @ [c]) q"
    by (auto simp: strict_prefix_def dest: append_prefixD)
  assume "prefix q (b @ [c])"
  with disjoint_trees_under [OF assms q] q assms show "lookup fs q \<noteq> None"
    by (auto simp: prefix_snoc disjoint_trees_def)
qed

lemma shutil_copy_written:
  assumes "shutil_copy fs src dst = Inr fs'"
  shows "\<exists>c p. (p = dst \<and> \<not> isdir fs dst \<or> p = dst @ [last src] \<and> isdir fs dst) \<and>
           p \<noteq> src \<and> lookup fs src = Some (File c) \<and> write_file fs p c = Inr fs'"
proof -
  have "lookup fs [] = Some Dir" by (simp add: lookup_def)
  with assms have "src \<noteq> []"
    by (auto simp: shutil_copy_def Let_def split: option.splits node.splits)
  with assms show ?thesis
    by (auto simp: shutil_copy_def Let_def split: option.splits node.splits if_splits)
qed

lemma copy_image_frame:
  assumes "untouched_by P (files (w :: ('c, 'g) world)) (dst_dir @ [c])"
  shows "same_on P (files w) (files (world_of (copy_image class_path dst_dir c n w)))"
proof (cases "os_makedirs (files w) (dst_dir @ [c])")
  case (Inl e)
  then show ?thesis by (simp add: copy_image_def same_on_refl)
next
  case (Inr fs1)
  from Inr assms have s1: "same_on P (files w) fs1"
    by (rule os_makedirs_untouched)
  show ?thesis
  proof (cases "shutil_copy fs1 (class_path @ [n]) (dst_dir @ [c, n])")
    case (Inl e)
    with Inr s1 show ?thesis by (simp add: copy_image_def)
  next
    case cp: (Inr fs2)
    from shutil_copy_written [OF cp] obtain x p where
      p: "p = dst_dir @ [c, n] \<or> p = dst_dir @ [c, n] @ [last (class_path @ [n])]"
      and w: "write_file fs1 p x = Inr fs2" by auto
    from p have "strict_prefix (dst_dir @ [c]) p"
      by (auto simp: strict_prefix_def)
    with w have "same_on P fs1 fs2"
      using untouched_by_same_on [OF s1 assms] by (rule write_file_untouched)
    with s1 have "same_on P (files w) fs2" by (rule same_on_trans)
    with Inr cp show ?thesis by (simp add: copy_image_def)
  qed
qed

lemma copy_loop_frame:
  assumes "untouched_by P fs0 (dst_dir @ [c])"
    and "same_on P fs0 (files (w :: ('c, 'g) world))"
  shows "same_on P fs0 (files (world_of (for_each (copy_image class_path dst_dir c) ns w)))"
proof (rule for_each_inv [where I = "\<lambda>v :: ('c, 'g) world. same_on P fs0 (files v)"])
  show "same_on P fs0 (files w)" by fact
next
  fix n and v :: "('c, 'g) world" assume v: "same_on P fs0 (files v)"
  have "same_on P (files v) (files (world_of (copy_image class_path dst_dir c n v)))"
    using untouched_by_same_on [OF v assms(1)] by (rule copy_image_frame)
  with v show "same_on P fs0 (files (world_of (copy_image class_path dst_dir c n v)))"
    by (rule same_on_trans)
qed

lemma split_class_frame:
  assumes "untouched_by P (files (w :: ('c, 'g) world)) (train_dir @ [c])"
    and "untouched_by P (files w) (val_dir @ [c])"
    and "untouched_by P (files w) (test_dir @ [c])"
  shows "same_on P (files w)
           (files (world_of (split_class tts source_dir train_dir val_dir test_dir
              train_ratio val_ratio c w)))"
proof -
  let ?cp = "source_dir @ [c]"
  have loops: "same_on P (files w)
      (files (world_of (and_then (and_then
          (for_each (copy_image ?cp train_dir c) train (w\<lparr>global_rng := g\<rparr>))
          (for_each (copy_image ?cp val_dir c) val))
          (for_each (copy_image ?cp test_dir c) test))))" for train val test g
  proof (intro and_then_inv [where I = "\<lambda>v :: ('c, 'g) world. same_on P (files w) (files v)"])
    show "same_on P (files w)
       (files (world_of (for_each (copy_image ?cp train_dir c) train (w\<lparr>global_rng := g\<rparr>))))"
    proof (rule copy_loop_frame [OF assms(1)])
      show "same_on P (files w) (files (w\<lparr>global_rng := g\<rparr>))"
        by (simp add: same_on_refl)
    qed
  next
    fix v :: "('c, 'g) world" assume "same_on P (files w) (files v)"
    with assms(2)
    show "same_on P (files w) (files (world_of (for_each (copy_image ?cp val_dir c) val v)))"
      by (rule copy_loop_frame)
  next
    fix v :: "('c, 'g) world" assume "same_on P (files w) (files v)"
    with assms(3)
    show "same_on P (files w) (files (world_of (for_each (copy_image ?cp test_dir c) test v)))"
      by (rule copy_loop_frame)
  qed
  show ?thesis
    unfolding split_class_def Let_def
    by (auto simp: same_on_refl loops split: sum.splits prod.splits)
qed

lemma split_loop_frame:
  assumes "\<And>c. c \<in> set classes \<Longrightarrow> untouched_by P fs0 (train_dir @ [c])"
    and "\<And>c. c \<in> set classes \<Longrightarrow> untouched_by P fs0 (val_dir @ [c])"
    and "\<And>c. c \<in> set classes \<Longrightarrow> untouched_by P fs0 (test_dir @ [c])"
    and "same_on P fs0 (files (w :: ('c, 'g) world))"
  shows "same_on P fs0 (files (world_of (for_each
      (split_class tts source_dir train_dir val_dir test_dir train_ratio val_ratio) classes w)))"
proof (rule for_each_inv [where I = "\<lambda>v :: ('c, 'g) world. same_on P fs0 (files v)"])
  show "same_on P fs0 (files w)" by fact
next
  fix c and v :: "('c, 'g) world" assume c: "c \<in> set classes" and v: "same_on P fs0 (files v)"
  have "same_on P (files v) (files (world_of
      (split_class tts source_dir train_dir val_dir test_dir train_ratio val_ratio c v)))"
    using assms(1-3) [OF c] by (intro split_class_frame untouched_by_same_on [OF v])
  with v show "same_on P fs0 (files (world_of
      (split_class tts source_dir train_dir val_dir test_dir train_ratio val_ratio c v)))"
    by (rule same_on_trans)
qed

lemma split_data_frame:
  assumes "\<And>c. untouched_by P (files (w :: ('c, 'g) world)) (train_dir @ [c])"
    and "\<And>c. untouched_by P (files w) (val_dir @ [c])"
    and "\<And>c. untouched_by P (files w) (test_dir @ [c])"
  shows "same_on P (files w)
           (files (world_of (split_data tts source_dir train_dir val_dir test_dir
              train_ratio val_ratio w)))"
proof (cases "os_listdir (files w) source_dir")
  case (Inl e)
  then show ?thesis by (simp add: split_data_def same_on_refl)
next
  case (Inr classes)
  have "same_on P (files w) (files (world_of (for_each
      (split_class tts source_dir train_dir val_dir test_dir train_ratio val_ratio) classes w)))"
    using assms by (intro split_loop_frame same_on_refl)
  with Inr show ?thesis by (simp add: split_data_def)
qed

section \<open>What the cleaner and the standardizer leave alone\<close>

lemma os_remove_result: "os_remove fs p = Inr fs' \<Longrightarrow> fs' = AList.delete p fs"
  by (auto simp: os_remove_def split: option.splits node.splits)

lemma clean_image_frame:
  assumes "\<not> P (class_path @ [n])"
  shows "same_on P (files (w :: ('c, 'g) world)) (files (world_of (clean_image lib class_path n w)))"
  using assms
  by (auto simp: clean_image_def Let_def print_def same_on_refl same_on_delete
      dest!: os_remove_result split: option.splits sum.splits)

lemma clean_class_frame:
  assumes "\<And>n. \<not> P (source_dir @ [c, n])"
  shows "same_on P (files (w :: ('c, 'g) world)) (files (world_of (clean_class lib source_dir c w)))"
proof -
  have "same_on P (files w)
      (files (world_of (for_each (clean_image lib (source_dir @ [c])) imgs w)))" for imgs
  proof (rule for_each_inv [where I = "\<lambda>v :: ('c, 'g) world. same_on P (files w) (files v)"])
    show "same_on P (files w) (files w)" by (rule same_on_refl)
  next
    fix n and v :: "('c, 'g) world" assume v: "same_on P (files w) (files v)"
    have "same_on P (files v) (files (world_of (clean_image lib (source_dir @ [c]) n v)))"
      using assms by (intro clean_image_frame) simp
    with v show "same_on P (files w) (files (world_of (clean_image lib (source_dir @ [c]) n v)))"
      by (rule same_on_trans)
  qed
  then show ?thesis
    by (auto simp: clean_class_def Let_def same_on_refl split: sum.splits)
qed

lemma clean_loop_frame:
  assumes "\<And>c n. \<not> P (source_dir @ [c, n])"
    and "same_on P fs0 (files (w :: ('c, 'g) world))"
  shows "same_on P fs0 (files (world_of (for_each (clean_class lib source_dir) classes w)))"
proof (rule for_each_inv [where I = "\<lambda>v :: ('c, 'g) world. same_on P fs0 (files v)"])
  show "same_on P fs0 (files w)" by fact
next
  fix c and v :: "('c, 'g) world" assume v: "same_on P fs0 (files v)"
  have "same_on P (files v) (files (world_of (clean_class lib source_dir c v)))"
    using assms(1) by (rule clean_class_frame)
  with v show "same_on P fs0 (files (world_of (clean_class lib source_dir c v)))"
    by (rule same_on_trans)
qed

lemma Image_save_result:
  "Image_save lib fs img p = Inr fs' \<Longrightarrow>
     \<exists>c. pil_save lib img p = Saved c \<and> write_file fs p c = Inr fs'"
  by (auto simp: Image_save_def split: saved.splits sum.splits)

lemma resize_and_save_result:
  assumes "resize_and_save lib image_size fs img_path out_path = Inr fs'"
  shows "\<exists>img img' c. Image_open lib fs img_path = Inr img \<and>
           pil_resize lib img image_size = Inr img' \<and> pil_save lib img' out_path = Saved c \<and>
           write_file fs out_path c = Inr fs'"
  using assms
  by (auto simp: resize_and_save_def dest!: Image_save_result split: sum.splits)

text \<open>Whatever happens, at most the target path is written.\<close>

lemma Image_save_footprint:
  "fs_after (Image_save lib fs img q) = fs \<or>
   (\<exists>c fs1. write_file fs q c = Inr fs1 \<and>
      (fs_after (Image_save lib fs img q) = fs1 \<or>
       fs_after (Image_save lib fs img q) = AList.delete q fs1))"
  by (auto simp: Image_save_def fs_after_def split: saved.splits sum.splits)

lemma resize_and_save_footprint:
  "fs_after (resize_and_save lib sz fs p q) = fs \<or>
   (\<exists>c fs1. write_file fs q c = Inr fs1 \<and>
      (fs_after (resize_and_save lib sz fs p q) = fs1 \<or>
       fs_after (resize_and_save lib sz fs p q) = AList.delete q fs1))"
proof (cases "Image_open lib fs p")
  case (Inl m)
  then show ?thesis by (simp add: resize_and_save_def fs_after_def)
next
  case (Inr img)
  show ?thesis
  proof (cases "pil_resize lib img sz")
    case (Inl m)
    with Inr show ?thesis by (simp add: resize_and_save_def fs_after_def)
  next
    case r: (Inr img')
    with Inr have "resize_and_save lib sz fs p q = Image_save lib fs img' q"
      by (simp add: resize_and_save_def)
    then show ?thesis
      using Image_save_footprint [of lib fs img' q] by simp
  qed
qed

lemma resize_and_save_same_on:
  assumes "P q \<Longrightarrow> lookup fs q = Some Dir"
  shows "same_on P fs (fs_after (resize_and_save lib sz fs p q))"
proof -
  let ?fs' = "fs_after (resize_and_save lib sz fs p q)"
  from resize_and_save_footprint [of lib sz fs p q]
  consider "?fs' = fs"
    | c fs1 where "write_file fs q c = Inr fs1" "?fs' = fs1 \<or> ?fs' = AList.delete q fs1"
    by blast
  then show ?thesis
  proof cases
    case 1
    then show ?thesis by (simp add: same_on_refl)
  next
    case 2
    from write_file_not_dir [OF 2(1)] assms have nP: "\<not> P q" by blast
    with 2(1) have s1: "same_on P fs fs1" by (rule write_file_same_on)
    from nP have "same_on P fs1 (AList.delete q fs1)" by (rule same_on_delete)
    with s1 have "same_on P fs (AList.delete q fs1)" by (rule same_on_trans)
    with s1 2(2) show ?thesis by auto
  qed
qed

lemma resize_and_save_other:
  "r \<noteq> q \<Longrightarrow> lookup (fs_after (resize_and_save lib sz fs p q)) r = lookup fs r"
  using resize_and_save_same_on [of "\<lambda>x. x \<noteq> q" q fs lib sz p]
  by (simp add: same_on_lookup)

lemma standardize_image_files:
  "files (world_of (standardize_image lib sz cp tcd n w)) =
     fs_after (resize_and_save lib sz (files w) (cp @ [n]) (tcd @ [n]))"
  by (auto simp: standardize_image_def fs_after_def print_def split: sum.splits prod.splits)

lemma unwritten_by_same_on:
  "same_on P fs fs' \<Longrightarrow> unwritten_by P fs d \<Longrightarrow> unwritten_by P fs' d"
  by (simp add: unwritten_by_def same_on_lookup)

lemma untouched_imp_unwritten: "untouched_by P fs d \<Longrightarrow> unwritten_by P fs d"
  by (auto simp: untouched_by_def unwritten_by_def child_of_iff strict_prefix_def)

lemma standardize_image_frame:
  assumes "unwritten_by P (files (w :: ('c, 'g) world)) target_class_dir"
  shows "same_on P (files w)
     (files (world_of (standardize_image lib image_size class_path target_class_dir n w)))"
  unfolding standardize_image_files
proof (rule resize_and_save_same_on)
  assume "P (target_class_dir @ [n])"
  with assms show "lookup (files w) (target_class_dir @ [n]) = Some Dir"
    by (auto simp: unwritten_by_def child_of_iff)
qed

lemma standardize_inner_frame:
  assumes "unwritten_by P fs0 target_class_dir"
    and "same_on P fs0 (files (w :: ('c, 'g) world))"
  shows "same_on P fs0 (files (world_of (for_each
      (standardize_image lib image_size class_path target_class_dir) imgs w)))"
proof (rule for_each_inv [where I = "\<lambda>v :: ('c, 'g) world. same_on P fs0 (files v)"])
  show "same_on P fs0 (files w)" by fact
next
  fix n and v :: "('c, 'g) world" assume v: "same_on P fs0 (files v)"
  have "same_on P (files v) (files (world_of
      (standardize_image lib image_size class_path target_class_dir n v)))"
    using unwritten_by_same_on [OF v assms(1)] by (rule standardize_image_frame)
  with v show "same_on P fs0 (files (world_of
      (standardize_image lib image_size class_path target_class_dir n v)))"
    by (rule same_on_trans)
qed

lemma standardize_class_frame:
  assumes "unwritten_by P (files (w :: ('c, 'g) world)) (target_dir @ [c])"
  shows "same_on P (files w)
     (files (world_of (standardize_class lib source_dir target_dir image_size c w)))"
proof (cases "os_makedirs (files w) (target_dir @ [c])")
  case (Inl e)
  then show ?thesis
    by (simp add: standardize_class_def Let_def same_on_refl)
next
  case (Inr fs1)
  from Inr have s1: "same_on P (files w) fs1"
    using assms by (intro os_makedirs_same_on) (auto simp: unwritten_by_def)
  have "same_on P (files w) (files (world_of (for_each
      (standardize_image lib image_size (source_dir @ [c]) (target_dir @ [c])) imgs
      (w\<lparr>files := fs1\<rparr>))))" for imgs
    using assms s1 by (intro standardize_inner_frame) simp_all
  with Inr s1 show ?thesis
    by (auto simp: standardize_class_def Let_def same_on_refl split: sum.splits)
qed

lemma standardize_loop_frame:
  assumes "\<And>c. unwritten_by P fs0 (target_dir @ [c])"
    and "same_on P fs0 (files (w :: ('c, 'g) world))"
  shows "same_on P fs0 (files (world_of (for_each
      (standardize_class lib source_dir target_dir image_size) classes w)))"
proof (rule for_each_inv [where I = "\<lambda>v :: ('c, 'g) world. same_on P fs0 (files v)"])
  show "same_on P fs0 (files w)" by fact
next
  fix c and v :: "('c, 'g) world" assume v: "same_on P fs0 (files v)"
  have "same_on P (files v) (files (world_of
      (standardize_class lib source_dir target_dir image_size c v)))"
    using unwritten_by_same_on [OF v assms(1)] by (rule standardize_class_frame)
  with v show "same_on P fs0 (files (world_of
      (standardize_class lib source_dir target_dir image_size c v)))"
    by (rule same_on_trans)
qed

section \<open>The standardizer, file by file\<close>

lemma snoc_eq_snoc2: "a @ [x] = b @ [y, z] \<longleftrightarrow> a = b @ [y] \<and> x = z"
  by (metis append.assoc append_Cons append_Nil snoc_eq_iff_butlast butlast_snoc last_snoc)

lemma snoc2_eq_snoc2: "a @ [c, n] = b @ [c', n'] \<longleftrightarrow> a = b \<and> c = c' \<and> n = n'"
  by simp

lemma write_file_ok_iff:
  "(\<exists>fs'. write_file fs q c = Inr fs') \<longleftrightarrow>
     q \<noteq> [] \<and> lookup fs (butlast q) = Some Dir \<and> lookup fs q \<noteq> Some Dir"
  by (auto simp: write_file_def split: option.splits node.splits)

lemma write_file_cong:
  assumes "lookup fs q = lookup fs' q" and "lookup fs (butlast q) = lookup fs' (butlast q)"
    and "write_file fs q c = Inr fs2"
  shows "write_file fs' q c = Inr (AList.update q (File c) fs')"
proof -
  from assms(3) have "q \<noteq> [] \<and> lookup fs (butlast q) = Some Dir \<and> lookup fs q \<noteq> Some Dir"
    using write_file_ok_iff [of fs q c] by blast
  with assms(1,2) have "q \<noteq> [] \<and> lookup fs' (butlast q) = Some Dir \<and> lookup fs' q \<noteq> Some Dir"
    by simp
  then obtain fs3 where "write_file fs' q c = Inr fs3"
    using write_file_ok_iff [of fs' q c] by blast
  then show ?thesis
    by (auto dest: write_file_result)
qed

lemma write_file_error_cong:
  assumes "lookup fs q = lookup fs' q" and "lookup fs (butlast q) = lookup fs' (butlast q)"
    and "write_file fs q c = Inl e"
  shows "write_file fs' q c = Inl e"
  using assms(3) unfolding write_file_def assms(1) assms(2)
  by (auto split: option.splits node.splits if_splits)

text \<open>
  A call of \<open>Image_save\<close> depends on the filesystem only through the target path and
  the directory that holds it.
\<close>

lemma Image_save_fails_cong:
  assumes q: "lookup fs q = lookup fs' q" and b: "lookup fs (butlast q) = lookup fs' (butlast q)"
    and bad: "Image_save lib fs img q = Inl (m, fs2)"
  shows "\<exists>fs2'. Image_save lib fs' img q = Inl (m, fs2') \<and> lookup fs2' q = lookup fs2 q"
proof (cases "pil_save lib img q")
  case (Refused m')
  with bad q show ?thesis by (auto simp: Image_save_def)
next
  case (Saved c)
  with bad obtain e where e: "write_file fs q c = Inl e" and m: "m = os_error_str e q"
    and fs2: "fs2 = fs"
    by (auto simp: Image_save_def split: sum.splits)
  from write_file_error_cong [OF q b e] Saved m fs2 q show ?thesis
    by (auto simp: Image_save_def)
next
  case (Broke m' c)
  show ?thesis
  proof (cases "write_file fs q c")
    case (Inl e)
    with bad Broke have m: "m = os_error_str e q" and fs2: "fs2 = fs"
      by (auto simp: Image_save_def)
    from write_file_error_cong [OF q b Inl] Broke m fs2 q show ?thesis
      by (auto simp: Image_save_def)
  next
    case (Inr fsa)
    with bad Broke have m: "m = m'"
      and fs2: "fs2 = (if lookup fs q = None then AList.delete q fsa else fsa)"
      by (auto simp: Image_save_def)
    from write_file_result [OF Inr] have qn: "q \<noteq> []" by simp
    from write_file_cong [OF q b Inr]
    have w': "write_file fs' q c = Inr (AList.update q (File c) fs')" .
    have "lookup (if lookup fs' q = None then AList.delete q (AList.update q (File c) fs')
                  else AList.update q (File c) fs') q = lookup fs2 q"
      unfolding fs2 using q qn write_file_lookup [OF Inr, of q]
      by (auto simp: lookup_delete lookup_update)
    with Broke w' m show ?thesis
      by (auto simp: Image_save_def)
  qed
qed

lemma resize_and_save_fails_cong:
  assumes "lookup fs p = lookup fs' p" and "lookup fs q = lookup fs' q"
    and "lookup fs (butlast q) = lookup fs' (butlast q)"
    and "resize_and_save lib sz fs p q = Inl (m, fs2)"
  shows "\<exists>fs2'. resize_and_save lib sz fs' p q = Inl (m, fs2') \<and> lookup fs2' q = lookup fs2 q"
proof -
  have o: "Image_open lib fs' p = Image_open lib fs p"
    using assms(1) by (simp add: Image_open_def)
  show ?thesis
  proof (cases "Image_open lib fs p")
    case (Inl m')
    with assms(2,4) o show ?thesis by (auto simp: resize_and_save_def)
  next
    case (Inr img)
    show ?thesis
    proof (cases "pil_resize lib img sz")
      case (Inl m')
      with Inr assms(2,4) o show ?thesis by (auto simp: resize_and_save_def)
    next
      case r: (Inr img')
      with Inr assms(4) have "Image_save lib fs img' q = Inl (m, fs2)"
        by (simp add: resize_and_save_def)
      from Image_save_fails_cong [OF assms(2,3) this] Inr r o show ?thesis
        by (simp add: resize_and_save_def)
    qed
  qed
qed

lemma resize_and_save_succeeds_cong:
  assumes "lookup fs p = lookup fs' p" and "lookup fs q = lookup fs' q"
    and "lookup fs (butlast q) = lookup fs' (butlast q)"
    and "resize_and_save lib sz fs p q = Inr fs2"
  shows "\<exists>out. lookup fs2 q = Some (File out) \<and>
           resize_and_save lib sz fs' p q = Inr (AList.update q (File out) fs')"
proof -
  from resize_and_save_result [OF assms(4)] obtain img img' out where
    o: "Image_open lib fs p = Inr img" and r: "pil_resize lib img sz = Inr img'"
    and s: "pil_save lib img' q = Saved out" and w: "write_file fs q out = Inr fs2"
    by blast
  from o assms(1) have o': "Image_open lib fs' p = Inr img"
    by (simp add: Image_open_def)
  from assms(2,3) w have w': "write_file fs' q out = Inr (AList.update q (File out) fs')"
    by (rule write_file_cong)
  from w have "lookup fs2 q = Some (File out)"
    by (simp add: write_file_lookup)
  with o' r s w' show ?thesis
    by (auto simp: resize_and_save_def Image_save_def)
qed

text \<open>A failure leaves no file where none was, and changes nothing when it comes early.\<close>

lemma resize_and_save_fails_absent:
  assumes "resize_and_save lib sz fs p q = Inl (m, fs2)" and "lookup fs q = None"
  shows "lookup fs2 q = None"
  using assms
  by (auto simp: resize_and_save_def Image_save_def lookup_delete dest: write_file_result
      split: sum.splits saved.splits)

lemma standardize_image_Done: "is_Done (standardize_image lib sz cp tcd y v)"
  by (simp add: standardize_image_def Let_def split: sum.splits prod.splits)

lemma standardize_image_step:
  "\<exists>v'. standardize_image lib sz cp tcd y v = Done v' \<and> set (stdout v) \<subseteq> set (stdout v') \<and>
        (\<forall>q. q \<noteq> tcd @ [y] \<longrightarrow> lookup (files v') q = lookup (files v) q)"
proof -
  from standardize_image_Done [of lib sz cp tcd y v] obtain v' where
    step: "standardize_image lib sz cp tcd y v = Done v'"
    by (cases "standardize_image lib sz cp tcd y v") auto
  have "set (stdout v) \<subseteq> set (stdout v')"
    using step
    by (auto simp: standardize_image_def Let_def print_def split: sum.splits prod.splits)
  moreover have "lookup (files v') q = lookup (files v) q" if "q \<noteq> tcd @ [y]" for q
    using standardize_image_files [of lib sz cp tcd y v] step resize_and_save_other [OF that]
    by simp
  ultimately show ?thesis using step by blast
qed

lemma standardize_image_other:
  assumes "standardize_image lib sz cp tcd y v = Done v'"
  shows "set (stdout v) \<subseteq> set (stdout v')"
    and "q \<noteq> tcd @ [y] \<Longrightarrow> lookup (files v') q = lookup (files v) q"
  using standardize_image_step [of lib sz cp tcd y v] assms by auto

text \<open>What the loop over the files of one class does for the file \<open>n\<close>.\<close>

lemma standardize_inner_success:
  fixes v :: "('c, 'g) world"
  assumes run: "for_each (standardize_image lib sz cp tcd) ns v = Done v'"
    and n: "n \<in> set ns" and d: "distinct ns"
    and ok: "resize_and_save lib sz (files v) (cp @ [n]) (tcd @ [n]) = Inr fs2"
  shows "lookup (files v') (tcd @ [n]) = lookup fs2 (tcd @ [n])"
proof -
  let ?p = "cp @ [n]" and ?q = "tcd @ [n]"
  let ?R = "\<lambda>u :: ('c, 'g) world. lookup (files u) ?p = lookup (files v) ?p \<and>
                lookup (files u) ?q = lookup (files v) ?q \<and>
                lookup (files u) tcd = lookup (files v) tcd"
  let ?Q = "\<lambda>u :: ('c, 'g) world. lookup (files u) ?q = lookup fs2 ?q"
  from run n d show ?thesis
  proof (rule for_each_establish [where R = ?R and Q = ?Q])
    show "?R v" by simp
  next
    fix y and u u' :: "('c, 'g) world" assume "y \<noteq> n" "?R u" "standardize_image lib sz cp tcd y u = Done u'"
    then show "?R u'"
      by (auto simp: standardize_image_other(2) snoc_eq_iff_butlast)
  next
    fix u u' :: "('c, 'g) world" assume R: "?R u" and step: "standardize_image lib sz cp tcd n u = Done u'"
    from resize_and_save_succeeds_cong [OF _ _ _ ok, of "files u"] R obtain out where
      out: "lookup fs2 ?q = Some (File out)"
      and "resize_and_save lib sz (files u) ?p ?q = Inr (AList.update ?q (File out) (files u))"
      by auto
    with step have "files u' = AList.update ?q (File out) (files u)"
      by (auto simp: standardize_image_def)
    with out show "?Q u'"
      by (simp add: lookup_update)
  next
    fix y and u u' :: "('c, 'g) world" assume "y \<noteq> n" "?Q u" "standardize_image lib sz cp tcd y u = Done u'"
    then show "?Q u'"
      by (auto simp: standardize_image_other(2))
  qed
qed

lemma standardize_inner_failure:
  fixes v :: "('c, 'g) world"
  assumes run: "for_each (standardize_image lib sz cp tcd) ns v = Done v'"
    and n: "n \<in> set ns" and d: "distinct ns"
    and bad: "resize_and_save lib sz (files v) (cp @ [n]) (tcd @ [n]) = Inl (m, fs2)"
  shows "error_line (cp @ [n]) m \<in> set (stdout v') \<and>
         lookup (files v') (tcd @ [n]) = lookup fs2 (tcd @ [n]) \<and>
         (cp \<noteq> tcd \<longrightarrow> lookup (files v') (cp @ [n]) = lookup (files v) (cp @ [n]))"
proof -
  let ?p = "cp @ [n]" and ?q = "tcd @ [n]"
  let ?R = "\<lambda>u :: ('c, 'g) world. lookup (files u) ?p = lookup (files v) ?p \<and>
                lookup (files u) ?q = lookup (files v) ?q \<and>
                lookup (files u) tcd = lookup (files v) tcd"
  let ?Q = "\<lambda>u :: ('c, 'g) world. error_line ?p m \<in> set (stdout u) \<and>
                lookup (files u) ?q = lookup fs2 ?q \<and>
                (cp \<noteq> tcd \<longrightarrow> lookup (files u) ?p = lookup (files v) ?p)"
  from run n d show ?thesis
  proof (rule for_each_establish [where R = ?R and Q = ?Q])
    show "?R v" by simp
  next
    fix y and u u' :: "('c, 'g) world" assume "y \<noteq> n" "?R u" "standardize_image lib sz cp tcd y u = Done u'"
    then show "?R u'"
      by (auto simp: standardize_image_other(2) snoc_eq_iff_butlast)
  next
    fix u u' :: "('c, 'g) world" assume R: "?R u" and step: "standardize_image lib sz cp tcd n u = Done u'"
    from resize_and_save_fails_cong [OF _ _ _ bad, of "files u"] R obtain fs2' where
      r: "resize_and_save lib sz (files u) ?p ?q = Inl (m, fs2')"
      and q: "lookup fs2' ?q = lookup fs2 ?q" by auto
    from r step have u': "u' = print (error_line ?p m) (u\<lparr>files := fs2'\<rparr>)"
      by (auto simp: standardize_image_def)
    have "lookup fs2' ?p = lookup (files u) ?p" if "cp \<noteq> tcd"
      using resize_and_save_other [of ?p ?q lib sz "files u" ?p] r that
      by (simp add: fs_after_def)
    with R q show "?Q u'"
      by (simp add: u' print_def)
  next
    fix y and u u' :: "('c, 'g) world" assume "y \<noteq> n" "?Q u" "standardize_image lib sz cp tcd y u = Done u'"
    then show "?Q u'"
      using standardize_image_other(1) [of lib sz cp tcd y u u']
      by (auto simp: standardize_image_other(2) snoc_eq_iff_butlast)
  qed
qed

section \<open>The standardizer, over the whole tree\<close>

lemma standardize_class_run:
  fixes v :: "('c, 'g) world"
  assumes "standardize_class lib src target sz c v = Done v'" and "isdir (files v) (src @ [c])"
  shows "\<exists>fs1. os_makedirs (files v) (target @ [c]) = Inr fs1 \<and>
           for_each (standardize_image lib sz (src @ [c]) (target @ [c]))
             (listdir fs1 (src @ [c])) (v\<lparr>files := fs1\<rparr>) = Done v'"
proof -
  from assms obtain fs1 where mk: "os_makedirs (files v) (target @ [c]) = Inr fs1"
    by (auto simp: standardize_class_def Let_def split: sum.splits)
  from assms(2) have "isdir fs1 (src @ [c])"
    using os_makedirs_keeps [OF mk] by (simp add: isdir_def)
  then have "os_listdir fs1 (src @ [c]) = Inr (listdir fs1 (src @ [c]))"
    by (simp add: os_listdir_def isdir_def)
  with assms mk show ?thesis
    by (simp add: standardize_class_def Let_def)
qed

lemma not_prefix_longer: "length d < length q \<Longrightarrow> \<not> prefix q d"
  by (auto dest: prefix_length_le)

lemma standardize_class_file:
  fixes v :: "('c, 'g) world"
  assumes run: "standardize_class lib src target sz c v = Done v'"
    and dir: "isdir (files v) (src @ [c])"
    and ex: "lookup (files v) (src @ [c, n]) \<noteq> None"
    and A: "lookup fsA (src @ [c, n]) = lookup (files v) (src @ [c, n])"
      "lookup fsA (target @ [c, n]) = lookup (files v) (target @ [c, n])"
      "isdir fsA (target @ [c])"
  shows "resize_and_save lib sz fsA (src @ [c, n]) (target @ [c, n]) = Inr fs2 \<Longrightarrow>
           lookup (files v') (target @ [c, n]) = lookup fs2 (target @ [c, n])"
    and "resize_and_save lib sz fsA (src @ [c, n]) (target @ [c, n]) = Inl (m, fs3) \<Longrightarrow>
           error_line (src @ [c, n]) m \<in> set (stdout v') \<and>
           lookup (files v') (target @ [c, n]) = lookup fs3 (target @ [c, n]) \<and>
           (src \<noteq> target \<longrightarrow> lookup (files v') (src @ [c, n]) = lookup (files v) (src @ [c, n]))"
proof -
  let ?p = "src @ [c, n]" and ?q = "target @ [c, n]"
  from standardize_class_run [OF run dir] obtain fs1 where
    mk: "os_makedirs (files v) (target @ [c]) = Inr fs1"
    and loop: "for_each (standardize_image lib sz (src @ [c]) (target @ [c]))
             (listdir fs1 (src @ [c])) (v\<lparr>files := fs1\<rparr>) = Done v'"
    by blast
  from ex obtain nd where nd: "lookup (files v) ?p = Some nd" by auto
  have p1: "lookup fs1 ?p = lookup (files v) ?p"
    using os_makedirs_keeps [OF mk nd] nd by simp
  have q1: "lookup fs1 ?q = lookup (files v) ?q"
    using os_makedirs_lookup [OF mk, of ?q] by (simp add: not_prefix_longer)
  have d1: "lookup fs1 (target @ [c]) = Some Dir"
    using os_makedirs_isdir [OF mk] by (simp add: isdir_def)
  have n: "n \<in> set (listdir fs1 (src @ [c]))"
    using p1 nd by (simp add: in_listdir)
  have bl: "butlast ?q = target @ [c]"
    by (simp add: butlast_append)
  have cong: "lookup fsA ((src @ [c]) @ [n]) = lookup (files (v\<lparr>files := fs1\<rparr>)) ((src @ [c]) @ [n])"
    "lookup fsA ((target @ [c]) @ [n]) = lookup (files (v\<lparr>files := fs1\<rparr>)) ((target @ [c]) @ [n])"
    "lookup fsA (butlast ((target @ [c]) @ [n])) =
       lookup (files (v\<lparr>files := fs1\<rparr>)) (butlast ((target @ [c]) @ [n]))"
    using A p1 q1 d1 bl by (simp_all add: isdir_def)
  {
    assume ok: "resize_and_save lib sz fsA ?p ?q = Inr fs2"
    then have ok': "resize_and_save lib sz fsA ((src @ [c]) @ [n]) ((target @ [c]) @ [n]) = Inr fs2"
      by simp
    from resize_and_save_succeeds_cong [OF cong ok'] obtain out where
      out: "lookup fs2 ?q = Some (File out)"
      and r: "resize_and_save lib sz (files (v\<lparr>files := fs1\<rparr>)) ((src @ [c]) @ [n])
                ((target @ [c]) @ [n]) = Inr (AList.update ((target @ [c]) @ [n]) (File out) fs1)"
      by auto
    from standardize_inner_success [OF loop n distinct_listdir r]
    show "lookup (files v') ?q = lookup fs2 ?q"
      using out by (simp add: lookup_update)
  }
  {
    assume bad: "resize_and_save lib sz fsA ?p ?q = Inl (m, fs3)"
    then have bad': "resize_and_save lib sz fsA ((src @ [c]) @ [n]) ((target @ [c]) @ [n]) =
        Inl (m, fs3)"
      by simp
    from resize_and_save_fails_cong [OF cong bad'] obtain fs3' where
      r: "resize_and_save lib sz (files (v\<lparr>files := fs1\<rparr>)) ((src @ [c]) @ [n])
                ((target @ [c]) @ [n]) = Inl (m, fs3')"
      and q3: "lookup fs3' ((target @ [c]) @ [n]) = lookup fs3 ((target @ [c]) @ [n])"
      by blast
    from standardize_inner_failure [OF loop n distinct_listdir r]
    show "error_line ?p m \<in> set (stdout v') \<and>
           lookup (files v') ?q = lookup fs3 ?q \<and>
           (src \<noteq> target \<longrightarrow> lookup (files v') ?p = lookup (files v) ?p)"
      using p1 q3 by simp
  }
qed


lemma standardize_class_stdout:
  fixes v :: "('c, 'g) world"
  shows "set (stdout v) \<subseteq> set (stdout (world_of (standardize_class lib src target sz c v)))"
proof -
  have "set (stdout v) \<subseteq> set (stdout (world_of (for_each
      (standardize_image lib sz (src @ [c]) (target @ [c])) ns (v\<lparr>files := fs1\<rparr>))))" for ns fs1
  proof (rule for_each_inv [where I = "\<lambda>u :: ('c, 'g) world. set (stdout v) \<subseteq> set (stdout u)"])
    show "set (stdout v) \<subseteq> set (stdout (v\<lparr>files := fs1\<rparr>))" by simp
  next
    fix y and u :: "('c, 'g) world" assume "set (stdout v) \<subseteq> set (stdout u)"
    then show "set (stdout v) \<subseteq> set (stdout (world_of
        (standardize_image lib sz (src @ [c]) (target @ [c]) y u)))"
      using standardize_image_step [of lib sz "src @ [c]" "target @ [c]" y u] by auto
  qed
  then show ?thesis
    by (auto simp: standardize_class_def Let_def split: sum.splits)
qed

lemma standardize_class_keeps:
  fixes u :: "('c, 'g) world"
  assumes "standardize_class lib src target sz c' u = Done u'" and "c' \<noteq> c"
    and "lookup (files u) (src @ [c, n]) \<noteq> None"
  shows "lookup (files u') (src @ [c, n]) = lookup (files u) (src @ [c, n])"
    and "lookup (files u') (target @ [c, n]) = lookup (files u) (target @ [c, n])"
    and "lookup (files u) (src @ [c]) = Some Dir \<Longrightarrow> lookup (files u') (src @ [c]) = Some Dir"
proof -
  let ?P = "\<lambda>r. r = src @ [c, n] \<or> r = target @ [c, n]"
  have "unwritten_by ?P (files u) (target @ [c'])"
    using assms(2,3) by (auto simp: unwritten_by_def child_of_iff not_prefix_longer)
  then have "same_on ?P (files u) (files (world_of (standardize_class lib src target sz c' u)))"
    by (rule standardize_class_frame)
  with assms(1) show "lookup (files u') (src @ [c, n]) = lookup (files u) (src @ [c, n])"
    and "lookup (files u') (target @ [c, n]) = lookup (files u) (target @ [c, n])"
    by (simp_all add: same_on_lookup)
  assume d: "lookup (files u) (src @ [c]) = Some Dir"
  have "unwritten_by (\<lambda>r. r = src @ [c]) (files u) (target @ [c'])"
    using d by (auto simp: unwritten_by_def)
  then have "same_on (\<lambda>r. r = src @ [c]) (files u)
      (files (world_of (standardize_class lib src target sz c' u)))"
    by (rule standardize_class_frame)
  with assms(1) d show "lookup (files u') (src @ [c]) = Some Dir"
    by (simp add: same_on_lookup)
qed

lemma standardize_images_run:
  assumes "standardize_images lib src target sz w = Done w'"
  shows "for_each (standardize_class lib src target sz) (listdir (files w) src) w = Done w'"
  using assms
  by (auto simp: standardize_images_def os_listdir_def split: option.splits node.splits)

lemma standardize_pass_file:
  fixes w :: "('c, 'g) world"
  assumes run: "standardize_images lib src target sz w = Done w'"
    and dir: "isdir (files w) (src @ [c])"
    and ex: "lookup (files w) (src @ [c, n]) \<noteq> None"
    and mk: "os_makedirs (files w) (target @ [c]) = Inr fs1"
  shows "resize_and_save lib sz fs1 (src @ [c, n]) (target @ [c, n]) = Inr fs2 \<Longrightarrow>
           lookup (files w') (target @ [c, n]) = lookup fs2 (target @ [c, n])"
    and "resize_and_save lib sz fs1 (src @ [c, n]) (target @ [c, n]) = Inl (m, fs3) \<Longrightarrow>
           error_line (src @ [c, n]) m \<in> set (stdout w') \<and>
           lookup (files w') (target @ [c, n]) = lookup fs3 (target @ [c, n]) \<and>
           (src \<noteq> target \<longrightarrow> lookup (files w') (src @ [c, n]) = lookup (files w) (src @ [c, n]))"
proof -
  let ?p = "src @ [c, n]" and ?q = "target @ [c, n]"
  let ?body = "standardize_class lib src target sz"
  let ?R = "\<lambda>u :: ('c, 'g) world. lookup (files u) (src @ [c]) = Some Dir \<and>
      lookup (files u) ?p = lookup (files w) ?p \<and> lookup (files u) ?q = lookup (files w) ?q"
  note loop = standardize_images_run [OF run]
  have cin: "c \<in> set (listdir (files w) src)"
    using dir by (rule isdir_in_listdir)
  from ex obtain nd where nd: "lookup (files w) ?p = Some nd" by auto
  have p1: "lookup fs1 ?p = lookup (files w) ?p"
    using os_makedirs_keeps [OF mk nd] nd by simp
  have q1: "lookup fs1 ?q = lookup (files w) ?q"
    using os_makedirs_lookup [OF mk, of ?q] by (simp add: not_prefix_longer)
  have d1: "isdir fs1 (target @ [c])"
    using mk by (rule os_makedirs_isdir)
  have R0: "?R w" using dir by (simp add: isdir_def)
  have Rstep: "?R u'" if "c' \<noteq> c" "?R u" "?body c' u = Done u'" for c' and u u' :: "('c, 'g) world"
    using standardize_class_keeps [OF that(3,1), of n] that(2) ex by simp
  {
    assume ok: "resize_and_save lib sz fs1 ?p ?q = Inr fs2"
    let ?Q = "\<lambda>u :: ('c, 'g) world. lookup (files u) ?q = lookup fs2 ?q"
    from loop cin distinct_listdir R0 show "lookup (files w') ?q = lookup fs2 ?q"
    proof (rule for_each_establish [where R = ?R and Q = ?Q])
      fix c' and u u' :: "('c, 'g) world"
      assume "c' \<noteq> c" "?R u" "?body c' u = Done u'"
      then show "?R u'" by (rule Rstep)
    next
      fix u u' :: "('c, 'g) world" assume R: "?R u" and step: "?body c u = Done u'"
      show "?Q u'"
      proof (rule standardize_class_file(1) [OF step _ _ _ _ d1 ok])
        show "isdir (files u) (src @ [c])" using R by (simp add: isdir_def)
        show "lookup (files u) ?p \<noteq> None" using R ex by simp
        show "lookup fs1 ?p = lookup (files u) ?p" using R p1 by simp
        show "lookup fs1 ?q = lookup (files u) ?q" using R q1 by simp
      qed
    next
      fix c' and u u' :: "('c, 'g) world"
      assume c': "c' \<noteq> c" and Q: "?Q u" and step: "?body c' u = Done u'"
      have "unwritten_by (\<lambda>r. r = ?q) (files u) (target @ [c'])"
        using c' by (auto simp: unwritten_by_def child_of_iff not_prefix_longer)
      then have "same_on (\<lambda>r. r = ?q) (files u) (files (world_of (?body c' u)))"
        by (rule standardize_class_frame)
      with step Q show "?Q u'" by (simp add: same_on_lookup)
    qed
  }
  {
    assume bad: "resize_and_save lib sz fs1 ?p ?q = Inl (m, fs3)"
    let ?Q = "\<lambda>u :: ('c, 'g) world. error_line ?p m \<in> set (stdout u) \<and>
        lookup (files u) ?q = lookup fs3 ?q \<and>
        (src \<noteq> target \<longrightarrow> lookup (files u) ?p = lookup (files w) ?p)"
    from loop cin distinct_listdir R0 show "?Q w'"
    proof (rule for_each_establish [where R = ?R and Q = ?Q])
      fix c' and u u' :: "('c, 'g) world"
      assume "c' \<noteq> c" "?R u" "?body c' u = Done u'"
      then show "?R u'" by (rule Rstep)
    next
      fix u u' :: "('c, 'g) world" assume R: "?R u" and step: "?body c u = Done u'"
      have "error_line ?p m \<in> set (stdout u') \<and>
           lookup (files u') ?q = lookup fs3 ?q \<and>
           (src \<noteq> target \<longrightarrow> lookup (files u') ?p = lookup (files u) ?p)"
      proof (rule standardize_class_file(2) [OF step _ _ _ _ d1 bad])
        show "isdir (files u) (src @ [c])" using R by (simp add: isdir_def)
        show "lookup (files u) ?p \<noteq> None" using R ex by simp
        show "lookup fs1 ?p = lookup (files u) ?p" using R p1 by simp
        show "lookup fs1 ?q = lookup (files u) ?q" using R q1 by simp
      qed
      with R show "?Q u'" by simp
    next
      fix c' and u u' :: "('c, 'g) world"
      assume c': "c' \<noteq> c" and Q: "?Q u" and step: "?body c' u = Done u'"
      have "unwritten_by (\<lambda>r. r = ?q) (files u) (target @ [c'])"
        using c' by (auto simp: unwritten_by_def child_of_iff not_prefix_longer)
      then have "same_on (\<lambda>r. r = ?q) (files u) (files (world_of (?body c' u)))"
        by (rule standardize_class_frame)
      with step have q: "lookup (files u') ?q = lookup (files u) ?q"
        by (simp add: same_on_lookup)
      have p: "lookup (files u') ?p = lookup (files u) ?p" if "src \<noteq> target"
      proof -
        from Q that ex have "lookup (files u) ?p \<noteq> None" by simp
        from standardize_class_keeps(1) [OF step c' this] show ?thesis .
      qed
      from Q q p standardize_class_stdout [of u lib src target sz c'] step
      show "?Q u'" by auto
    qed
  }
qed

section \<open>The split function\<close>

lemma split_sizes_complement:
  assumes "split_sizes n test_size train_size = Inr (k, m)"
    and "test_size = None \<or> train_size = None"
  shows "k + m = n"
proof -
  from assms(1) obtain a b where v: "validate_shuffle_split n test_size train_size = Inr (a, b)"
    and i: "validate_int_sizes n a b = Inr (k, m)"
    by (auto simp: split_sizes_def split: sum.splits)
  from i have pos: "0 < a" "0 < b" and km: "k = nat a" "m = nat b"
    by (auto simp: validate_int_sizes_def split: if_splits)
  from v assms(2) have "a + b = int n \<or> (test_size = None \<and> train_size = None)"
    by (auto simp: validate_shuffle_split_def Let_def split: if_splits option.splits)
  moreover have "a + b = int n" if "test_size = None" "train_size = None"
    using v that
    by (auto simp: validate_shuffle_split_def Let_def split: if_splits option.splits)
  ultimately have "a + b = int n" by blast
  with pos km show ?thesis by linarith
qed

lemma mset_map_nth_perm:
  assumes "mset p = mset [0..<length xs]"
  shows "mset (map (nth xs) p) = mset xs"
proof -
  have "mset (map (nth xs) p) = image_mset (nth xs) (mset p)" by simp
  also have "\<dots> = image_mset (nth xs) (mset [0..<length xs])" using assms by simp
  also have "\<dots> = mset (map (nth xs) [0..<length xs])" by simp
  also have "\<dots> = mset xs" by (simp add: map_nth)
  finally show ?thesis .
qed

lemma train_test_split_partition:
  assumes "rng_contract np"
    and "train_test_split np g xs test_size train_size random_state = (Inr (a, b), g')"
    and "test_size = None \<or> train_size = None"
  shows "mset a + mset b = mset xs"
proof -
  let ?n = "length xs"
  from assms(2) obtain k m where sz: "split_sizes ?n test_size train_size = Inr (k, m)"
    by (auto simp: train_test_split_def split: sum.splits)
  define p where "p = (case random_state of
        None \<Rightarrow> fst (rng_permutation np g ?n)
      | Some s \<Rightarrow> fst (rng_permutation np (rng_seeded np s) ?n))"
  have p: "mset p = mset [0..<?n]"
    using assms(1) by (auto simp: p_def rng_contract_def split: option.splits)
  then have len: "length p = ?n"
    by (metis length_upt minus_nat.diff_0 size_mset)
  from split_sizes_complement [OF sz assms(3)] have km: "k + m = ?n" .
  from assms(2) sz have ab: "a = map (nth xs) (take k (drop m p))" "b = map (nth xs) (take m p)"
    by (auto simp: train_test_split_def p_def Let_def split: option.splits prod.splits if_splits)
  have "take k (drop m p) = drop m p"
    using len km by simp
  then have "mset a + mset b =
      mset (map (nth xs) (drop m p)) + mset (map (nth xs) (take m p))"
    unfolding ab by simp
  also have "\<dots> = mset (map (nth xs) (take m p @ drop m p))"
    unfolding map_append mset_append by (simp add: add.commute)
  also have "\<dots> = mset (map (nth xs) p)"
    by (simp only: append_take_drop_id)
  also have "\<dots> = mset xs"
    using p by (rule mset_map_nth_perm)
  finally show ?thesis .
qed

lemma train_test_split_seeded:
  "train_test_split np g xs test_size train_size (Some s) =
     (fst (train_test_split np g0 xs test_size train_size (Some s)), g)"
  by (auto simp: train_test_split_def Let_def split: sum.splits prod.splits)

lemma partition_images_partition:
  assumes "rng_contract np"
    and "partition_images (train_test_split np) train_ratio val_ratio images g =
           (Inr (train, val, test), g')"
  shows "mset train + mset val + mset test = mset images"
proof -
  from assms(2) obtain temp g1 ts where
    first: "train_test_split np g images None (Some train_ratio) (Some 42) = (Inr (train, temp), g1)"
    and second: "train_test_split np g1 temp (Some ts) None None = (Inr (val, test), g')"
    by (auto simp: partition_images_def split: prod.splits sum.splits)
  from train_test_split_partition [OF assms(1) first] have "mset train + mset temp = mset images"
    by simp
  moreover from train_test_split_partition [OF assms(1) second] have "mset val + mset test = mset temp"
    by simp
  ultimately show ?thesis by (simp add: add.assoc)
qed

lemma partition_images_train_fixed:
  assumes "partition_images (train_test_split np) train_ratio val_ratio images g1 =
           (Inr (train1, val1, test1), g1')"
    and "partition_images (train_test_split np) train_ratio val_ratio images g2 =
           (Inr (train2, val2, test2), g2')"
  shows "train1 = train2"
proof -
  let ?first = "\<lambda>g. train_test_split np g images None (Some train_ratio) (Some 42)"
  have "fst (?first g1) = fst (?first g2)"
    using train_test_split_seeded [of np g1 images None "Some train_ratio" 42 g2] by simp
  moreover from assms(1) obtain temp1 h1 where "?first g1 = (Inr (train1, temp1), h1)"
    by (auto simp: partition_images_def split: prod.splits sum.splits)
  moreover from assms(2) obtain temp2 h2 where "?first g2 = (Inr (train2, temp2), h2)"
    by (auto simp: partition_images_def split: prod.splits sum.splits)
  ultimately show ?thesis by simp
qed

section \<open>The copy loops\<close>

lemma untouched_by_mono:
  "untouched_by Q fs d \<Longrightarrow> (\<And>q. P q \<Longrightarrow> Q q) \<Longrightarrow> untouched_by P fs d"
  by (simp add: untouched_by_def)

lemma copy_image_lookup:
  fixes v :: "('c, 'g) world"
  assumes "copy_image cp dst c n v = Done v'"
  shows "\<exists>x. lookup (files v) (cp @ [n]) = Some (File x) \<and>
           (\<forall>r. lookup (files v') r =
                  (if r = (if isdir (files v) (dst @ [c, n]) then dst @ [c, n, n] else dst @ [c, n])
                   then Some (File x)
                   else if prefix r (dst @ [c]) then Some Dir else lookup (files v) r)) \<and>
           global_rng v' = global_rng v"
proof -
  let ?src = "cp @ [n]" and ?dst = "dst @ [c, n]"
  from assms obtain fs1 where mk: "os_makedirs (files v) (dst @ [c]) = Inr fs1"
    and cp: "shutil_copy fs1 ?src ?dst = Inr (files v')" and g: "global_rng v' = global_rng v"
    by (auto simp: copy_image_def split: sum.splits)
  have l1: "lookup fs1 q = (if prefix q (dst @ [c]) then Some Dir else lookup (files v) q)" for q
    using mk by (rule os_makedirs_lookup)
  from shutil_copy_written [OF cp] obtain x p where
    p: "p = ?dst \<and> \<not> isdir fs1 ?dst \<or> p = ?dst @ [last ?src] \<and> isdir fs1 ?dst"
    and src: "lookup fs1 ?src = Some (File x)"
    and wr: "write_file fs1 p x = Inr (files v')" by blast
  have l2: "lookup (files v') q = (if q = p then Some (File x) else lookup fs1 q)" for q
    using wr by (rule write_file_lookup)
  have dst_same: "isdir fs1 ?dst = isdir (files v) ?dst"
    by (simp add: isdir_def l1 not_prefix_longer)
  from src have src0: "lookup (files v) ?src = Some (File x)"
    by (simp add: l1 split: if_splits)
  have pp: "p = (if isdir (files v) ?dst then dst @ [c, n, n] else ?dst)"
    using p dst_same by auto
  have "lookup (files v') r =
                  (if r = (if isdir (files v) ?dst then dst @ [c, n, n] else ?dst)
                   then Some (File x)
                   else if prefix r (dst @ [c]) then Some Dir else lookup (files v) r)" for r
    unfolding l2 l1 pp by simp
  with src0 g show ?thesis by blast
qed

lemma copy_loop_copied:
  fixes v :: "('c, 'g) world"
  assumes "for_each (copy_image cp dst c) names v = Done v'"
    and "untouched_by (\<lambda>r. \<exists>y. r = cp @ [y]) (files v) (dst @ [c])"
  shows "copied_into (files v) (files v') cp (dst @ [c]) names \<and> global_rng v' = global_rng v"
  using assms
proof (induction names arbitrary: v)
  case Nil
  then show ?case by (simp add: copied_into_def)
next
  case (Cons n names)
  let ?P = "\<lambda>r. \<exists>y. r = cp @ [y]"
  let ?d = "dst @ [c]"
  from Cons.prems(1) obtain v1 where step: "copy_image cp dst c n v = Done v1"
    and rest: "for_each (copy_image cp dst c) names v1 = Done v'"
    by (auto split: outcome.splits)
  from copy_image_lookup [OF step] obtain x where
    x: "lookup (files v) (cp @ [n]) = Some (File x)"
    and l: "\<And>r. lookup (files v1) r =
                  (if r = (if isdir (files v) (dst @ [c, n]) then dst @ [c, n, n] else dst @ [c, n])
                   then Some (File x)
                   else if prefix r ?d then Some Dir else lookup (files v) r)"
    and g: "global_rng v1 = global_rng v" by blast
  have fr: "same_on ?P (files v) (files v1)"
    using copy_image_frame [OF Cons.prems(2), of cp n] step by simp
  have src: "lookup (files v1) (cp @ [y]) = lookup (files v) (cp @ [y])" for y
    using fr by (rule same_on_lookup) auto
  from Cons.IH [OF rest untouched_by_same_on [OF fr Cons.prems(2)]]
  have ih: "copied_into (files v1) (files v') cp ?d names" and g': "global_rng v' = global_rng v1"
    by simp_all
  have d1: "isdir (files v1) ?d"
    by (simp add: isdir_def l)
  have e1: "lookup (files v1) (dst @ [c, y]) =
      (if y = n \<and> \<not> isdir (files v) (dst @ [c, y]) then Some (File x)
       else lookup (files v) (dst @ [c, y]))"
    for y
    by (auto simp: l not_prefix_longer)
  have dir1: "isdir (files v1) (dst @ [c, y]) = isdir (files v) (dst @ [c, y])" for y
    unfolding isdir_def e1 by (auto simp: isdir_def)
  have "isdir (files v') ?d \<longleftrightarrow> isdir (files v) ?d \<or> n # names \<noteq> []"
    using ih d1 by (simp add: copied_into_def)
  moreover have "lookup (files v') (dst @ [c, y]) =
            (if y \<in> set (n # names) \<and> \<not> isdir (files v) (dst @ [c, y])
             then lookup (files v) (cp @ [y]) else lookup (files v) (dst @ [c, y]))" for y
  proof -
    from ih have "lookup (files v') (dst @ [c, y]) =
            (if y \<in> set names \<and> \<not> isdir (files v1) (dst @ [c, y]) then lookup (files v1) (cp @ [y])
             else lookup (files v1) (dst @ [c, y]))"
      by (simp add: copied_into_def)
    then show ?thesis
      unfolding dir1 src e1 using x by auto
  qed
  ultimately show ?case
    using g g' by (simp add: copied_into_def)
qed

lemma copy_loop_sources:
  fixes v :: "('c, 'g) world"
  assumes "for_each (copy_image cp dst c) names v = Done v'"
    and "untouched_by (\<lambda>r. \<exists>y. r = cp @ [y]) (files v) (dst @ [c])"
  shows "\<forall>y\<in>set names. \<exists>x. lookup (files v) (cp @ [y]) = Some (File x)"
  using assms
proof (induction names arbitrary: v)
  case Nil
  then show ?case by simp
next
  case (Cons n names)
  let ?P = "\<lambda>r. \<exists>y. r = cp @ [y]"
  from Cons.prems(1) obtain v1 where step: "copy_image cp dst c n v = Done v1"
    and rest: "for_each (copy_image cp dst c) names v1 = Done v'"
    by (auto split: outcome.splits)
  from copy_image_lookup [OF step] obtain x where
    x: "lookup (files v) (cp @ [n]) = Some (File x)" by blast
  have fr: "same_on ?P (files v) (files v1)"
    using copy_image_frame [OF Cons.prems(2), of cp n] step by simp
  have src: "lookup (files v1) (cp @ [y]) = lookup (files v) (cp @ [y])" for y
    using fr by (rule same_on_lookup) auto
  from Cons.IH [OF rest untouched_by_same_on [OF fr Cons.prems(2)]]
  have "\<forall>y\<in>set names. \<exists>x. lookup (files v) (cp @ [y]) = Some (File x)"
    by (simp add: src)
  with x show ?case by simp
qed

section \<open>The splitter, over the whole tree\<close>

lemma disjoint_trees_sym: "disjoint_trees a b \<Longrightarrow> disjoint_trees b a"
  by (auto simp: disjoint_trees_def)

lemma same_root_other_class:
  assumes "c' \<noteq> c"
  shows "untouched_by (\<lambda>r. r = dst @ [c] \<or> (\<exists>y. r = dst @ [c, y])) fs (dst @ [c'])"
  using assms by (auto simp: untouched_by_def strict_prefix_def)

lemma class_paths_untouched:
  assumes "disjoint_trees a b"
  shows "untouched_by (\<lambda>r. r = a @ [c] \<or> (\<exists>y. r = a @ [c, y])) fs (b @ [c'])"
  using disjoint_trees_untouched [OF assms] by (rule untouched_by_mono) auto

lemma copied_into_transfer:
  assumes "copied_into fs1 fs2 cp d names"
    and "lookup fs0 d = lookup fs1 d" and "\<And>y. lookup fs0 (d @ [y]) = lookup fs1 (d @ [y])"
    and "\<And>y. lookup fs0 (cp @ [y]) = lookup fs1 (cp @ [y])"
    and "lookup fs3 d = lookup fs2 d" and "\<And>y. lookup fs3 (d @ [y]) = lookup fs2 (d @ [y])"
  shows "copied_into fs0 fs3 cp d names"
  using assms by (simp add: copied_into_def isdir_def)

lemma copy_loop_tree_frame:
  fixes v :: "('c, 'g) world"
  assumes "disjoint_trees a dst" and "for_each (copy_image cp dst c) names v = Done v'"
  shows "same_on (prefix a) (files v) (files v')"
proof -
  have "untouched_by (prefix a) (files v) (dst @ [c])"
    using assms(1) by (rule disjoint_trees_untouched)
  then have "same_on (prefix a) (files v)
      (files (world_of (for_each (copy_image cp dst c) names v)))"
    by (rule copy_loop_frame) (rule same_on_refl)
  with assms(2) show ?thesis by simp
qed

lemma split_class_copied:
  fixes v :: "('c, 'g) world"
  assumes run: "split_class tts src train val test tr vr c v = Done v1"
    and dir: "isdir (files v) (src @ [c])"
    and sep: "separate_roots src train val test"
  shows "\<exists>a b d. partition_images tts tr vr (listdir (files v) (src @ [c])) (global_rng v) =
             (Inr (a, b, d), global_rng v1) \<and>
           copied_into (files v) (files v1) (src @ [c]) (train @ [c]) a \<and>
           copied_into (files v) (files v1) (src @ [c]) (val @ [c]) b \<and>
           copied_into (files v) (files v1) (src @ [c]) (test @ [c]) d \<and>
           (\<forall>y\<in>set a \<union> set b \<union> set d. \<exists>x. lookup (files v) (src @ [c, y]) = Some (File x))"
proof -
  let ?cp = "src @ [c]"
  let ?Pcp = "\<lambda>r. \<exists>y. r = ?cp @ [y]"
  from sep have st: "disjoint_trees src train" and sv: "disjoint_trees src val"
    and se: "disjoint_trees src test" and tv: "disjoint_trees train val"
    and te: "disjoint_trees train test" and ve: "disjoint_trees val test"
    by (simp_all add: separate_roots_def)
  from dir have ls: "os_listdir (files v) ?cp = Inr (listdir (files v) ?cp)"
    by (simp add: os_listdir_def isdir_def)
  from run dir ls obtain a b d g where
    part: "partition_images tts tr vr (listdir (files v) ?cp) (global_rng v) = (Inr (a, b, d), g)"
    and loops: "and_then (and_then
          (for_each (copy_image ?cp train c) a (v\<lparr>global_rng := g\<rparr>))
          (for_each (copy_image ?cp val c) b))
          (for_each (copy_image ?cp test c) d) = Done v1"
    by (auto simp: split_class_def Let_def split: sum.splits prod.splits)
  let ?v0 = "v\<lparr>global_rng := g\<rparr>"
  from loops obtain u1 u2 where
    l1: "for_each (copy_image ?cp train c) a ?v0 = Done u1"
    and l2: "for_each (copy_image ?cp val c) b u1 = Done u2"
    and l3: "for_each (copy_image ?cp test c) d u2 = Done v1"
    by (auto simp: and_then_def split: outcome.splits)
  have un: "untouched_by ?Pcp F (dst @ [c])" if "disjoint_trees src dst" for F :: "'c fs" and dst
    using disjoint_trees_untouched [OF that] by (rule untouched_by_mono) auto
  from copy_loop_copied [OF l1 un [OF st]]
  have c1: "copied_into (files v) (files u1) ?cp (train @ [c]) a" and g1: "global_rng u1 = g"
    by simp_all
  from copy_loop_copied [OF l2 un [OF sv]]
  have c2: "copied_into (files u1) (files u2) ?cp (val @ [c]) b" and g2: "global_rng u2 = g"
    using g1 by simp_all
  from copy_loop_copied [OF l3 un [OF se]]
  have c3: "copied_into (files u2) (files v1) ?cp (test @ [c]) d" and g3: "global_rng v1 = g"
    using g2 by simp_all
  note s1 = copy_loop_tree_frame [OF st l1] and s2 = copy_loop_tree_frame [OF sv l2]
  note t2 = copy_loop_tree_frame [OF tv l2] and t3 = copy_loop_tree_frame [OF te l3]
  note v1 = copy_loop_tree_frame [OF disjoint_trees_sym [OF tv] l1]
    and v3 = copy_loop_tree_frame [OF ve l3]
  note e1 = copy_loop_tree_frame [OF disjoint_trees_sym [OF te] l1]
    and e2 = copy_loop_tree_frame [OF disjoint_trees_sym [OF ve] l2]
  have "copied_into (files v) (files v1) ?cp (train @ [c]) a"
    using c1
  proof (rule copied_into_transfer)
    show "lookup (files v1) (train @ [c]) = lookup (files u1) (train @ [c])"
      "\<And>y. lookup (files v1) ((train @ [c]) @ [y]) = lookup (files u1) ((train @ [c]) @ [y])"
      using same_on_trans [OF t2 t3] by (simp_all add: same_on_lookup)
  qed simp_all
  moreover have "copied_into (files v) (files v1) ?cp (val @ [c]) b"
    using c2
  proof (rule copied_into_transfer)
    show "lookup (files v) (val @ [c]) = lookup (files u1) (val @ [c])"
      "\<And>y. lookup (files v) ((val @ [c]) @ [y]) = lookup (files u1) ((val @ [c]) @ [y])"
      using v1 by (simp_all add: same_on_lookup)
    show "\<And>y. lookup (files v) (?cp @ [y]) = lookup (files u1) (?cp @ [y])"
      using s1 by (simp add: same_on_lookup)
    show "lookup (files v1) (val @ [c]) = lookup (files u2) (val @ [c])"
      "\<And>y. lookup (files v1) ((val @ [c]) @ [y]) = lookup (files u2) ((val @ [c]) @ [y])"
      using v3 by (simp_all add: same_on_lookup)
  qed
  moreover have "copied_into (files v) (files v1) ?cp (test @ [c]) d"
    using c3
  proof (rule copied_into_transfer)
    show "lookup (files v) (test @ [c]) = lookup (files u2) (test @ [c])"
      "\<And>y. lookup (files v) ((test @ [c]) @ [y]) = lookup (files u2) ((test @ [c]) @ [y])"
      using same_on_trans [OF e1 e2] by (simp_all add: same_on_lookup)
    show "\<And>y. lookup (files v) (?cp @ [y]) = lookup (files u2) (?cp @ [y])"
      using same_on_trans [OF s1 s2] by (simp add: same_on_lookup)
  qed simp_all
  moreover have "\<forall>y\<in>set a \<union> set b \<union> set d. \<exists>x. lookup (files v) (src @ [c, y]) = Some (File x)"
  proof -
    from copy_loop_sources [OF l1 un [OF st]]
    have "\<forall>y\<in>set a. \<exists>x. lookup (files v) (?cp @ [y]) = Some (File x)" by simp
    moreover from copy_loop_sources [OF l2 un [OF sv]] s1
    have "\<forall>y\<in>set b. \<exists>x. lookup (files v) (?cp @ [y]) = Some (File x)"
      by (simp add: same_on_lookup)
    moreover from copy_loop_sources [OF l3 un [OF se]] same_on_trans [OF s1 s2]
    have "\<forall>y\<in>set d. \<exists>x. lookup (files v) (?cp @ [y]) = Some (File x)"
      by (simp add: same_on_lookup)
    ultimately show ?thesis by auto
  qed
  ultimately show ?thesis
    using part g3 by auto
qed

lemma split_data_run:
  assumes "split_data tts src train val test tr vr w = Done w'"
  shows "for_each (split_class tts src train val test tr vr) (listdir (files w) src) w = Done w'"
  using assms
  by (auto simp: split_data_def os_listdir_def split: option.splits node.splits)

text \<open>
  A class that the pass completes: the classes listed before \<open>c\<close> run to their end, and
  so does \<open>c\<close>. Whatever happens to the classes listed after it, the three subsets of
  \<open>c\<close> are in the three target directories of \<open>c\<close> when the pass ends.
\<close>

lemma split_prefix_copied:
  fixes w :: "('c, 'g) world"
  assumes ls: "listdir (files w) src = pre @ c # post"
    and a: "for_each (split_class tts src train val test tr vr) pre w = Done v"
    and b: "split_class tts src train val test tr vr c v = Done v1"
    and dir: "isdir (files w) (src @ [c])"
    and sep: "separate_roots src train val test"
  shows "\<exists>x y z.
           partition_images tts tr vr (listdir (files w) (src @ [c])) (global_rng v) =
             (Inr (x, y, z), global_rng v1) \<and>
           copied_into (files w)
             (files (world_of (for_each (split_class tts src train val test tr vr) post v1)))
             (src @ [c]) (train @ [c]) x \<and>
           copied_into (files w)
             (files (world_of (for_each (split_class tts src train val test tr vr) post v1)))
             (src @ [c]) (val @ [c]) y \<and>
           copied_into (files w)
             (files (world_of (for_each (split_class tts src train val test tr vr) post v1)))
             (src @ [c]) (test @ [c]) z \<and>
           (\<forall>n\<in>set x \<union> set y \<union> set z. \<exists>k. lookup (files w) (src @ [c, n]) = Some (File k))"
proof -
  let ?cp = "src @ [c]"
  let ?body = "split_class tts src train val test tr vr"
  let ?w' = "world_of (for_each ?body post v1)"
  from sep have st: "disjoint_trees src train" and sv: "disjoint_trees src val"
    and se: "disjoint_trees src test" and tv: "disjoint_trees train val"
    and te: "disjoint_trees train test" and ve: "disjoint_trees val test"
    by (simp_all add: separate_roots_def)
  note vt = disjoint_trees_sym [OF tv] and et = disjoint_trees_sym [OF te]
    and ev = disjoint_trees_sym [OF ve]
  have "distinct (pre @ c # post)"
    using distinct_listdir [of "files w" src] ls by simp
  then have npre: "c \<notin> set pre" and npost: "c \<notin> set post" by auto
  \<comment> \<open>the source tree is the same throughout\<close>
  have src_frame: "same_on (prefix src) (files u) (files (world_of (for_each ?body xs u)))"
    for xs and u :: "('c, 'g) world"
    by (rule split_loop_frame) (auto intro: disjoint_trees_untouched st sv se same_on_refl)
  \<comment> \<open>the other classes leave the target directories of \<open>c\<close> alone\<close>
  have dst_frame: "same_on (\<lambda>r. r = dst @ [c] \<or> (\<exists>y. r = dst @ [c, y])) (files u)
        (files (world_of (for_each ?body xs u)))"
    if "c \<notin> set xs"
      "dst = train \<or> disjoint_trees dst train" "dst = val \<or> disjoint_trees dst val"
      "dst = test \<or> disjoint_trees dst test"
    for xs dst and u :: "('c, 'g) world"
  proof -
    let ?P = "\<lambda>r. r = dst @ [c] \<or> (\<exists>y. r = dst @ [c, y])"
    have un: "untouched_by ?P (files u) (t @ [c'])" if "c' \<in> set xs" "dst = t \<or> disjoint_trees dst t"
      for t c'
    proof (cases "dst = t")
      case True
      with that(1) \<open>c \<notin> set xs\<close> show ?thesis
        by (auto intro!: same_root_other_class)
    next
      case False
      with that(2) show ?thesis by (auto intro: class_paths_untouched)
    qed
    show ?thesis
    proof (rule split_loop_frame)
      fix c' assume c': "c' \<in> set xs"
      show "untouched_by ?P (files u) (train @ [c'])" using c' that(2) by (rule un)
      show "untouched_by ?P (files u) (val @ [c'])" using c' that(3) by (rule un)
      show "untouched_by ?P (files u) (test @ [c'])" using c' that(4) by (rule un)
    qed (rule same_on_refl)
  qed
  have sa: "same_on (prefix src) (files w) (files v)"
    using src_frame [of w pre] a by simp
  have dirv: "isdir (files v) ?cp"
    using dir sa by (simp add: same_on_isdir)
  have lsv: "listdir (files v) ?cp = listdir (files w) ?cp"
    using sa by (rule same_on_listdir) simp
  from split_class_copied [OF b dirv sep] obtain x y z where
    part: "partition_images tts tr vr (listdir (files v) ?cp) (global_rng v) =
             (Inr (x, y, z), global_rng v1)"
    and cx: "copied_into (files v) (files v1) ?cp (train @ [c]) x"
    and cy: "copied_into (files v) (files v1) ?cp (val @ [c]) y"
    and cz: "copied_into (files v) (files v1) ?cp (test @ [c]) z"
    and fv: "\<forall>n\<in>set x \<union> set y \<union> set z. \<exists>k. lookup (files v) (src @ [c, n]) = Some (File k)"
    by blast
  have transfer: "copied_into (files w) (files ?w') ?cp (dst @ [c]) names"
    if "copied_into (files v) (files v1) ?cp (dst @ [c]) names"
      "dst = train \<or> disjoint_trees dst train" "dst = val \<or> disjoint_trees dst val"
      "dst = test \<or> disjoint_trees dst test" for dst names
    using that(1)
  proof (rule copied_into_transfer)
    have f1: "same_on (\<lambda>r. r = dst @ [c] \<or> (\<exists>y. r = dst @ [c, y])) (files w) (files v)"
      using dst_frame [OF npre that(2-4), of w] a by simp
    note f2 = dst_frame [OF npost that(2-4), of v1]
    show "lookup (files w) (dst @ [c]) = lookup (files v) (dst @ [c])"
      "\<And>y. lookup (files w) ((dst @ [c]) @ [y]) = lookup (files v) ((dst @ [c]) @ [y])"
      using f1 by (auto simp: same_on_lookup)
    show "\<And>y. lookup (files w) (?cp @ [y]) = lookup (files v) (?cp @ [y])"
      using sa by (simp add: same_on_lookup)
    show "lookup (files ?w') (dst @ [c]) = lookup (files v1) (dst @ [c])"
      "\<And>y. lookup (files ?w') ((dst @ [c]) @ [y]) = lookup (files v1) ((dst @ [c]) @ [y])"
      using f2 by (auto simp: same_on_lookup)
  qed
  have "copied_into (files w) (files ?w') ?cp (train @ [c]) x"
    using cx tv te by (intro transfer) auto
  moreover have "copied_into (files w) (files ?w') ?cp (val @ [c]) y"
    using cy vt ve by (intro transfer) auto
  moreover have "copied_into (files w) (files ?w') ?cp (test @ [c]) z"
    using cz et ev by (intro transfer) auto
  moreover have "partition_images tts tr vr (listdir (files w) ?cp) (global_rng v) =
             (Inr (x, y, z), global_rng v1)"
    using part lsv by simp
  moreover have "\<forall>n\<in>set x \<union> set y \<union> set z. \<exists>k. lookup (files w) (src @ [c, n]) = Some (File k)"
    using fv sa by (simp add: same_on_lookup)
  ultimately show ?thesis by blast
qed

lemma split_data_prefix:
  assumes "os_listdir (files w) src = Inr (pre @ c # post)"
    and "for_each (split_class tts src train val test tr vr) pre w = Done v"
    and "split_class tts src train val test tr vr c v = Done v1"
  shows "split_data tts src train val test tr vr w =
           for_each (split_class tts src train val test tr vr) post v1"
    and "listdir (files w) src = pre @ c # post"
  using assms
  by (auto simp: split_data_def for_each_append and_then_def os_listdir_def
      split: option.splits node.splits)

lemma split_pass_copied:
  fixes w :: "('c, 'g) world"
  assumes run: "split_data tts src train val test tr vr w = Done w'"
    and dir: "isdir (files w) (src @ [c])"
    and sep: "separate_roots src train val test"
  shows "\<exists>a b d g g'.
           partition_images tts tr vr (listdir (files w) (src @ [c])) g = (Inr (a, b, d), g') \<and>
           copied_into (files w) (files w') (src @ [c]) (train @ [c]) a \<and>
           copied_into (files w) (files w') (src @ [c]) (val @ [c]) b \<and>
           copied_into (files w) (files w') (src @ [c]) (test @ [c]) d \<and>
           (\<forall>y\<in>set a \<union> set b \<union> set d. \<exists>x. lookup (files w) (src @ [c, y]) = Some (File x))"
proof -
  let ?body = "split_class tts src train val test tr vr"
  let ?cs = "listdir (files w) src"
  have "c \<in> set ?cs" using dir by (rule isdir_in_listdir)
  then obtain pre post where cs: "?cs = pre @ c # post"
    by (auto simp: in_set_conv_decomp)
  from split_data_run [OF run] cs for_each_Done_split [of ?body pre c post w w']
  obtain v v1 where a: "for_each ?body pre w = Done v" and b: "?body c v = Done v1"
    and e: "for_each ?body post v1 = Done w'" by auto
  from split_prefix_copied [OF cs a b dir sep] obtain x y z where
    "partition_images tts tr vr (listdir (files w) (src @ [c])) (global_rng v) =
       (Inr (x, y, z), global_rng v1)"
    "copied_into (files w) (files (world_of (for_each ?body post v1))) (src @ [c]) (train @ [c]) x"
    "copied_into (files w) (files (world_of (for_each ?body post v1))) (src @ [c]) (val @ [c]) y"
    "copied_into (files w) (files (world_of (for_each ?body post v1))) (src @ [c]) (test @ [c]) z"
    "\<forall>n\<in>set x \<union> set y \<union> set z. \<exists>k. lookup (files w) (src @ [c, n]) = Some (File k)"
    by blast
  with e show ?thesis
    by (simp del: Un_iff) blast
qed

section \<open>Classes that are too small to split\<close>

lemma fl_zero: "fl 0 = 0"
  by (simp add: fl_def)

lemma float_of_nat_0: "float_of_nat 0 = 0"
  by (simp add: float_of_nat_def fl_def)

lemma float_of_nat_1: "float_of_nat (Suc 0) = 1"
  unfolding float_of_nat_def by code_simp

lemma validate_int_sizes_1: "validate_int_sizes (Suc 0) a b = Inl ValueError"
  by (auto simp: validate_int_sizes_def)

lemma validate_int_sizes_0: "validate_int_sizes 0 a b = Inl ValueError"
  by (auto simp: validate_int_sizes_def)

lemma split_sizes_small:
  assumes "n < 2"
  shows "split_sizes n test_size train_size = Inl ValueError"
proof -
  have "validate_int_sizes n a b = Inl ValueError" for a b
    using assms by (auto simp: validate_int_sizes_def)
  moreover have "\<And>e. validate_shuffle_split n test_size train_size = Inl e \<Longrightarrow> e = ValueError"
    by (auto simp: validate_shuffle_split_def Let_def split: if_splits option.splits prod.splits)
  ultimately show ?thesis
    by (auto simp: split_sizes_def split: sum.splits)
qed

lemma train_test_split_small:
  "length arrays < 2 \<Longrightarrow>
   train_test_split np g arrays test_size train_size random_state = (Inl ValueError, g)"
  by (simp add: train_test_split_def split_sizes_small)

lemma partition_images_small:
  "length images < 2 \<Longrightarrow>
   partition_images (train_test_split np) train_ratio val_ratio images g = (Inl ValueError, g)"
  by (simp add: partition_images_def train_test_split_small)

lemma split_class_small:
  assumes "isdir (files w) (source_dir @ [c])"
    and "length (listdir (files w) (source_dir @ [c])) < 2"
  shows "split_class (train_test_split np) source_dir train_dir val_dir test_dir
           train_ratio val_ratio c w = Raised ValueError w"
  using assms
  by (simp add: split_class_def os_listdir_def isdir_def partition_images_small)

text \<open>
  C8. When the class \<open>c\<close> is reached with fewer than two files in its directory, the
  split function raises \<^verbatim>\<open>ValueError\<close> and the pass halts there: the world it leaves is
  the one that the classes listed before \<open>c\<close> left (\<open>r\<close> is the run over those classes), so
  nothing of \<open>c\<close> or of a class listed after it is copied. If an earlier class already
  halted the pass, the pass ends there.
\<close>

theorem small_class_halts_split:
  assumes "os_listdir (files w) source_dir = Inr (pre @ c # post)"
    and "r = for_each (split_class (train_test_split np) source_dir train_dir val_dir test_dir
                 train_ratio val_ratio) pre w"
    and "isdir (files (world_of r)) (source_dir @ [c])"
    and "length (listdir (files (world_of r)) (source_dir @ [c])) < 2"
  shows "split_data (train_test_split np) source_dir train_dir val_dir test_dir
           train_ratio val_ratio w =
         (case r of Done w1 \<Rightarrow> Raised ValueError w1 | Raised e w1 \<Rightarrow> Raised e w1)"
proof -
  let ?body = "split_class (train_test_split np) source_dir train_dir val_dir test_dir
                 train_ratio val_ratio"
  have run: "split_data (train_test_split np) source_dir train_dir val_dir test_dir
               train_ratio val_ratio w = and_then r (for_each ?body (c # post))"
    using assms(1,2) by (simp add: split_data_def for_each_append)
  show ?thesis
  proof (cases r)
    case (Done w1)
    with assms(3,4) have "?body c w1 = Raised ValueError w1"
      by (simp add: split_class_small)
    with Done run show ?thesis
      by (simp add: and_then_def)
  next
    case (Raised e w1)
    with run show ?thesis
      by (simp add: and_then_def)
  qed
qed

theorem small_class_halts_split_witness:
  "os_listdir (files two_class_world) [''in''] = Inr ([''cat''] @ ''fox'' # [''owl'']) \<and>
   for_each (split_class (train_test_split identity_rng) [''in''] [''tr''] [''va''] [''te'']
      default_train_ratio default_val_ratio) [''cat''] two_class_world = Done after_cat_world \<and>
   isdir (files after_cat_world) ([''in''] @ [''fox'']) \<and>
   length (listdir (files after_cat_world) ([''in''] @ [''fox''])) < 2 \<and>
   split_data (train_test_split identity_rng) [''in''] [''tr''] [''va''] [''te'']
         default_train_ratio default_val_ratio two_class_world =
   Raised ValueError after_cat_world"
proof -
  let ?r = "for_each (split_class (train_test_split identity_rng) [''in''] [''tr''] [''va''] [''te'']
                 default_train_ratio default_val_ratio) [''cat''] two_class_world"
  have h1: "os_listdir (files two_class_world) [''in''] = Inr ([''cat''] @ ''fox'' # [''owl''])"
    by code_simp
  have r: "?r = Done after_cat_world"
    by code_simp
  have h3: "isdir (files (world_of ?r)) ([''in''] @ [''fox''])"
    unfolding r by code_simp
  have h4: "length (listdir (files (world_of ?r)) ([''in''] @ [''fox''])) < 2"
    unfolding r by code_simp
  have "split_data (train_test_split identity_rng) [''in''] [''tr''] [''va''] [''te'']
         default_train_ratio default_val_ratio two_class_world =
        Raised ValueError after_cat_world"
    using small_class_halts_split [OF h1 refl h3 h4] unfolding r by simp
  with h1 r h3 h4 show ?thesis
    unfolding r world_of.simps by blast
qed

section \<open>The splitter copies and keeps the source\<close>

lemma copy_image_effect:
  assumes "copy_image class_path dst_dir c n w = Done w'"
  shows "\<exists>x. lookup (files w) (class_path @ [n]) = Some (File x) \<and>
             lookup (files w') (class_path @ [n]) = Some (File x) \<and>
             isdir (files w') (dst_dir @ [c]) \<and>
             (if isdir (files w) (dst_dir @ [c, n])
              then lookup (files w') (dst_dir @ [c, n, n]) = Some (File x)
              else lookup (files w') (dst_dir @ [c, n]) = Some (File x))"
proof -
  let ?src = "class_path @ [n]" and ?dst = "dst_dir @ [c, n]"
  from assms obtain fs1 where mk: "os_makedirs (files w) (dst_dir @ [c]) = Inr fs1"
    and cp: "shutil_copy fs1 ?src ?dst = Inr (files w')"
    by (auto simp: copy_image_def split: sum.splits)
  have l1: "lookup fs1 q = (if prefix q (dst_dir @ [c]) then Some Dir else lookup (files w) q)" for q
    using mk by (rule os_makedirs_lookup)
  from shutil_copy_written [OF cp] obtain x p where
    p: "p = ?dst \<and> \<not> isdir fs1 ?dst \<or> p = ?dst @ [last ?src] \<and> isdir fs1 ?dst"
    and ne: "p \<noteq> ?src" and src: "lookup fs1 ?src = Some (File x)"
    and wr: "write_file fs1 p x = Inr (files w')" by blast
  have l2: "lookup (files w') q = (if q = p then Some (File x) else lookup fs1 q)" for q
    using wr by (rule write_file_lookup)
  have dst_same: "isdir fs1 ?dst = isdir (files w) ?dst"
    by (simp add: isdir_def l1)
  from src have src0: "lookup (files w) ?src = Some (File x)"
    by (simp add: l1 split: if_splits)
  moreover have "lookup (files w') ?src = Some (File x)"
    using ne src by (simp add: l2)
  moreover have "isdir (files w') (dst_dir @ [c])"
    using p by (auto simp: isdir_def l2 l1)
  moreover have "if isdir (files w) ?dst
              then lookup (files w') (dst_dir @ [c, n, n]) = Some (File x)
              else lookup (files w') ?dst = Some (File x)"
    using p dst_same by (auto simp: l2)
  ultimately show ?thesis by blast
qed

lemma each_copied_from:
  assumes "copied_into fs fs' cp d names"
    and "\<forall>y\<in>set names. \<exists>x. lookup fs (cp @ [y]) = Some (File x)"
    and "\<And>y. lookup fs' (cp @ [y]) = lookup fs (cp @ [y])"
  shows "each_copied fs fs' cp d names"
  unfolding each_copied_def
proof
  fix y assume y: "y \<in> set names"
  with assms(2) obtain x where x: "lookup fs (cp @ [y]) = Some (File x)" by blast
  from y assms(1) have "isdir fs' d"
    by (auto simp: copied_into_def)
  moreover from assms(1) y x have "lookup fs' (d @ [y]) = Some (File x)" if "\<not> isdir fs (d @ [y])"
    using that by (simp add: copied_into_def)
  ultimately show "\<exists>x. lookup fs (cp @ [y]) = Some (File x) \<and>
        lookup fs' (cp @ [y]) = Some (File x) \<and> isdir fs' d \<and>
        (\<not> isdir fs (d @ [y]) \<longrightarrow> lookup fs' (d @ [y]) = Some (File x))"
    using x assms(3) by auto
qed

text \<open>
  C7. When no target root lies in the source tree and the source root lies in no target
  tree, \<^verbatim>\<open>split_data\<close> leaves the source tree as it was, however the pass ends: every
  path below the source root holds the same node, and every directory there lists the
  same names, as before. When moreover the three target roots lie in separate trees and
  the pass runs to its end, then for every class directory the three subsets are those
  of the two calls of the split function, every name in a subset is a file of the class
  that is still there with its content, the class directory of the subset's target
  root exists, and it holds a file of the same name and content (unless a directory of
  that name was in the way). Each single copy, in any pass, leaves the source file in
  place with its content, makes sure the class directory of the target exists, and
  stores the same content under the file's name there (inside the destination, should
  that name be an existing directory).
\<close>

theorem split_data_copies_and_keeps_source:
  fixes w :: "('c, 'g) world"
  assumes "disjoint_trees source_dir train_dir"
    and "disjoint_trees source_dir val_dir"
    and "disjoint_trees source_dir test_dir"
  shows "(\<forall>q. prefix source_dir q \<longrightarrow>
            lookup (files (world_of (split_data tts source_dir train_dir val_dir test_dir
               train_ratio val_ratio w))) q = lookup (files w) q \<and>
            listdir (files (world_of (split_data tts source_dir train_dir val_dir test_dir
               train_ratio val_ratio w))) q = listdir (files w) q) \<and>
         (\<forall>w' c. disjoint_trees train_dir val_dir \<and> disjoint_trees train_dir test_dir \<and>
                 disjoint_trees val_dir test_dir \<and>
                 split_data tts source_dir train_dir val_dir test_dir train_ratio val_ratio w =
                   Done w' \<and>
                 isdir (files w) (source_dir @ [c]) \<longrightarrow>
            (\<exists>train val test g g'.
               partition_images tts train_ratio val_ratio
                 (listdir (files w) (source_dir @ [c])) g = (Inr (train, val, test), g') \<and>
               each_copied (files w) (files w') (source_dir @ [c]) (train_dir @ [c]) train \<and>
               each_copied (files w) (files w') (source_dir @ [c]) (val_dir @ [c]) val \<and>
               each_copied (files w) (files w') (source_dir @ [c]) (test_dir @ [c]) test)) \<and>
         (\<forall>class_path dst_dir c n. \<forall>v v' :: ('c, 'g) world.
            copy_image class_path dst_dir c n v = Done v' \<longrightarrow>
            (\<exists>x. lookup (files v) (class_path @ [n]) = Some (File x) \<and>
                 lookup (files v') (class_path @ [n]) = Some (File x) \<and>
                 isdir (files v') (dst_dir @ [c]) \<and>
                 (if isdir (files v) (dst_dir @ [c, n])
                  then lookup (files v') (dst_dir @ [c, n, n]) = Some (File x)
                  else lookup (files v') (dst_dir @ [c, n]) = Some (File x))))"
proof (intro conjI allI impI)
  let ?run = "split_data tts source_dir train_dir val_dir test_dir train_ratio val_ratio w"
  have frame: "same_on (prefix source_dir) (files w) (files (world_of ?run))"
    using assms by (intro split_data_frame disjoint_trees_untouched)
  {
    fix q assume q: "prefix source_dir q"
    from frame q show "lookup (files (world_of ?run)) q = lookup (files w) q"
      by (rule same_on_lookup)
    from frame q show "listdir (files (world_of ?run)) q = listdir (files w) q"
      by (auto intro!: same_on_listdir [where P = "prefix source_dir"])
  }
  {
    fix w' c
    assume a: "disjoint_trees train_dir val_dir \<and> disjoint_trees train_dir test_dir \<and>
                 disjoint_trees val_dir test_dir \<and> ?run = Done w' \<and>
                 isdir (files w) (source_dir @ [c])"
    then have run: "?run = Done w'" and dir: "isdir (files w) (source_dir @ [c])" by simp_all
    from a assms have sep: "separate_roots source_dir train_dir val_dir test_dir"
      by (simp add: separate_roots_def)
    let ?cp = "source_dir @ [c]"
    from split_pass_copied [OF run dir sep] obtain x y z g g' where
      part: "partition_images tts train_ratio val_ratio (listdir (files w) ?cp) g =
               (Inr (x, y, z), g')"
      and cx: "copied_into (files w) (files w') ?cp (train_dir @ [c]) x"
      and cy: "copied_into (files w) (files w') ?cp (val_dir @ [c]) y"
      and cz: "copied_into (files w) (files w') ?cp (test_dir @ [c]) z"
      and fs: "\<forall>n\<in>set x \<union> set y \<union> set z. \<exists>k. lookup (files w) (source_dir @ [c, n]) = Some (File k)"
      by blast
    have keep: "lookup (files w') (?cp @ [n]) = lookup (files w) (?cp @ [n])" for n
      using frame run by (simp add: same_on_lookup)
    from fs have "\<forall>n\<in>set x. \<exists>k. lookup (files w) (?cp @ [n]) = Some (File k)"
      and "\<forall>n\<in>set y. \<exists>k. lookup (files w) (?cp @ [n]) = Some (File k)"
      and "\<forall>n\<in>set z. \<exists>k. lookup (files w) (?cp @ [n]) = Some (File k)"
      by simp_all
    with cx cy cz keep
    have "each_copied (files w) (files w') ?cp (train_dir @ [c]) x"
      and "each_copied (files w) (files w') ?cp (val_dir @ [c]) y"
      and "each_copied (files w) (files w') ?cp (test_dir @ [c]) z"
      by (auto intro!: each_copied_from)
    with part show "\<exists>train val test g g'.
               partition_images tts train_ratio val_ratio
                 (listdir (files w) (source_dir @ [c])) g = (Inr (train, val, test), g') \<and>
               each_copied (files w) (files w') (source_dir @ [c]) (train_dir @ [c]) train \<and>
               each_copied (files w) (files w') (source_dir @ [c]) (val_dir @ [c]) val \<and>
               each_copied (files w) (files w') (source_dir @ [c]) (test_dir @ [c]) test"
      by blast
  }
  {
    fix class_path dst_dir c n and v v' :: "('c, 'g) world"
    assume "copy_image class_path dst_dir c n v = Done v'"
    then show "\<exists>x. lookup (files v) (class_path @ [n]) = Some (File x) \<and>
                 lookup (files v') (class_path @ [n]) = Some (File x) \<and>
                 isdir (files v') (dst_dir @ [c]) \<and>
                 (if isdir (files v) (dst_dir @ [c, n])
                  then lookup (files v') (dst_dir @ [c, n, n]) = Some (File x)
                  else lookup (files v') (dst_dir @ [c, n]) = Some (File x))"
      by (rule copy_image_effect)
  }
qed

theorem split_data_copies_and_keeps_source_witness:
  "disjoint_trees [''in''] [''tr''] \<and> disjoint_trees [''in''] [''va''] \<and>
   disjoint_trees [''in''] [''te''] \<and> disjoint_trees [''tr''] [''va''] \<and>
   disjoint_trees [''tr''] [''te''] \<and> disjoint_trees [''va''] [''te''] \<and>
   prefix [''in''] [''in'', ''cat''] \<and>
   is_Done (split_data (train_test_split parity_rng) [''in''] [''tr''] [''va''] [''te'']
      default_train_ratio default_val_ratio (cat_world 0)) \<and>
   isdir (files (cat_world 0)) ([''in''] @ [''cat'']) \<and>
   is_Done (copy_image [''in'', ''cat''] [''tr''] ''cat'' ''3.jpg'' (cat_world 0)) \<and>
   lookup (files (world_of (split_data (train_test_split parity_rng) [''in''] [''tr''] [''va'']
      [''te''] default_train_ratio default_val_ratio (cat_world 0)))) [''in'', ''cat''] = Some Dir \<and>
   listdir (files (world_of (split_data (train_test_split parity_rng) [''in''] [''tr''] [''va'']
      [''te''] default_train_ratio default_val_ratio (cat_world 0)))) [''in'', ''cat''] =
     [''1.jpg'', ''2.jpg'', ''3.jpg'', ''4.jpg''] \<and>
   (\<exists>train val test g g'.
      partition_images (train_test_split parity_rng) default_train_ratio default_val_ratio
        (listdir (files (cat_world 0)) ([''in''] @ [''cat''])) g = (Inr (train, val, test), g') \<and>
      each_copied (files (cat_world 0))
        (files (world_of (split_data (train_test_split parity_rng) [''in''] [''tr''] [''va'']
           [''te''] default_train_ratio default_val_ratio (cat_world 0))))
        ([''in''] @ [''cat'']) ([''tr''] @ [''cat'']) train \<and>
      each_copied (files (cat_world 0))
        (files (world_of (split_data (train_test_split parity_rng) [''in''] [''tr''] [''va'']
           [''te''] default_train_ratio default_val_ratio (cat_world 0))))
        ([''in''] @ [''cat'']) ([''va''] @ [''cat'']) val \<and>
      each_copied (files (cat_world 0))
        (files (world_of (split_data (train_test_split parity_rng) [''in''] [''tr''] [''va'']
           [''te''] default_train_ratio default_val_ratio (cat_world 0))))
        ([''in''] @ [''cat'']) ([''te''] @ [''cat'']) test) \<and>
   filter (\<lambda>e. \<not> prefix [''in''] (fst e))
     (files (world_of (split_data (train_test_split parity_rng) [''in''] [''tr''] [''va'']
        [''te''] default_train_ratio default_val_ratio (cat_world 0)))) =
     [([''tr''], Dir), ([''tr'', ''cat''], Dir),
      ([''tr'', ''cat'', ''3.jpg''], File 13), ([''tr'', ''cat'', ''4.jpg''], File 14),
      ([''va''], Dir), ([''va'', ''cat''], Dir), ([''va'', ''cat'', ''2.jpg''], File 12),
      ([''te''], Dir), ([''te'', ''cat''], Dir), ([''te'', ''cat'', ''1.jpg''], File 11)] \<and>
   lookup (files (world_of (copy_image [''in'', ''cat''] [''tr''] ''cat'' ''3.jpg'' (cat_world 0))))
     [''in'', ''cat'', ''3.jpg''] = Some (File 13) \<and>
   lookup (files (world_of (copy_image [''in'', ''cat''] [''tr''] ''cat'' ''3.jpg'' (cat_world 0))))
     [''tr'', ''cat'', ''3.jpg''] = Some (File 13)"
proof -
  let ?run = "split_data (train_test_split parity_rng) [''in''] [''tr''] [''va'']
      [''te''] default_train_ratio default_val_ratio (cat_world 0)"
  let ?cp = "copy_image [''in'', ''cat''] [''tr''] ''cat'' ''3.jpg'' (cat_world 0)"
  have h1: "disjoint_trees [''in''] [''tr'']" and h2: "disjoint_trees [''in''] [''va'']"
    and h3: "disjoint_trees [''in''] [''te'']" and h4: "disjoint_trees [''tr''] [''va'']"
    and h5: "disjoint_trees [''tr''] [''te'']" and h6: "disjoint_trees [''va''] [''te'']"
    by (simp_all add: disjoint_trees_def)
  have h7: "prefix [''in''] [''in'', ''cat'']" by simp
  have h8: "is_Done ?run" by code_simp
  have h9: "isdir (files (cat_world 0)) ([''in''] @ [''cat''])" by code_simp
  have h10: "is_Done ?cp" by code_simp
  have h11: "\<not> isdir (files (cat_world 0)) ([''tr''] @ [''cat'', ''3.jpg''])" by code_simp
  have l0: "lookup (files (cat_world 0)) [''in'', ''cat''] = Some Dir"
    and l1: "listdir (files (cat_world 0)) [''in'', ''cat''] = [''1.jpg'', ''2.jpg'', ''3.jpg'', ''4.jpg'']"
    and l2: "lookup (files (cat_world 0)) ([''in'', ''cat''] @ [''3.jpg'']) = Some (File 13)"
    by code_simp+
  have ev: "filter (\<lambda>e. \<not> prefix [''in''] (fst e)) (files (world_of ?run)) =
     [([''tr''], Dir), ([''tr'', ''cat''], Dir),
      ([''tr'', ''cat'', ''3.jpg''], File 13), ([''tr'', ''cat'', ''4.jpg''], File 14),
      ([''va''], Dir), ([''va'', ''cat''], Dir), ([''va'', ''cat'', ''2.jpg''], File 12),
      ([''te''], Dir), ([''te'', ''cat''], Dir), ([''te'', ''cat'', ''1.jpg''], File 11)]"
    by code_simp
  note main = split_data_copies_and_keeps_source [OF h1 h2 h3,
      where tts = "train_test_split parity_rng" and train_ratio = default_train_ratio
        and val_ratio = default_val_ratio and w = "cat_world 0"]
  from main h7 have a: "lookup (files (world_of ?run)) [''in'', ''cat''] = Some Dir \<and>
      listdir (files (world_of ?run)) [''in'', ''cat''] = [''1.jpg'', ''2.jpg'', ''3.jpg'', ''4.jpg'']"
    unfolding l0 [symmetric] l1 [symmetric] by blast
  from main h4 h5 h6 is_Done_world_of [OF h8] h9
  have b: "\<exists>train val test g g'.
      partition_images (train_test_split parity_rng) default_train_ratio default_val_ratio
        (listdir (files (cat_world 0)) ([''in''] @ [''cat''])) g = (Inr (train, val, test), g') \<and>
      each_copied (files (cat_world 0)) (files (world_of ?run))
        ([''in''] @ [''cat'']) ([''tr''] @ [''cat'']) train \<and>
      each_copied (files (cat_world 0)) (files (world_of ?run))
        ([''in''] @ [''cat'']) ([''va''] @ [''cat'']) val \<and>
      each_copied (files (cat_world 0)) (files (world_of ?run))
        ([''in''] @ [''cat'']) ([''te''] @ [''cat'']) test"
    by blast
  from main is_Done_world_of [OF h10]
  have "\<exists>x. lookup (files (cat_world 0)) ([''in'', ''cat''] @ [''3.jpg'']) = Some (File x) \<and>
          lookup (files (world_of ?cp)) ([''in'', ''cat''] @ [''3.jpg'']) = Some (File x) \<and>
          isdir (files (world_of ?cp)) ([''tr''] @ [''cat'']) \<and>
          (if isdir (files (cat_world 0)) ([''tr''] @ [''cat'', ''3.jpg''])
           then lookup (files (world_of ?cp)) ([''tr''] @ [''cat'', ''3.jpg'', ''3.jpg'']) = Some (File x)
           else lookup (files (world_of ?cp)) ([''tr''] @ [''cat'', ''3.jpg'']) = Some (File x))"
    by blast
  with h11 l2 have c: "lookup (files (world_of ?cp)) [''in'', ''cat'', ''3.jpg''] = Some (File 13) \<and>
      lookup (files (world_of ?cp)) [''tr'', ''cat'', ''3.jpg''] = Some (File 13)"
    by auto
  from a b c ev h1 h2 h3 h4 h5 h6 h7 h8 h9 h10 show ?thesis by blast
qed

section \<open>Entries of the source root that are not directories\<close>

lemma single_path_untouched:
  assumes "lookup fs (source_dir @ [name]) \<noteq> None" and "\<not> strict_prefix dst source_dir"
  shows "untouched_by (\<lambda>q. q = source_dir @ [name]) fs (dst @ [c])"
  using assms
  by (auto simp: untouched_by_def strict_prefix_def prefix_def append_eq_append_conv2
      Cons_eq_append_conv append_eq_Cons_conv)

lemma same_on_single:
  "same_on (\<lambda>q. q = p) fs fs' \<Longrightarrow> lookup fs' p = lookup fs p"
  by (simp add: same_on_lookup)

text \<open>
  C9. An entry \<open>name\<close> of the source root that is a file, not a directory, is skipped by
  each of the three passes: the pass runs exactly as it runs over the listing without
  \<open>name\<close>, and the entry still holds the same content when the pass has ended, however it
  ends. For the cleaner this holds always (so an entry that does not decode is neither
  checked nor deleted); for the standardizer and the splitter it holds when no target
  root is a proper ancestor of the source root.
\<close>

theorem non_directory_entries_skipped:
  fixes w :: "('c, 'g) world"
  assumes "os_listdir (files w) source_dir = Inr classes"
    and "lookup (files w) (source_dir @ [name]) = Some (File x)"
  shows "clean_data lib source_dir w =
           for_each (clean_class lib source_dir) (removeAll name classes) w \<and>
         lookup (files (world_of (clean_data lib source_dir w))) (source_dir @ [name]) =
           Some (File x) \<and>
         (\<not> strict_prefix target_dir source_dir \<longrightarrow>
            standardize_images lib source_dir target_dir image_size w =
              for_each (standardize_class lib source_dir target_dir image_size)
                (removeAll name classes) w \<and>
            lookup (files (world_of (standardize_images lib source_dir target_dir image_size w)))
              (source_dir @ [name]) = Some (File x)) \<and>
         (\<not> strict_prefix train_dir source_dir \<and> \<not> strict_prefix val_dir source_dir \<and>
          \<not> strict_prefix test_dir source_dir \<longrightarrow>
            split_data tts source_dir train_dir val_dir test_dir train_ratio val_ratio w =
              for_each (split_class tts source_dir train_dir val_dir test_dir train_ratio val_ratio)
                (removeAll name classes) w \<and>
            lookup (files (world_of (split_data tts source_dir train_dir val_dir test_dir
              train_ratio val_ratio w))) (source_dir @ [name]) = Some (File x))"
proof -
  let ?p = "source_dir @ [name]"
  let ?P = "\<lambda>q. q = ?p"
  let ?I = "\<lambda>v :: ('c, 'g) world. same_on ?P (files w) (files v)"
  have isfile: "lookup (files v) ?p = Some (File x)" if "?I v" for v
    using that assms(2) by (simp add: same_on_single)
  have nodir: "\<not> isdir (files v) ?p" if "?I v" for v
    using isfile [OF that] by (simp add: isdir_def)
  have ex: "lookup (files w) ?p \<noteq> None"
    using assms(2) by simp
  \<comment> \<open>cleaning\<close>
  let ?clean = "clean_class lib source_dir"
  have clean_inv: "?I (world_of (for_each ?clean cs w))" for cs
    by (rule clean_loop_frame) (simp_all add: same_on_refl)
  have clean_step: "?I (world_of (?clean c v))" if "?I v" for c v
    using clean_loop_frame [of ?P source_dir "files w" v lib "[c]"] that
    by (cases "?clean c v") simp_all
  have clean_skip: "for_each ?clean classes w = for_each ?clean (removeAll name classes) w"
  proof (rule for_each_skip [where I = ?I])
    show "?I w" by (rule same_on_refl)
  next
    fix c v assume "?I v" then show "?I (world_of (?clean c v))" by (rule clean_step)
  next
    fix v assume "?I v" then show "?clean name v = Done v"
      using nodir by (simp add: clean_class_def)
  qed
  have c1: "clean_data lib source_dir w = for_each ?clean (removeAll name classes) w"
    using assms(1) clean_skip by (simp add: clean_data_def)
  have c2: "lookup (files (world_of (clean_data lib source_dir w))) ?p = Some (File x)"
    using isfile [OF clean_inv [of classes]] assms(1) by (simp add: clean_data_def)
  \<comment> \<open>standardizing\<close>
  let ?std = "standardize_class lib source_dir target_dir image_size"
  have s: "standardize_images lib source_dir target_dir image_size w =
             for_each ?std (removeAll name classes) w \<and>
           lookup (files (world_of (standardize_images lib source_dir target_dir image_size w)))
             ?p = Some (File x)"
    if t: "\<not> strict_prefix target_dir source_dir"
  proof -
    have u: "unwritten_by ?P (files w) (target_dir @ [c])" for c
      using ex t by (intro untouched_imp_unwritten single_path_untouched)
    have inv: "?I (world_of (for_each ?std cs v))" if "?I v" for cs v
      using u that by (rule standardize_loop_frame)
    have step: "?I (world_of (?std c v))" if "?I v" for c v
      using inv [OF that, of "[c]"] by (cases "?std c v") simp_all
    have "for_each ?std classes w = for_each ?std (removeAll name classes) w"
    proof (rule for_each_skip [where I = ?I])
      show "?I w" by (rule same_on_refl)
    next
      fix c v assume "?I v" then show "?I (world_of (?std c v))" by (rule step)
    next
      fix v assume "?I v" then show "?std name v = Done v"
        using nodir by (simp add: standardize_class_def)
    qed
    moreover have "?I (world_of (for_each ?std classes w))"
      by (rule inv) (rule same_on_refl)
    ultimately show ?thesis
      using assms(1) isfile by (simp add: standardize_images_def)
  qed
  \<comment> \<open>splitting\<close>
  let ?split = "split_class tts source_dir train_dir val_dir test_dir train_ratio val_ratio"
  have p: "split_data tts source_dir train_dir val_dir test_dir train_ratio val_ratio w =
             for_each ?split (removeAll name classes) w \<and>
           lookup (files (world_of (split_data tts source_dir train_dir val_dir test_dir
              train_ratio val_ratio w))) ?p = Some (File x)"
    if t: "\<not> strict_prefix train_dir source_dir" "\<not> strict_prefix val_dir source_dir"
      "\<not> strict_prefix test_dir source_dir"
  proof -
    have u: "untouched_by ?P (files w) (train_dir @ [c])"
      "untouched_by ?P (files w) (val_dir @ [c])"
      "untouched_by ?P (files w) (test_dir @ [c])" for c
      using ex t by (simp_all add: single_path_untouched)
    have inv: "?I (world_of (for_each ?split cs v))" if "?I v" for cs v
      by (rule split_loop_frame) (use u that in auto)
    have step: "?I (world_of (?split c v))" if "?I v" for c v
      using inv [OF that, of "[c]"] by (cases "?split c v") simp_all
    have "for_each ?split classes w = for_each ?split (removeAll name classes) w"
    proof (rule for_each_skip [where I = ?I])
      show "?I w" by (rule same_on_refl)
    next
      fix c v assume "?I v" then show "?I (world_of (?split c v))" by (rule step)
    next
      fix v assume "?I v" then show "?split name v = Done v"
        using nodir by (simp add: split_class_def)
    qed
    moreover have "?I (world_of (for_each ?split classes w))"
      by (rule inv) (rule same_on_refl)
    ultimately show ?thesis
      using assms(1) isfile by (simp add: split_data_def)
  qed
  from c1 c2 s p show ?thesis by blast
qed

theorem non_directory_entries_skipped_witness:
  "os_listdir (files raw_world) [''data'', ''raw''] = Inr [''fox'', ''README''] \<and>
   lookup (files raw_world) ([''data'', ''raw''] @ [''README'']) = Some (File []) \<and>
   \<not> strict_prefix [''data'', ''processed''] [''data'', ''raw''] \<and>
   \<not> strict_prefix [''data'', ''train''] [''data'', ''raw''] \<and>
   \<not> strict_prefix [''data'', ''val''] [''data'', ''raw''] \<and>
   \<not> strict_prefix [''data'', ''test''] [''data'', ''raw''] \<and>
   verify_image toy_pil (files raw_world) [''data'', ''raw'', ''README''] \<noteq> None \<and>
   clean_data toy_pil [''data'', ''raw''] raw_world =
     for_each (clean_class toy_pil [''data'', ''raw'']) (removeAll ''README'' [''fox'', ''README''])
       raw_world \<and>
   lookup (files (world_of (clean_data toy_pil [''data'', ''raw''] raw_world)))
     ([''data'', ''raw''] @ [''README'']) = Some (File []) \<and>
   lookup (files (world_of (standardize_images toy_pil [''data'', ''raw''] [''data'', ''processed'']
     default_image_size raw_world))) ([''data'', ''raw''] @ [''README'']) = Some (File []) \<and>
   lookup (files (world_of (split_data (train_test_split identity_rng) [''data'', ''raw'']
     [''data'', ''train''] [''data'', ''val''] [''data'', ''test'']
     default_train_ratio default_val_ratio raw_world))) ([''data'', ''raw''] @ [''README'']) =
     Some (File [])"
proof -
  have h1: "os_listdir (files raw_world) [''data'', ''raw''] = Inr [''fox'', ''README'']"
    by code_simp
  have h2: "lookup (files raw_world) ([''data'', ''raw''] @ [''README'']) = Some (File [])"
    by code_simp
  have h3: "\<not> strict_prefix [''data'', ''processed''] [''data'', ''raw'']"
    "\<not> strict_prefix [''data'', ''train''] [''data'', ''raw'']"
    "\<not> strict_prefix [''data'', ''val''] [''data'', ''raw'']"
    "\<not> strict_prefix [''data'', ''test''] [''data'', ''raw'']"
    by (simp_all add: strict_prefix_def)
  have h4: "verify_image toy_pil (files raw_world) [''data'', ''raw'', ''README''] \<noteq> None"
    by code_simp
  note main = non_directory_entries_skipped [OF h1 h2, of toy_pil "[''data'', ''processed'']"
      default_image_size "[''data'', ''train'']" "[''data'', ''val'']" "[''data'', ''test'']"
      "train_test_split identity_rng" default_train_ratio default_val_ratio]
  from main h1 h2 h3 h4 show ?thesis
    by blast
qed

section \<open>The cleaner\<close>


lemma verify_image_missing: "lookup fs p = None \<Longrightarrow> verify_image lib fs p \<noteq> None"
  by (simp add: verify_image_def Image_open_def)












section \<open>The sizes of the three subsets\<close>

text \<open>
  C2. With the default ratios the test size handed to the second call is
  \<open>0.1 / 0.5\<close> (in floats, \<open>0.20000000000000007\<close>) of the remainder, not \<open>0.1 / 0.3\<close> of
  it: the divisor is \<^verbatim>\<open>val_ratio + (1 - train_ratio)\<close>. A class of a hundred files is
  split into 70, 23 and 7 files, not into 70, 20 and 10.
\<close>

theorem default_split_of_hundred_files:
  "second_test_size default_train_ratio default_val_ratio =
     Inr (1801439850948199 / 9007199254740992) \<and>
   split_sizes 100 None (Some default_train_ratio) = Inr (70, 30) \<and>
   split_sizes 30 (Some (1801439850948199 / 9007199254740992)) None = Inr (23, 7) \<and>
   (case fst (partition_images (train_test_split identity_rng) default_train_ratio
                default_val_ratio hundred_images ()) of
      Inl err \<Rightarrow> False
    | Inr (train, val, test) \<Rightarrow> length train = 70 \<and> length val = 23 \<and> length test = 7)"
  by code_simp

section \<open>What the standardizer writes and what it skips\<close>

text \<open>
  C3. Let \<^verbatim>\<open>standardize_images\<close> run to its end, and let \<open>n\<close> be an entry of the class
  directory \<open>c\<close> that is processed successfully: on the files as they are once the
  target directory of \<open>c\<close> is made (\<open>fs1\<close>), opening, resizing and saving it succeeds.
  Then in the end the target root holds, in the directory named \<open>c\<close> and under the same
  name \<open>n\<close>, a file that decodes to an image of exactly the configured size. This
  rests on two properties of the image library: \<^verbatim>\<open>resize\<close> returns an image of the size
  asked for, and a saved image decodes with the size it had. The size asked for is the
  configured one whatever the size of the source image was, so its aspect ratio plays no
  part.
\<close>

theorem standardized_image_is_written:
  fixes w :: "('c, 'g) world"
  assumes "standardize_images lib source_dir target_dir image_size w = Done w'"
    and "isdir (files w) (source_dir @ [c])"
    and "os_makedirs (files w) (target_dir @ [c]) = Inr fs1"
    and "resize_and_save lib image_size fs1 (source_dir @ [c, n]) (target_dir @ [c, n]) = Inr fs2"
    and "pil_contract lib image_size"
  shows "\<exists>out k. lookup (files w') (target_dir @ [c, n]) = Some (File out) \<and>
           pil_open lib out = Inr k \<and> pil_size lib k = image_size"
proof -
  let ?p = "source_dir @ [c, n]" and ?q = "target_dir @ [c, n]"
  from resize_and_save_result [OF assms(4)] obtain img img' out where
    o: "Image_open lib fs1 ?p = Inr img" and r: "pil_resize lib img image_size = Inr img'"
    and s: "pil_save lib img' ?q = Saved out" and wr: "write_file fs1 ?q out = Inr fs2"
    by blast
  from o obtain x where "lookup fs1 ?p = Some (File x)"
    by (auto simp: Image_open_def split: option.splits node.splits)
  then have ex: "lookup (files w) ?p \<noteq> None"
    using os_makedirs_lookup [OF assms(3), of ?p] by (auto split: if_splits)
  from wr have "lookup fs2 ?q = Some (File out)"
    by (simp add: write_file_lookup)
  with standardize_pass_file(1) [OF assms(1,2) ex assms(3,4)]
  have "lookup (files w') ?q = Some (File out)" by simp
  moreover from r assms(5) have "pil_size lib img' = image_size"
    unfolding pil_contract_def by blast
  moreover from s assms(5) obtain k where "pil_open lib out = Inr k"
    "pil_size lib k = pil_size lib img'"
    unfolding pil_contract_def by blast
  ultimately show ?thesis by auto
qed

theorem standardized_image_is_written_witness:
  "is_Done (standardize_images toy_pil [''data'', ''raw''] [''data'', ''processed'']
      default_image_size raw_world) \<and>
   isdir (files raw_world) ([''data'', ''raw''] @ [''fox'']) \<and>
   os_makedirs (files raw_world) ([''data'', ''processed''] @ [''fox'']) = Inr raw_with_target \<and>
   resize_and_save toy_pil default_image_size raw_with_target
     ([''data'', ''raw''] @ [''fox'', ''a.jpg'']) ([''data'', ''processed''] @ [''fox'', ''a.jpg'']) =
     Inr (raw_with_target @ [([''data'', ''processed'', ''fox'', ''a.jpg''], File [224, 224])]) \<and>
   pil_contract toy_pil default_image_size \<and>
   (\<exists>out k. lookup (files (world_of (standardize_images toy_pil [''data'', ''raw'']
        [''data'', ''processed''] default_image_size raw_world)))
        ([''data'', ''processed''] @ [''fox'', ''a.jpg'']) = Some (File out) \<and>
      pil_open toy_pil out = Inr k \<and> pil_size toy_pil k = (224, 224))"
proof -
  let ?run = "standardize_images toy_pil [''data'', ''raw''] [''data'', ''processed'']
      default_image_size raw_world"
  have h1: "is_Done ?run" by code_simp
  have h2: "isdir (files raw_world) ([''data'', ''raw''] @ [''fox''])" by code_simp
  have h3: "os_makedirs (files raw_world) ([''data'', ''processed''] @ [''fox'']) =
      Inr raw_with_target" by code_simp
  have h4: "resize_and_save toy_pil default_image_size raw_with_target
     ([''data'', ''raw''] @ [''fox'', ''a.jpg'']) ([''data'', ''processed''] @ [''fox'', ''a.jpg'']) =
     Inr (raw_with_target @ [([''data'', ''processed'', ''fox'', ''a.jpg''], File [224, 224])])"
    by code_simp
  have h5: "pil_contract toy_pil default_image_size"
    by (auto simp: pil_contract_def toy_pil_def split: if_splits)
  from standardized_image_is_written [OF is_Done_world_of [OF h1] h2 h3 h4 h5]
  have "\<exists>out k. lookup (files (world_of ?run))
        ([''data'', ''processed''] @ [''fox'', ''a.jpg'']) = Some (File out) \<and>
      pil_open toy_pil out = Inr k \<and> pil_size toy_pil k = (224, 224)"
    by (simp add: default_image_size_def)
  with h1 h2 h3 h4 h5 show ?thesis by blast
qed

text \<open>
  C6. Let \<^verbatim>\<open>standardize_images\<close> run to its end, and let \<open>n\<close> be an entry of the class
  directory \<open>c\<close> for which opening, resizing or saving fails with the message \<open>m\<close> (on the
  files \<open>fs1\<close> as they are once the target directory of \<open>c\<close> is made), leaving the
  files \<open>fs2\<close>. Then the line \<^verbatim>\<open>Error processing <path>: <m>\<close> has been printed. When
  the target root is not the source root, the source entry is as it was. When the
  target path held nothing before, it holds nothing afterwards: no output was written.
  When the failure came before the target was opened for writing, the target path
  holds what it held before; in every case it holds what the failing call left there.
  No failure of a file halts the pass: the loop over the files of a class always runs
  to its end.
\<close>

theorem failed_image_is_logged_and_skipped:
  fixes w :: "('c, 'g) world"
  assumes "standardize_images lib source_dir target_dir image_size w = Done w'"
    and "isdir (files w) (source_dir @ [c])"
    and "lookup (files w) (source_dir @ [c, n]) \<noteq> None"
    and "os_makedirs (files w) (target_dir @ [c]) = Inr fs1"
    and "resize_and_save lib image_size fs1 (source_dir @ [c, n]) (target_dir @ [c, n]) =
           Inl (m, fs2)"
  shows "''Error processing '' @ path_str (source_dir @ [c, n]) @ '': '' @ m \<in> set (stdout w') \<and>
         (source_dir \<noteq> target_dir \<longrightarrow>
            lookup (files w') (source_dir @ [c, n]) = lookup (files w) (source_dir @ [c, n])) \<and>
         (lookup (files w) (target_dir @ [c, n]) = None \<longrightarrow>
            lookup (files w') (target_dir @ [c, n]) = None) \<and>
         (fs2 = fs1 \<longrightarrow>
            lookup (files w') (target_dir @ [c, n]) = lookup (files w) (target_dir @ [c, n])) \<and>
         lookup (files w') (target_dir @ [c, n]) = lookup fs2 (target_dir @ [c, n]) \<and>
         (\<forall>class_path target_class_dir imgs. \<forall>v :: ('c, 'g) world.
            is_Done (for_each (standardize_image lib image_size class_path target_class_dir)
              imgs v))"
proof -
  let ?p = "source_dir @ [c, n]" and ?q = "target_dir @ [c, n]"
  have "is_Done (for_each (standardize_image lib image_size cp tcd) imgs v)"
    for cp tcd imgs and v :: "('c, 'g) world"
  proof (induction imgs arbitrary: v)
    case Nil
    show ?case by simp
  next
    case (Cons y ys)
    from standardize_image_step [of lib image_size cp tcd y v] obtain v1 where
      "standardize_image lib image_size cp tcd y v = Done v1" by blast
    with Cons.IH [of v1] show ?case by simp
  qed
  moreover note main = standardize_pass_file(2) [OF assms]
  moreover have q1: "lookup fs1 ?q = lookup (files w) ?q"
    using os_makedirs_lookup [OF assms(4), of ?q] by (simp add: not_prefix_longer)
  moreover have "lookup fs2 ?q = None" if "lookup (files w) ?q = None"
    using resize_and_save_fails_absent [OF assms(5)] that q1 by simp
  ultimately show ?thesis
    by (auto simp: error_line_def)
qed

theorem failed_image_is_logged_and_skipped_witness:
  "is_Done (standardize_images toy_pil [''data'', ''raw''] [''data'', ''processed'']
      default_image_size raw_world) \<and>
   isdir (files raw_world) ([''data'', ''raw''] @ [''fox'']) \<and>
   lookup (files raw_world) ([''data'', ''raw''] @ [''fox'', ''b.jpg'']) \<noteq> None \<and>
   os_makedirs (files raw_world) ([''data'', ''processed''] @ [''fox'']) = Inr raw_with_target \<and>
   resize_and_save toy_pil default_image_size raw_with_target
     ([''data'', ''raw''] @ [''fox'', ''b.jpg'']) ([''data'', ''processed''] @ [''fox'', ''b.jpg'']) =
     Inl (''cannot identify image file '' @ quoted ''data/raw/fox/b.jpg'', raw_with_target) \<and>
   [''data'', ''raw''] \<noteq> [''data'', ''processed''] \<and>
   lookup (files raw_world) ([''data'', ''processed''] @ [''fox'', ''b.jpg'']) = None \<and>
   ''Error processing data/raw/fox/b.jpg: cannot identify image file '' @
       quoted ''data/raw/fox/b.jpg''
     \<in> set (stdout (world_of (standardize_images toy_pil [''data'', ''raw'']
           [''data'', ''processed''] default_image_size raw_world))) \<and>
   lookup (files (world_of (standardize_images toy_pil [''data'', ''raw'']
       [''data'', ''processed''] default_image_size raw_world)))
     ([''data'', ''processed''] @ [''fox'', ''b.jpg'']) = None \<and>
   lookup (files (world_of (standardize_images toy_pil [''data'', ''raw'']
       [''data'', ''processed''] default_image_size raw_world)))
     ([''data'', ''raw''] @ [''fox'', ''b.jpg'']) = Some (File [])"
proof -
  let ?run = "standardize_images toy_pil [''data'', ''raw''] [''data'', ''processed'']
      default_image_size raw_world"
  let ?m = "''cannot identify image file '' @ quoted ''data/raw/fox/b.jpg''"
  have h1: "is_Done ?run" by code_simp
  have h2: "isdir (files raw_world) ([''data'', ''raw''] @ [''fox''])" by code_simp
  have h3: "lookup (files raw_world) ([''data'', ''raw''] @ [''fox'', ''b.jpg'']) \<noteq> None"
    by code_simp
  have h4: "os_makedirs (files raw_world) ([''data'', ''processed''] @ [''fox'']) =
      Inr raw_with_target" by code_simp
  have h5: "resize_and_save toy_pil default_image_size raw_with_target
     ([''data'', ''raw''] @ [''fox'', ''b.jpg'']) ([''data'', ''processed''] @ [''fox'', ''b.jpg'']) =
     Inl (?m, raw_with_target)"
    by code_simp
  have h6: "[''data'', ''raw''] \<noteq> [''data'', ''processed'']" by simp
  have l1: "lookup (files raw_world) ([''data'', ''processed''] @ [''fox'', ''b.jpg'']) = None"
    and l2: "lookup (files raw_world) ([''data'', ''raw''] @ [''fox'', ''b.jpg'']) = Some (File [])"
    by code_simp+
  have line: "''Error processing '' @ path_str ([''data'', ''raw''] @ [''fox'', ''b.jpg'']) @ '': '' @ ?m =
      ''Error processing data/raw/fox/b.jpg: cannot identify image file '' @
        quoted ''data/raw/fox/b.jpg''"
    by code_simp
  from failed_image_is_logged_and_skipped [OF is_Done_world_of [OF h1] h2 h3 h4 h5] h6 l1
  have "''Error processing '' @ path_str ([''data'', ''raw''] @ [''fox'', ''b.jpg'']) @ '': '' @ ?m
     \<in> set (stdout (world_of ?run)) \<and>
     lookup (files (world_of ?run)) ([''data'', ''processed''] @ [''fox'', ''b.jpg'']) = None \<and>
     lookup (files (world_of ?run)) ([''data'', ''raw''] @ [''fox'', ''b.jpg'']) =
       lookup (files raw_world) ([''data'', ''raw''] @ [''fox'', ''b.jpg''])"
    by blast
  then have "''Error processing data/raw/fox/b.jpg: cannot identify image file '' @
       quoted ''data/raw/fox/b.jpg'' \<in> set (stdout (world_of ?run)) \<and>
     lookup (files (world_of ?run)) ([''data'', ''processed''] @ [''fox'', ''b.jpg'']) = None \<and>
     lookup (files (world_of ?run)) ([''data'', ''raw''] @ [''fox'', ''b.jpg'']) = Some (File [])"
    unfolding line l2 .
  with h1 h2 h3 h4 h5 h6 l1 show ?thesis by blast
qed

text \<open>
  The same pass over a tree whose target already holds an output for the file: the
  image has an alpha channel and cannot be encoded under its \<^verbatim>\<open>.jpg\<close> name, the failure
  is logged, and the output that was there is left empty. With the source root as the
  target root it is the source file that is left empty.
\<close>

theorem failed_save_empties_existing_file:
  "lookup (files stale_world) [''data'', ''processed'', ''fox'', ''p.jpg''] =
     Some (File [224, 224]) \<and>
   stdout (world_of (standardize_images toy_pil [''data'', ''raw''] [''data'', ''processed'']
       default_image_size stale_world)) =
     [''Error processing data/raw/fox/p.jpg: cannot write mode RGBA as JPEG''] \<and>
   lookup (files (world_of (standardize_images toy_pil [''data'', ''raw'']
       [''data'', ''processed''] default_image_size stale_world)))
     [''data'', ''processed'', ''fox'', ''p.jpg''] = Some (File []) \<and>
   lookup (files stale_world) [''data'', ''raw'', ''fox'', ''p.jpg''] = Some (File [8, 6, 1]) \<and>
   stdout (world_of (standardize_images toy_pil [''data'', ''raw''] [''data'', ''raw'']
       default_image_size stale_world)) =
     [''Error processing data/raw/fox/p.jpg: cannot write mode RGBA as JPEG''] \<and>
   lookup (files (world_of (standardize_images toy_pil [''data'', ''raw''] [''data'', ''raw'']
       default_image_size stale_world)))
     [''data'', ''raw'', ''fox'', ''p.jpg''] = Some (File [])"
  by code_simp

section \<open>The three subsets of a class\<close>

lemma copied_into_listing:
  assumes "copied_into fs fs' cp d names"
    and "\<And>y. y \<in> set names \<Longrightarrow> lookup fs (cp @ [y]) \<noteq> None"
  shows "set (listdir fs' d) = set (listdir fs d) \<union> set names"
proof -
  have "lookup fs' (d @ [y]) \<noteq> None \<longleftrightarrow> lookup fs (d @ [y]) \<noteq> None \<or> y \<in> set names" for y
    using assms by (auto simp: copied_into_def isdir_def)
  then show ?thesis
    by (auto simp: in_listdir)
qed

lemma mset3_disjoint:
  assumes "mset a + mset b + mset d = mset xs" and "distinct xs"
  shows "set a \<union> set b \<union> set d = set xs \<and> set a \<inter> set b = {} \<and> set a \<inter> set d = {} \<and>
         set b \<inter> set d = {}"
proof -
  from assms(1) have m: "mset (a @ b @ d) = mset xs" by (simp add: add.assoc)
  then have "set (a @ b @ d) = set xs" by (rule mset_eq_setD)
  moreover from m assms(2) have "distinct (a @ b @ d)"
    by (metis distinct_count_atmost_1 set_mset_mset)
  ultimately show ?thesis by auto
qed

lemma default_second_test_size:
  "second_test_size default_train_ratio default_val_ratio =
     Inr (1801439850948199 / 9007199254740992)"
  by code_simp

lemma default_first_sizes:
  "split_sizes 2 None (Some default_train_ratio) = Inr (1, 1)"
  "split_sizes 3 None (Some default_train_ratio) = Inr (2, 1)"
  by code_simp+

lemma train_test_split_one_left:
  assumes "rng_contract np" and "split_sizes (length xs) None (Some tr) = Inr (k, Suc 0)"
  shows "\<exists>a b. train_test_split np g xs None (Some tr) (Some s) = (Inr (a, b), g) \<and>
           length b \<le> 1"
proof -
  let ?n = "length xs"
  let ?p = "fst (rng_permutation np (rng_seeded np s) ?n)"
  from assms(1) have "mset ?p = mset [0..<?n]" by (simp add: rng_contract_def)
  then have "set ?p = set [0..<?n]" by (rule mset_eq_setD)
  then have "\<forall>i\<in>set ?p. i < ?n" by simp
  then have "\<not> (\<exists>i\<in>set (take k (drop (Suc 0) ?p) @ take (Suc 0) ?p). ?n \<le> i)"
    by (auto dest!: in_set_takeD in_set_dropD)
  with assms(2) show ?thesis
    by (simp add: train_test_split_def Let_def)
qed

lemma default_ratios_need_four:
  assumes "rng_contract np" and "length images < 4"
  shows "partition_images (train_test_split np) default_train_ratio default_val_ratio images g =
           (Inl ValueError, g)"
proof (cases "length images < 2")
  case True
  then show ?thesis by (rule partition_images_small)
next
  case False
  with assms(2) have "length images = 2 \<or> length images = 3" by arith
  then obtain k where "split_sizes (length images) None (Some default_train_ratio) = Inr (k, Suc 0)"
    using default_first_sizes by auto
  from train_test_split_one_left [OF assms(1) this, of g 42] obtain a b where
    first: "train_test_split np g images None (Some default_train_ratio) (Some 42) = (Inr (a, b), g)"
    and b: "length b \<le> 1" by blast
  from b have "train_test_split np g b (Some (1801439850948199 / 9007199254740992)) None None =
      (Inl ValueError, g)"
    by (intro train_test_split_small) simp
  with first show ?thesis
    by (simp add: partition_images_def default_second_test_size)
qed

lemma split_class_raises:
  fixes v :: "('c, 'g) world"
  assumes "isdir (files v) (src @ [c])"
    and "partition_images tts tr vr (listdir (files v) (src @ [c])) (global_rng v) = (Inl e, g')"
  shows "split_class tts src train val test tr vr c v = Raised e (v\<lparr>global_rng := g'\<rparr>)"
  using assms by (simp add: split_class_def os_listdir_def isdir_def)

text \<open>
  C1. The three lists of names that the two calls of the split function return for the
  listing of a class directory are pairwise disjoint, and together they hold exactly
  the names of the listing (numpy's permutation being a permutation). In a pass of
  \<^verbatim>\<open>split_data\<close> that runs to its end, with the four roots in separate trees, this holds
  for every class directory of the source and its listing at the start of the pass, and
  the three lists are the names the pass adds to the class directory of the training,
  validation and test root. A class for which a call of the split function raises gets
  no lists: the pass halts there with that exception, before anything of the class is
  copied. With the default ratios this happens to every class of fewer than four files.
\<close>

theorem split_is_a_partition:
  fixes w v :: "('c, 'g) world"
  assumes "rng_contract np"
  shows "(\<forall>images g train val test g'.
            distinct images \<and>
            partition_images (train_test_split np) train_ratio val_ratio images g =
              (Inr (train, val, test), g') \<longrightarrow>
            set train \<union> set val \<union> set test = set images \<and>
            set train \<inter> set val = {} \<and> set train \<inter> set test = {} \<and> set val \<inter> set test = {}) \<and>
         (\<forall>w' c. split_data (train_test_split np) source_dir train_dir val_dir test_dir
                   train_ratio val_ratio w = Done w' \<and>
                 isdir (files w) (source_dir @ [c]) \<and>
                 separate_roots source_dir train_dir val_dir test_dir \<longrightarrow>
            (\<exists>train val test g g'.
               partition_images (train_test_split np) train_ratio val_ratio
                 (listdir (files w) (source_dir @ [c])) g = (Inr (train, val, test), g') \<and>
               set train \<union> set val \<union> set test = set (listdir (files w) (source_dir @ [c])) \<and>
               set train \<inter> set val = {} \<and> set train \<inter> set test = {} \<and>
               set val \<inter> set test = {} \<and>
               set (listdir (files w') (train_dir @ [c])) =
                 set (listdir (files w) (train_dir @ [c])) \<union> set train \<and>
               set (listdir (files w') (val_dir @ [c])) =
                 set (listdir (files w) (val_dir @ [c])) \<union> set val \<and>
               set (listdir (files w') (test_dir @ [c])) =
                 set (listdir (files w) (test_dir @ [c])) \<union> set test)) \<and>
         (\<forall>c e g'. isdir (files v) (source_dir @ [c]) \<and>
                   partition_images (train_test_split np) train_ratio val_ratio
                     (listdir (files v) (source_dir @ [c])) (global_rng v) = (Inl e, g') \<longrightarrow>
            split_class (train_test_split np) source_dir train_dir val_dir test_dir
              train_ratio val_ratio c v = Raised e (v\<lparr>global_rng := g'\<rparr>)) \<and>
         (\<forall>images g. length images < 4 \<longrightarrow>
            partition_images (train_test_split np) default_train_ratio default_val_ratio
              images g = (Inl ValueError, g))"
proof (intro conjI allI impI)
  fix images :: "string list" and g g' train val test
  assume "distinct images \<and>
            partition_images (train_test_split np) train_ratio val_ratio images g =
              (Inr (train, val, test), g')"
  then have d: "distinct images"
    and part: "partition_images (train_test_split np) train_ratio val_ratio images g =
              (Inr (train, val, test), g')" by simp_all
  from partition_images_partition [OF assms part] d
  have "set train \<union> set val \<union> set test = set images \<and> set train \<inter> set val = {} \<and>
      set train \<inter> set test = {} \<and> set val \<inter> set test = {}"
    by (rule mset3_disjoint)
  then show "set train \<union> set val \<union> set test = set images"
    and "set train \<inter> set val = {}" and "set train \<inter> set test = {}"
    and "set val \<inter> set test = {}" by simp_all
next
  fix w' c
  assume a: "split_data (train_test_split np) source_dir train_dir val_dir test_dir
                   train_ratio val_ratio w = Done w' \<and>
                 isdir (files w) (source_dir @ [c]) \<and>
                 separate_roots source_dir train_dir val_dir test_dir"
  then have run: "split_data (train_test_split np) source_dir train_dir val_dir test_dir
                   train_ratio val_ratio w = Done w'"
    and dir: "isdir (files w) (source_dir @ [c])"
    and sep: "separate_roots source_dir train_dir val_dir test_dir" by simp_all
  let ?L = "listdir (files w) (source_dir @ [c])"
  from split_pass_copied [OF run dir sep] obtain a b d g g' where
    part: "partition_images (train_test_split np) train_ratio val_ratio ?L g = (Inr (a, b, d), g')"
    and ca: "copied_into (files w) (files w') (source_dir @ [c]) (train_dir @ [c]) a"
    and cb: "copied_into (files w) (files w') (source_dir @ [c]) (val_dir @ [c]) b"
    and cd: "copied_into (files w) (files w') (source_dir @ [c]) (test_dir @ [c]) d"
    by blast
  from partition_images_partition [OF assms part]
  have sets: "set a \<union> set b \<union> set d = set ?L \<and> set a \<inter> set b = {} \<and> set a \<inter> set d = {} \<and>
         set b \<inter> set d = {}"
    by (rule mset3_disjoint) (rule distinct_listdir)
  then have ex: "lookup (files w) ((source_dir @ [c]) @ [y]) \<noteq> None"
    if "y \<in> set a \<or> y \<in> set b \<or> y \<in> set d" for y
    using that in_listdir [of y "files w" "source_dir @ [c]"] by blast
  have "set (listdir (files w') (train_dir @ [c])) = set (listdir (files w) (train_dir @ [c])) \<union> set a"
    using ca ex by (intro copied_into_listing) auto
  moreover have "set (listdir (files w') (val_dir @ [c])) = set (listdir (files w) (val_dir @ [c])) \<union> set b"
    using cb ex by (intro copied_into_listing) auto
  moreover have "set (listdir (files w') (test_dir @ [c])) = set (listdir (files w) (test_dir @ [c])) \<union> set d"
    using cd ex by (intro copied_into_listing) auto
  ultimately show "\<exists>train val test g g'.
               partition_images (train_test_split np) train_ratio val_ratio
                 (listdir (files w) (source_dir @ [c])) g = (Inr (train, val, test), g') \<and>
               set train \<union> set val \<union> set test = set (listdir (files w) (source_dir @ [c])) \<and>
               set train \<inter> set val = {} \<and> set train \<inter> set test = {} \<and>
               set val \<inter> set test = {} \<and>
               set (listdir (files w') (train_dir @ [c])) =
                 set (listdir (files w) (train_dir @ [c])) \<union> set train \<and>
               set (listdir (files w') (val_dir @ [c])) =
                 set (listdir (files w) (val_dir @ [c])) \<union> set val \<and>
               set (listdir (files w') (test_dir @ [c])) =
                 set (listdir (files w) (test_dir @ [c])) \<union> set test"
    using part sets by blast
next
  fix c e g'
  assume "isdir (files v) (source_dir @ [c]) \<and>
                   partition_images (train_test_split np) train_ratio val_ratio
                     (listdir (files v) (source_dir @ [c])) (global_rng v) = (Inl e, g')"
  then show "split_class (train_test_split np) source_dir train_dir val_dir test_dir
              train_ratio val_ratio c v = Raised e (v\<lparr>global_rng := g'\<rparr>)"
    by (intro split_class_raises) simp_all
next
  fix images :: "string list" and g
  assume "length images < 4"
  with assms show "partition_images (train_test_split np) default_train_ratio default_val_ratio
              images g = (Inl ValueError, g)"
    by (rule default_ratios_need_four)
qed

theorem split_is_a_partition_witness:
  "rng_contract parity_rng \<and>
   distinct [''1.jpg'', ''2.jpg'', ''3.jpg'', ''4.jpg''] \<and>
   partition_images (train_test_split parity_rng) default_train_ratio default_val_ratio
     [''1.jpg'', ''2.jpg'', ''3.jpg'', ''4.jpg''] 0 =
     (Inr ([''3.jpg'', ''4.jpg''], [''2.jpg''], [''1.jpg'']), 1) \<and>
   is_Done (split_data (train_test_split parity_rng) [''in''] [''tr''] [''va''] [''te'']
      default_train_ratio default_val_ratio (cat_world 0)) \<and>
   isdir (files (cat_world 0)) ([''in''] @ [''cat'']) \<and>
   separate_roots [''in''] [''tr''] [''va''] [''te''] \<and>
   isdir (files two_image_world) ([''data'', ''processed''] @ [''fox'']) \<and>
   partition_images (train_test_split parity_rng) default_train_ratio default_val_ratio
     (listdir (files two_image_world) ([''data'', ''processed''] @ [''fox'']))
     (global_rng two_image_world) = (Inl ValueError, 0) \<and>
   length [''a.jpg'', ''c.png''] < 4 \<and>
   set [''3.jpg'', ''4.jpg''] \<union> set [''2.jpg''] \<union> set [''1.jpg''] =
     set [''1.jpg'', ''2.jpg'', ''3.jpg'', ''4.jpg''] \<and>
   set (listdir (files (world_of (split_data (train_test_split parity_rng) [''in''] [''tr'']
          [''va''] [''te''] default_train_ratio default_val_ratio (cat_world 0)))) ([''tr''] @ [''cat''])) \<union>
   set (listdir (files (world_of (split_data (train_test_split parity_rng) [''in''] [''tr'']
          [''va''] [''te''] default_train_ratio default_val_ratio (cat_world 0)))) ([''va''] @ [''cat''])) \<union>
   set (listdir (files (world_of (split_data (train_test_split parity_rng) [''in''] [''tr'']
          [''va''] [''te''] default_train_ratio default_val_ratio (cat_world 0)))) ([''te''] @ [''cat''])) =
   {''1.jpg'', ''2.jpg'', ''3.jpg'', ''4.jpg''} \<and>
   split_class (train_test_split parity_rng) [''data'', ''processed''] [''data'', ''train'']
     [''data'', ''val''] [''data'', ''test''] default_train_ratio default_val_ratio ''fox''
     two_image_world = Raised ValueError (two_image_world\<lparr>global_rng := 0\<rparr>) \<and>
   partition_images (train_test_split parity_rng) default_train_ratio default_val_ratio
     [''a.jpg'', ''c.png''] 5 = (Inl ValueError, 5)"
proof -
  let ?run = "split_data (train_test_split parity_rng) [''in''] [''tr''] [''va''] [''te'']
      default_train_ratio default_val_ratio (cat_world 0)"
  have h0: "rng_contract parity_rng"
    by (simp add: rng_contract_def parity_rng_def)
  have p1: "distinct [''1.jpg'', ''2.jpg'', ''3.jpg'', ''4.jpg'']" by simp
  have p2: "partition_images (train_test_split parity_rng) default_train_ratio default_val_ratio
     [''1.jpg'', ''2.jpg'', ''3.jpg'', ''4.jpg''] 0 =
     (Inr ([''3.jpg'', ''4.jpg''], [''2.jpg''], [''1.jpg'']), 1)" by code_simp
  have h1: "is_Done ?run" by code_simp
  have h2: "isdir (files (cat_world 0)) ([''in''] @ [''cat''])" by code_simp
  have h3: "separate_roots [''in''] [''tr''] [''va''] [''te'']"
    by (simp add: separate_roots_def disjoint_trees_def)
  have f1: "isdir (files two_image_world) ([''data'', ''processed''] @ [''fox''])" by code_simp
  have f2: "partition_images (train_test_split parity_rng) default_train_ratio default_val_ratio
     (listdir (files two_image_world) ([''data'', ''processed''] @ [''fox'']))
     (global_rng two_image_world) = (Inl ValueError, 0)" by code_simp
  have f3: "length [''a.jpg'', ''c.png''] < 4" by simp
  have e: "listdir (files (cat_world 0)) ([''tr''] @ [''cat'']) = []"
    "listdir (files (cat_world 0)) ([''va''] @ [''cat'']) = []"
    "listdir (files (cat_world 0)) ([''te''] @ [''cat'']) = []"
    by code_simp+
  have l: "set (listdir (files (cat_world 0)) ([''in''] @ [''cat''])) =
      {''1.jpg'', ''2.jpg'', ''3.jpg'', ''4.jpg''}"
    by code_simp
  note main = split_is_a_partition [OF h0, where train_ratio = default_train_ratio
      and val_ratio = default_val_ratio and w = "cat_world 0" and v = two_image_world]
  note cat = main [where source_dir = "[''in'']" and train_dir = "[''tr'']"
      and val_dir = "[''va'']" and test_dir = "[''te'']"]
  note fox = main [where source_dir = "[''data'', ''processed'']"
      and train_dir = "[''data'', ''train'']" and val_dir = "[''data'', ''val'']"
      and test_dir = "[''data'', ''test'']"]
  from cat [THEN conjunct1, rule_format, OF conjI [OF p1 p2], THEN conjunct1]
  have c1: "set [''3.jpg'', ''4.jpg''] \<union> set [''2.jpg''] \<union> set [''1.jpg''] =
     set [''1.jpg'', ''2.jpg'', ''3.jpg'', ''4.jpg'']" .
  from cat [THEN conjunct2, THEN conjunct1, rule_format,
      OF conjI [OF is_Done_world_of [OF h1] conjI [OF h2 h3]]]
  obtain train val test where
    u: "set train \<union> set val \<union> set test = set (listdir (files (cat_world 0)) ([''in''] @ [''cat'']))"
    and a: "set (listdir (files (world_of ?run)) ([''tr''] @ [''cat''])) =
             set (listdir (files (cat_world 0)) ([''tr''] @ [''cat''])) \<union> set train"
    and b: "set (listdir (files (world_of ?run)) ([''va''] @ [''cat''])) =
             set (listdir (files (cat_world 0)) ([''va''] @ [''cat''])) \<union> set val"
    and d: "set (listdir (files (world_of ?run)) ([''te''] @ [''cat''])) =
             set (listdir (files (cat_world 0)) ([''te''] @ [''cat''])) \<union> set test"
    by blast
  have "set (listdir (files (world_of ?run)) ([''tr''] @ [''cat''])) \<union>
        set (listdir (files (world_of ?run)) ([''va''] @ [''cat''])) \<union>
        set (listdir (files (world_of ?run)) ([''te''] @ [''cat''])) =
        set train \<union> set val \<union> set test"
    unfolding a b d e by simp
  also note u
  also note l
  finally have c2: "set (listdir (files (world_of ?run)) ([''tr''] @ [''cat''])) \<union>
        set (listdir (files (world_of ?run)) ([''va''] @ [''cat''])) \<union>
        set (listdir (files (world_of ?run)) ([''te''] @ [''cat''])) =
        {''1.jpg'', ''2.jpg'', ''3.jpg'', ''4.jpg''}" .
  from fox [THEN conjunct2, THEN conjunct2, THEN conjunct1, rule_format, OF conjI [OF f1 f2]]
  have c3: "split_class (train_test_split parity_rng) [''data'', ''processed''] [''data'', ''train'']
     [''data'', ''val''] [''data'', ''test''] default_train_ratio default_val_ratio ''fox''
     two_image_world = Raised ValueError (two_image_world\<lparr>global_rng := 0\<rparr>)" .
  from cat [THEN conjunct2, THEN conjunct2, THEN conjunct2, rule_format, OF f3]
  have c4: "partition_images (train_test_split parity_rng) default_train_ratio default_val_ratio
     [''a.jpg'', ''c.png''] 5 = (Inl ValueError, 5)" .
  show ?thesis
    by (intro conjI h0 p1 p2 h1 h2 h3 f1 f2 f3 c1 c2 c3 c4)
qed

text \<open>
  The class of two images of the standardized tree \<^verbatim>\<open>data/processed/fox\<close>: the first
  call keeps one name for training and leaves one, which the second call cannot
  divide. The pass halts with \<^verbatim>\<open>ValueError\<close> and the tree is as it was: the class gets no
  subsets.
\<close>

theorem two_images_are_not_split:
  "listdir (files two_image_world) [''data'', ''processed'', ''fox''] = [''a.jpg'', ''c.png''] \<and>
   split_data (train_test_split parity_rng) [''data'', ''processed''] [''data'', ''train'']
     [''data'', ''val''] [''data'', ''test''] default_train_ratio default_val_ratio two_image_world =
   Raised ValueError two_image_world"
  by code_simp

section \<open>Two runs on the same tree\<close>

text \<open>
  C5. Take two passes of \<^verbatim>\<open>split_data\<close> that run to their end, from worlds in which a class
  directory of the source lists the same names in the same order; nothing else is asked
  of the two worlds, so the second pass may be a rerun on the tree the first one left,
  and the global generator may be in any state. Then the two passes draw the same
  training subset for the class, and the names each adds to the class directory of the
  training root are the names of this subset. The other two subsets are drawn from the
  global generator and need not agree: from the states 0 and 1 of the example generator
  the same four names get the same training subset, with the validation and the test
  name exchanged.
\<close>

theorem train_assignment_is_reproducible:
  fixes w1 w2 :: "('c, 'g) world"
  assumes "split_data (train_test_split np) source_dir train_dir val_dir test_dir
             train_ratio val_ratio w1 = Done w1'"
    and "split_data (train_test_split np) source_dir train_dir val_dir test_dir
             train_ratio val_ratio w2 = Done w2'"
    and "listdir (files w1) (source_dir @ [c]) = listdir (files w2) (source_dir @ [c])"
    and "isdir (files w1) (source_dir @ [c])"
    and "isdir (files w2) (source_dir @ [c])"
    and "separate_roots source_dir train_dir val_dir test_dir"
  shows "(\<exists>train val1 test1 g1 g1' val2 test2 g2 g2'.
            partition_images (train_test_split np) train_ratio val_ratio
              (listdir (files w1) (source_dir @ [c])) g1 = (Inr (train, val1, test1), g1') \<and>
            partition_images (train_test_split np) train_ratio val_ratio
              (listdir (files w2) (source_dir @ [c])) g2 = (Inr (train, val2, test2), g2') \<and>
            copied_into (files w1) (files w1') (source_dir @ [c]) (train_dir @ [c]) train \<and>
            copied_into (files w2) (files w2') (source_dir @ [c]) (train_dir @ [c]) train \<and>
            set (listdir (files w1') (train_dir @ [c])) =
              set (listdir (files w1) (train_dir @ [c])) \<union> set train \<and>
            set (listdir (files w2') (train_dir @ [c])) =
              set (listdir (files w2) (train_dir @ [c])) \<union> set train) \<and>
         fst (partition_images (train_test_split parity_rng) default_train_ratio default_val_ratio
                [''1.jpg'', ''2.jpg'', ''3.jpg'', ''4.jpg''] 0) =
           Inr ([''3.jpg'', ''4.jpg''], [''2.jpg''], [''1.jpg'']) \<and>
         fst (partition_images (train_test_split parity_rng) default_train_ratio default_val_ratio
                [''1.jpg'', ''2.jpg'', ''3.jpg'', ''4.jpg''] 1) =
           Inr ([''3.jpg'', ''4.jpg''], [''1.jpg''], [''2.jpg''])"
proof -
  let ?cp = "source_dir @ [c]" and ?d = "train_dir @ [c]"
  from split_pass_copied [OF assms(1,4,6)] obtain a1 b1 d1 g1 h1 where
    p1: "partition_images (train_test_split np) train_ratio val_ratio
           (listdir (files w1) ?cp) g1 = (Inr (a1, b1, d1), h1)"
    and c1: "copied_into (files w1) (files w1') ?cp ?d a1"
    and f1: "\<forall>y\<in>set a1 \<union> set b1 \<union> set d1. \<exists>x. lookup (files w1) (source_dir @ [c, y]) = Some (File x)"
    by blast
  from split_pass_copied [OF assms(2,5,6)] obtain a2 b2 d2 g2 h2 where
    p2: "partition_images (train_test_split np) train_ratio val_ratio
           (listdir (files w2) ?cp) g2 = (Inr (a2, b2, d2), h2)"
    and c2: "copied_into (files w2) (files w2') ?cp ?d a2"
    and f2: "\<forall>y\<in>set a2 \<union> set b2 \<union> set d2. \<exists>x. lookup (files w2) (source_dir @ [c, y]) = Some (File x)"
    by blast
  from p1 p2 assms(3) have a: "a2 = a1"
    by (auto intro: partition_images_train_fixed)
  have n1: "lookup (files w1) (?cp @ [y]) \<noteq> None" if "y \<in> set a1" for y
    using f1 that by fastforce
  have n2: "lookup (files w2) (?cp @ [y]) \<noteq> None" if "y \<in> set a1" for y
    using f2 that unfolding a by fastforce
  have l1: "set (listdir (files w1') ?d) = set (listdir (files w1) ?d) \<union> set a1"
    using c1 n1 by (rule copied_into_listing)
  have l2: "set (listdir (files w2') ?d) = set (listdir (files w2) ?d) \<union> set a1"
    using c2 [unfolded a] n2 by (rule copied_into_listing)
  have "fst (partition_images (train_test_split parity_rng) default_train_ratio
                default_val_ratio [''1.jpg'', ''2.jpg'', ''3.jpg'', ''4.jpg''] 0) =
           Inr ([''3.jpg'', ''4.jpg''], [''2.jpg''], [''1.jpg''])"
    by code_simp
  moreover have "fst (partition_images (train_test_split parity_rng) default_train_ratio
                default_val_ratio [''1.jpg'', ''2.jpg'', ''3.jpg'', ''4.jpg''] 1) =
           Inr ([''3.jpg'', ''4.jpg''], [''1.jpg''], [''2.jpg''])"
    by code_simp
  ultimately show ?thesis
    using p1 p2 [unfolded a] c1 c2 [unfolded a] l1 l2 by blast
qed

text \<open>
  A pass and its rerun on the tree the pass left: the global generator has moved on, the
  training directory lists the same two names after both, and the validation directory,
  which held one name after the first pass, holds two after the second.
\<close>

theorem train_assignment_is_reproducible_witness:
  "split_data (train_test_split parity_rng) [''in''] [''tr''] [''va''] [''te'']
      default_train_ratio default_val_ratio (cat_world 0) = Done cat_split_world \<and>
   is_Done (split_data (train_test_split parity_rng) [''in''] [''tr''] [''va''] [''te'']
      default_train_ratio default_val_ratio cat_split_world) \<and>
   listdir (files (cat_world 0)) ([''in''] @ [''cat'']) =
     listdir (files cat_split_world) ([''in''] @ [''cat'']) \<and>
   isdir (files (cat_world 0)) ([''in''] @ [''cat'']) \<and>
   isdir (files cat_split_world) ([''in''] @ [''cat'']) \<and>
   separate_roots [''in''] [''tr''] [''va''] [''te''] \<and>
   files (cat_world 0) \<noteq> files cat_split_world \<and>
   (\<exists>train.
      set (listdir (files cat_split_world) ([''tr''] @ [''cat''])) =
        set (listdir (files (cat_world 0)) ([''tr''] @ [''cat''])) \<union> set train \<and>
      set (listdir (files (world_of (split_data (train_test_split parity_rng) [''in''] [''tr'']
            [''va''] [''te''] default_train_ratio default_val_ratio cat_split_world)))
          ([''tr''] @ [''cat''])) =
        set (listdir (files cat_split_world) ([''tr''] @ [''cat''])) \<union> set train) \<and>
   listdir (files cat_split_world) ([''tr''] @ [''cat'']) = [''3.jpg'', ''4.jpg''] \<and>
   listdir (files (world_of (split_data (train_test_split parity_rng) [''in''] [''tr'']
       [''va''] [''te''] default_train_ratio default_val_ratio cat_split_world)))
     ([''tr''] @ [''cat'']) = [''3.jpg'', ''4.jpg''] \<and>
   listdir (files cat_split_world) ([''va''] @ [''cat'']) = [''2.jpg''] \<and>
   listdir (files (world_of (split_data (train_test_split parity_rng) [''in''] [''tr'']
       [''va''] [''te''] default_train_ratio default_val_ratio cat_split_world)))
     ([''va''] @ [''cat'']) = [''2.jpg'', ''1.jpg'']"
proof -
  let ?split = "split_data (train_test_split parity_rng) [''in''] [''tr''] [''va''] [''te'']
      default_train_ratio default_val_ratio"
  have h1: "?split (cat_world 0) = Done cat_split_world" by code_simp
  have h2: "is_Done (?split cat_split_world)" by code_simp
  have h3: "listdir (files (cat_world 0)) ([''in''] @ [''cat'']) =
      listdir (files cat_split_world) ([''in''] @ [''cat''])"
    by code_simp
  have h4: "isdir (files (cat_world 0)) ([''in''] @ [''cat''])" by code_simp
  have h5: "isdir (files cat_split_world) ([''in''] @ [''cat''])" by code_simp
  have h6: "separate_roots [''in''] [''tr''] [''va''] [''te'']"
    by (simp add: separate_roots_def disjoint_trees_def)
  have h7: "files (cat_world 0) \<noteq> files cat_split_world" by code_simp
  have e1: "listdir (files cat_split_world) ([''tr''] @ [''cat'']) = [''3.jpg'', ''4.jpg'']"
    and e2: "listdir (files (world_of (?split cat_split_world))) ([''tr''] @ [''cat'']) =
      [''3.jpg'', ''4.jpg'']"
    and e3: "listdir (files cat_split_world) ([''va''] @ [''cat'']) = [''2.jpg'']"
    and e4: "listdir (files (world_of (?split cat_split_world))) ([''va''] @ [''cat'']) =
      [''2.jpg'', ''1.jpg'']"
    by code_simp+
  from train_assignment_is_reproducible [OF h1 is_Done_world_of [OF h2] h3 h4 h5 h6,
      THEN conjunct1]
  have c: "\<exists>train.
      set (listdir (files cat_split_world) ([''tr''] @ [''cat''])) =
        set (listdir (files (cat_world 0)) ([''tr''] @ [''cat''])) \<union> set train \<and>
      set (listdir (files (world_of (?split cat_split_world))) ([''tr''] @ [''cat''])) =
        set (listdir (files cat_split_world) ([''tr''] @ [''cat''])) \<union> set train"
    by blast
  show ?thesis
    by (intro conjI h1 h2 h3 h4 h5 h6 h7 c e1 e2 e3 e4)
qed

section \<open>Which class directories of the targets exist\<close>

lemma standardize_pass_dir:
  fixes w :: "('c, 'g) world"
  assumes run: "standardize_images lib src target sz w = Done w'"
    and dir: "isdir (files w) (src @ [c])"
  shows "isdir (files w') (target @ [c])"
proof -
  let ?body = "standardize_class lib src target sz"
  have persists: "isdir (files u') d"
    if "isdir (files u) d" "?body c' u = Done u'" for d c' and u u' :: "('c, 'g) world"
  proof -
    have "unwritten_by (\<lambda>r. r = d) (files u) (target @ [c'])"
      using that(1) by (auto simp: unwritten_by_def isdir_def)
    then have "same_on (\<lambda>r. r = d) (files u) (files (world_of (?body c' u)))"
      by (rule standardize_class_frame)
    with that show ?thesis by (simp add: same_on_isdir)
  qed
  have cin: "c \<in> set (listdir (files w) src)"
    using dir by (rule isdir_in_listdir)
  from standardize_images_run [OF run] cin distinct_listdir dir
  show ?thesis
  proof (rule for_each_establish [where R = "\<lambda>u :: ('c, 'g) world. isdir (files u) (src @ [c])"
        and Q = "\<lambda>u :: ('c, 'g) world. isdir (files u) (target @ [c])"])
    fix c' and u u' :: "('c, 'g) world"
    assume "isdir (files u) (src @ [c])" "?body c' u = Done u'"
    then show "isdir (files u') (src @ [c])" by (rule persists)
  next
    fix u u' :: "('c, 'g) world"
    assume d: "isdir (files u) (src @ [c])" and step: "?body c u = Done u'"
    from standardize_class_run [OF step d] obtain fs1 where
      mk: "os_makedirs (files u) (target @ [c]) = Inr fs1"
      and loop: "for_each (standardize_image lib sz (src @ [c]) (target @ [c]))
             (listdir fs1 (src @ [c])) (u\<lparr>files := fs1\<rparr>) = Done u'"
      by blast
    have d1: "isdir fs1 (target @ [c])" using mk by (rule os_makedirs_isdir)
    then have "unwritten_by (\<lambda>r. r = target @ [c]) fs1 (target @ [c])"
      by (auto simp: unwritten_by_def isdir_def child_of_iff)
    then have "same_on (\<lambda>r. r = target @ [c]) fs1 (files (world_of (for_each
        (standardize_image lib sz (src @ [c]) (target @ [c]))
        (listdir fs1 (src @ [c])) (u\<lparr>files := fs1\<rparr>))))"
      by (rule standardize_inner_frame) (simp add: same_on_refl)
    with loop d1 show "isdir (files u') (target @ [c])"
      by (simp add: same_on_isdir)
  next
    fix c' and u u' :: "('c, 'g) world"
    assume "isdir (files u) (target @ [c])" "?body c' u = Done u'"
    then show "isdir (files u') (target @ [c])" by (rule persists)
  qed
qed

text \<open>
  C10. After a pass of \<^verbatim>\<open>split_data\<close> that ends normally, for whatever splitter, the
  class directory under the training, validation or test root exists exactly when it
  existed before or the subset of that root is not empty. After a pass of
  \<^verbatim>\<open>standardize_images\<close> that ends normally, the class directory under the target
  root exists for every class directory of the source, whether or not any of its files
  was converted.
\<close>

theorem target_class_directories:
  fixes w v :: "('c, 'g) world"
  shows "(split_data tts source_dir train_dir val_dir test_dir train_ratio val_ratio w = Done w' \<and>
          isdir (files w) (source_dir @ [c]) \<and>
          separate_roots source_dir train_dir val_dir test_dir \<longrightarrow>
            (\<exists>train val test g g'.
               partition_images tts train_ratio val_ratio
                 (listdir (files w) (source_dir @ [c])) g = (Inr (train, val, test), g') \<and>
               copied_into (files w) (files w') (source_dir @ [c]) (train_dir @ [c]) train \<and>
               copied_into (files w) (files w') (source_dir @ [c]) (val_dir @ [c]) val \<and>
               copied_into (files w) (files w') (source_dir @ [c]) (test_dir @ [c]) test \<and>
               (isdir (files w') (train_dir @ [c]) \<longleftrightarrow>
                  isdir (files w) (train_dir @ [c]) \<or> train \<noteq> []) \<and>
               (isdir (files w') (val_dir @ [c]) \<longleftrightarrow>
                  isdir (files w) (val_dir @ [c]) \<or> val \<noteq> []) \<and>
               (isdir (files w') (test_dir @ [c]) \<longleftrightarrow>
                  isdir (files w) (test_dir @ [c]) \<or> test \<noteq> []))) \<and>
         (standardize_images lib source_dir target_dir image_size v = Done v' \<and>
          isdir (files v) (source_dir @ [c]) \<longrightarrow>
            isdir (files v') (target_dir @ [c]))"
proof (intro conjI impI)
  assume a: "split_data tts source_dir train_dir val_dir test_dir train_ratio val_ratio w = Done w' \<and>
          isdir (files w) (source_dir @ [c]) \<and>
          separate_roots source_dir train_dir val_dir test_dir"
  then have run: "split_data tts source_dir train_dir val_dir test_dir train_ratio val_ratio w = Done w'"
    and dir: "isdir (files w) (source_dir @ [c])"
    and sep: "separate_roots source_dir train_dir val_dir test_dir" by simp_all
  from split_pass_copied [OF run dir sep] obtain x y z g g' where
    "partition_images tts train_ratio val_ratio
                 (listdir (files w) (source_dir @ [c])) g = (Inr (x, y, z), g')"
    "copied_into (files w) (files w') (source_dir @ [c]) (train_dir @ [c]) x"
    "copied_into (files w) (files w') (source_dir @ [c]) (val_dir @ [c]) y"
    "copied_into (files w) (files w') (source_dir @ [c]) (test_dir @ [c]) z"
    by blast
  moreover from this have
    "isdir (files w') (train_dir @ [c]) \<longleftrightarrow> isdir (files w) (train_dir @ [c]) \<or> x \<noteq> []"
    "isdir (files w') (val_dir @ [c]) \<longleftrightarrow> isdir (files w) (val_dir @ [c]) \<or> y \<noteq> []"
    "isdir (files w') (test_dir @ [c]) \<longleftrightarrow> isdir (files w) (test_dir @ [c]) \<or> z \<noteq> []"
    by (simp_all add: copied_into_def)
  ultimately show "\<exists>train val test g g'.
               partition_images tts train_ratio val_ratio
                 (listdir (files w) (source_dir @ [c])) g = (Inr (train, val, test), g') \<and>
               copied_into (files w) (files w') (source_dir @ [c]) (train_dir @ [c]) train \<and>
               copied_into (files w) (files w') (source_dir @ [c]) (val_dir @ [c]) val \<and>
               copied_into (files w) (files w') (source_dir @ [c]) (test_dir @ [c]) test \<and>
               (isdir (files w') (train_dir @ [c]) \<longleftrightarrow>
                  isdir (files w) (train_dir @ [c]) \<or> train \<noteq> []) \<and>
               (isdir (files w') (val_dir @ [c]) \<longleftrightarrow>
                  isdir (files w) (val_dir @ [c]) \<or> val \<noteq> []) \<and>
               (isdir (files w') (test_dir @ [c]) \<longleftrightarrow>
                  isdir (files w) (test_dir @ [c]) \<or> test \<noteq> [])"
    by blast
next
  assume "standardize_images lib source_dir target_dir image_size v = Done v' \<and>
          isdir (files v) (source_dir @ [c])"
  then show "isdir (files v') (target_dir @ [c])"
    by (auto intro: standardize_pass_dir)
qed

theorem target_class_directories_witness:
  "is_Done (split_data (train_test_split parity_rng) [''in''] [''tr''] [''va''] [''te'']
      default_train_ratio default_val_ratio (cat_world 0)) \<and>
   isdir (files (cat_world 0)) ([''in''] @ [''cat'']) \<and>
   separate_roots [''in''] [''tr''] [''va''] [''te''] \<and>
   (\<exists>train val test g g'.
      partition_images (train_test_split parity_rng) default_train_ratio default_val_ratio
        (listdir (files (cat_world 0)) ([''in''] @ [''cat''])) g = (Inr (train, val, test), g') \<and>
      (isdir (files (world_of (split_data (train_test_split parity_rng) [''in''] [''tr''] [''va'']
          [''te''] default_train_ratio default_val_ratio (cat_world 0)))) ([''tr''] @ [''cat''])
        \<longleftrightarrow> train \<noteq> []) \<and>
      (isdir (files (world_of (split_data (train_test_split parity_rng) [''in''] [''tr''] [''va'']
          [''te''] default_train_ratio default_val_ratio (cat_world 0)))) ([''va''] @ [''cat''])
        \<longleftrightarrow> val \<noteq> []) \<and>
      (isdir (files (world_of (split_data (train_test_split parity_rng) [''in''] [''tr''] [''va'']
          [''te''] default_train_ratio default_val_ratio (cat_world 0)))) ([''te''] @ [''cat''])
        \<longleftrightarrow> test \<noteq> [])) \<and>
   is_Done (standardize_images toy_pil [''data'', ''raw''] [''data'', ''processed'']
      default_image_size owl_world) \<and>
   isdir (files owl_world) ([''data'', ''raw''] @ [''owl'']) \<and>
   isdir (files (world_of (standardize_images toy_pil [''data'', ''raw''] [''data'', ''processed'']
      default_image_size owl_world))) ([''data'', ''processed''] @ [''owl'']) \<and>
   listdir (files (world_of (standardize_images toy_pil [''data'', ''raw''] [''data'', ''processed'']
      default_image_size owl_world))) ([''data'', ''processed''] @ [''owl'']) = []"
proof -
  let ?split = "split_data (train_test_split parity_rng) [''in''] [''tr''] [''va''] [''te'']
      default_train_ratio default_val_ratio (cat_world 0)"
  let ?std = "standardize_images toy_pil [''data'', ''raw''] [''data'', ''processed'']
      default_image_size owl_world"
  have h1: "is_Done ?split" by code_simp
  have h2: "isdir (files (cat_world 0)) ([''in''] @ [''cat''])" by code_simp
  have h3: "separate_roots [''in''] [''tr''] [''va''] [''te'']"
    by (simp add: separate_roots_def disjoint_trees_def)
  have n1: "\<not> isdir (files (cat_world 0)) ([''tr''] @ [''cat''])" by code_simp
  have n2: "\<not> isdir (files (cat_world 0)) ([''va''] @ [''cat''])" by code_simp
  have n3: "\<not> isdir (files (cat_world 0)) ([''te''] @ [''cat''])" by code_simp
  have k1: "is_Done ?std" by code_simp
  have k2: "isdir (files owl_world) ([''data'', ''raw''] @ [''owl''])" by code_simp
  have k3: "listdir (files (world_of ?std)) ([''data'', ''processed''] @ [''owl'']) = []"
    by code_simp
  note main = target_class_directories [where tts = "train_test_split parity_rng"
      and source_dir = "[''in'']" and train_dir = "[''tr'']" and val_dir = "[''va'']"
      and test_dir = "[''te'']" and train_ratio = default_train_ratio
      and val_ratio = default_val_ratio and w = "cat_world 0" and w' = "world_of ?split"
      and c = "''cat''"]
  note main2 = target_class_directories [where lib = toy_pil and source_dir = "[''data'', ''raw'']"
      and target_dir = "[''data'', ''processed'']" and image_size = default_image_size
      and v = owl_world and v' = "world_of ?std" and c = "''owl''"]
  from main is_Done_world_of [OF h1] h2 h3 n1 n2 n3
  have a: "\<exists>train val test g g'.
      partition_images (train_test_split parity_rng) default_train_ratio default_val_ratio
        (listdir (files (cat_world 0)) ([''in''] @ [''cat''])) g = (Inr (train, val, test), g') \<and>
      (isdir (files (world_of ?split)) ([''tr''] @ [''cat'']) \<longleftrightarrow> train \<noteq> []) \<and>
      (isdir (files (world_of ?split)) ([''va''] @ [''cat'']) \<longleftrightarrow> val \<noteq> []) \<and>
      (isdir (files (world_of ?split)) ([''te''] @ [''cat'']) \<longleftrightarrow> test \<noteq> [])"
    by blast
  from main2 is_Done_world_of [OF k1] k2
  have b: "isdir (files (world_of ?std)) ([''data'', ''processed''] @ [''owl''])"
    by blast
  from a b h1 h2 h3 k1 k2 k3 show ?thesis by blast
qed

end
